(* ===== verification/Prelude.thy ===== *)
theory Prelude
  imports Main "HOL-Library.Word"
begin

text \<open>
  What every component shares: names for the Rust types, the fact collections of the
  development, the results of fallible and panicking code, and generic lemmas on lists,
  options and words.

  A byte is a \<^typ>\<open>char\<close> (an 8-bit value), so \<open>&[u8]\<close>, \<open>Vec<u8>\<close>, \<open>String\<close>, \<open>&str\<close>,
  \<open>OsString\<close> and \<open>PathBuf\<close> are all byte strings here: Rust strings are UTF-8 bytes, and
  their lengths and indices count bytes. Unsigned machine integers are words; \<open>i32\<close> and
  \<open>i64\<close> are \<^typ>\<open>int\<close> with the wrap-around written out where a computation could leave the
  range.
\<close>

section \<open>Types\<close>

type_synonym bytes = string
type_synonym path = string
type_synonym u16 = "16 word"
type_synonym u32 = "32 word"
type_synonym u64 = "64 word"

text \<open>
  \<open>usize\<close> is 64 bits wide on the targets coredrop ships for (amd64 and arm64).
\<close>

type_synonym usize = "64 word"

text \<open>The value of a byte.\<close>

abbreviation byte_val :: "char \<Rightarrow> nat" where
  "byte_val c \<equiv> of_char c"

section \<open>Fact collections\<close>

named_theorems rust_str \<open>simplification rules for the string functions\<close>
named_theorems rust_num \<open>simplification rules for integer printing and parsing\<close>
named_theorems fs_simps \<open>unfolding rules for the file-system operations\<close>
named_theorems wf_intros \<open>preservation rules for the components' invariants\<close>

section \<open>Signed 64-bit arithmetic\<close>

text \<open>
  \<open>i64\<close> subtraction in a release build: two's complement wrap-around. Values in the range
  are represented by themselves.
\<close>

definition i64_min :: int where "i64_min = - (2 ^ 63)"
definition i64_max :: int where "i64_max = 2 ^ 63 - 1"
definition i32_min :: int where "i32_min = - (2 ^ 31)"
definition i32_max :: int where "i32_max = 2 ^ 31 - 1"

definition wrap_i64 :: "int \<Rightarrow> int" where
  "wrap_i64 x = (x + 2 ^ 63) mod 2 ^ 64 - 2 ^ 63"

definition in_i64 :: "int \<Rightarrow> bool" where
  "in_i64 x \<longleftrightarrow> i64_min \<le> x \<and> x \<le> i64_max"

definition i64_sub :: "int \<Rightarrow> int \<Rightarrow> int" where
  "i64_sub a b = wrap_i64 (a - b)"

lemma wrap_i64_id: "in_i64 x \<Longrightarrow> wrap_i64 x = x"
  by (simp add: in_i64_def wrap_i64_def i64_min_def i64_max_def)

lemma i64_sub_exact: "in_i64 (a - b) \<Longrightarrow> i64_sub a b = a - b"
  by (simp add: i64_sub_def wrap_i64_id)

section \<open>Lists\<close>

lemma filter_filter_conj: "filter P (filter Q xs) = filter (\<lambda>x. Q x \<and> P x) xs"
  by simp

lemma filter_idem: "filter P (filter P xs) = filter P xs"
  by simp

text \<open>The position of the last element satisfying a predicate (\<open>rposition\<close>).\<close>

fun rposition :: "('a \<Rightarrow> bool) \<Rightarrow> 'a list \<Rightarrow> nat option" where
  "rposition P [] = None"
| "rposition P (x # xs) =
     (case rposition P xs of
        Some i \<Rightarrow> Some (Suc i)
      | None \<Rightarrow> if P x then Some 0 else None)"

text \<open>\<open>Vec::remove\<close> at an index in range.\<close>

definition remove_nth :: "nat \<Rightarrow> 'a list \<Rightarrow> 'a list" where
  "remove_nth i xs = take i xs @ drop (Suc i) xs"

lemma remove_nth_0 [simp]: "remove_nth 0 (x # xs) = xs"
  and remove_nth_Suc [simp]: "remove_nth (Suc i) (x # xs) = x # remove_nth i xs"
  by (simp_all add: remove_nth_def)

lemma rposition_None: "rposition P xs = None \<longleftrightarrow> (\<forall>x\<in>set xs. \<not> P x)"
  by (induction xs) (auto split: option.splits)

lemma rposition_append_hit: "P x \<Longrightarrow> rposition P (xs @ [x]) = Some (length xs)"
  by (induction xs) auto

lemma remove_nth_append_last: "remove_nth (length xs) (xs @ [x]) = xs"
  by (simp add: remove_nth_def)

lemma rposition_bound: "rposition P xs = Some i \<Longrightarrow> i < length xs \<and> P (xs ! i)"
  by (induction xs arbitrary: i) (auto split: option.splits if_splits)

lemma length_remove_nth: "i < length xs \<Longrightarrow> length (remove_nth i xs) = length xs - 1"
  by (simp add: remove_nth_def)

lemma set_remove_nth: "set (remove_nth i xs) \<subseteq> set xs"
  by (auto simp: remove_nth_def dest: in_set_takeD in_set_dropD)

text \<open>
  Removing the last element equal to \<open>x\<close> leaves the list without one occurrence of \<open>x\<close>.
\<close>

lemma filter_remove_nth_other:
  "i < length xs \<Longrightarrow> \<not> P (xs ! i) \<Longrightarrow> filter P (remove_nth i xs) = filter P xs"
  by (induction xs arbitrary: i) (auto simp: less_Suc_eq_0_disj split: if_splits)

lemma length_filter_remove_nth:
  "i < length xs \<Longrightarrow> P (xs ! i) \<Longrightarrow> length (filter P (remove_nth i xs)) = length (filter P xs) - 1"
proof (induction xs arbitrary: i)
  case (Cons x xs)
  show ?case
  proof (cases i)
    case (Suc j)
    with Cons.prems have "xs ! j \<in> set (filter P xs)" by auto
    then have "filter P xs \<noteq> []" by (metis empty_iff list.set(1))
    with Suc Cons show ?thesis by (cases "filter P xs") auto
  qed (use Cons.prems in auto)
qed simp

section \<open>Options\<close>

text \<open>
  The combinators of \<open>Option\<close> that the source uses: \<open>filter\<close> and \<open>zip\<close>
  (\<open>map\<close>, \<open>and_then\<close> and \<open>unwrap_or\<close> are \<^const>\<open>map_option\<close>, \<^const>\<open>Option.bind\<close> and a case).
\<close>

definition opt_filter :: "('a \<Rightarrow> bool) \<Rightarrow> 'a option \<Rightarrow> 'a option" where
  "opt_filter P x = (case x of None \<Rightarrow> None | Some a \<Rightarrow> if P a then Some a else None)"

definition opt_zip :: "'a option \<Rightarrow> 'b option \<Rightarrow> ('a \<times> 'b) option" where
  "opt_zip x y = (case (x, y) of (Some a, Some b) \<Rightarrow> Some (a, b) | _ \<Rightarrow> None)"

definition unwrap_or :: "'a option \<Rightarrow> 'a \<Rightarrow> 'a" where
  "unwrap_or x d = (case x of None \<Rightarrow> d | Some a \<Rightarrow> a)"

lemma opt_filter_simps [simp]:
  "opt_filter P None = None"
  "opt_filter P (Some a) = (if P a then Some a else None)"
  by (simp_all add: opt_filter_def)

lemma opt_zip_simps [simp]:
  "opt_zip None y = None" "opt_zip x None = None" "opt_zip (Some a) (Some b) = Some (a, b)"
  by (simp_all add: opt_zip_def split: option.splits)

lemma unwrap_or_simps [simp]: "unwrap_or None d = d" "unwrap_or (Some a) d = a"
  by (simp_all add: unwrap_or_def)

text \<open>\<open>Iterator::find_map\<close>.\<close>

fun find_map :: "('a \<Rightarrow> 'b option) \<Rightarrow> 'a list \<Rightarrow> 'b option" where
  "find_map f [] = None"
| "find_map f (x # xs) = (case f x of Some y \<Rightarrow> Some y | None \<Rightarrow> find_map f xs)"

lemma find_map_Some_D: "find_map f xs = Some y \<Longrightarrow> \<exists>x\<in>set xs. f x = Some y"
  by (induction xs) (auto split: option.splits)

lemma find_map_None: "find_map f xs = None \<longleftrightarrow> (\<forall>x\<in>set xs. f x = None)"
  by (induction xs) (auto split: option.splits)

lemma find_map_append:
  "find_map f (xs @ ys) = (case find_map f xs of Some y \<Rightarrow> Some y | None \<Rightarrow> find_map f ys)"
  by (induction xs) (auto split: option.splits)

text \<open>\<open>iter.by_ref().find_map(f)\<close>: the result together with what the iterator has left.\<close>

fun find_map_rest :: "('a \<Rightarrow> 'b option) \<Rightarrow> 'a list \<Rightarrow> ('b \<times> 'a list) option" where
  "find_map_rest f [] = None"
| "find_map_rest f (x # xs) =
     (case f x of Some y \<Rightarrow> Some (y, xs) | None \<Rightarrow> find_map_rest f xs)"

lemma find_map_rest_Some_D:
  "find_map_rest f xs = Some (y, ys) \<Longrightarrow>
     \<exists>pre x. xs = pre @ x # ys \<and> f x = Some y \<and> (\<forall>z\<in>set pre. f z = None)"
proof (induction xs)
  case (Cons x xs)
  show ?case
  proof (cases "f x")
    case None
    with Cons obtain pre x' where "xs = pre @ x' # ys" "f x' = Some y" "\<forall>z\<in>set pre. f z = None"
      by auto
    with None have "x # xs = (x # pre) @ x' # ys \<and> f x' = Some y \<and> (\<forall>z\<in>set (x # pre). f z = None)"
      by simp
    then show ?thesis by blast
  next
    case (Some z)
    with Cons.prems have "x # xs = [] @ x # ys \<and> f x = Some y \<and> (\<forall>z\<in>set []. f z = None)"
      by simp
    then show ?thesis by blast
  qed
qed simp

lemma find_map_rest_append:
  "\<forall>z\<in>set pre. f z = None \<Longrightarrow> find_map_rest f (pre @ x # ys) = find_map_rest f (x # ys)"
  by (induction pre) auto

section \<open>Words\<close>

lemma unat_add_exact:
  "unat a + unat b < 2 ^ LENGTH('n) \<Longrightarrow> unat (a + b :: 'n::len word) = unat a + unat b"
  by (simp add: unat_word_ariths)

lemma unat_of_nat_exact:
  "n < 2 ^ LENGTH('n) \<Longrightarrow> unat (of_nat n :: 'n::len word) = n"
  by (simp add: unat_of_nat)

text \<open>\<open>checked_add\<close> and \<open>checked_mul\<close>: \<open>None\<close> on overflow.\<close>

definition checked_add :: "'n::len word \<Rightarrow> 'n word \<Rightarrow> 'n word option" where
  "checked_add a b = (if unat a + unat b < 2 ^ LENGTH('n) then Some (a + b) else None)"

definition checked_mul :: "'n::len word \<Rightarrow> 'n word \<Rightarrow> 'n word option" where
  "checked_mul a b = (if unat a * unat b < 2 ^ LENGTH('n) then Some (a * b) else None)"

definition saturating_sub :: "'n::len word \<Rightarrow> 'n word \<Rightarrow> 'n word" where
  "saturating_sub a b = (if b \<le> a then a - b else 0)"

lemma checked_add_Some:
  "checked_add a b = Some c \<Longrightarrow> unat c = unat a + unat b"
  by (auto simp: checked_add_def unat_word_ariths split: if_splits)

lemma checked_mul_Some:
  "checked_mul a b = Some c \<Longrightarrow> unat c = unat a * unat b"
  by (auto simp: checked_mul_def unat_word_ariths split: if_splits)

lemma unat_saturating_sub: "unat (saturating_sub a b) = unat a - unat b"
  by (auto simp: saturating_sub_def unat_sub word_le_nat_alt)

section \<open>Series of steps\<close>

fun run_steps :: "('j \<Rightarrow> 's \<Rightarrow> 'r \<times> 's) \<Rightarrow> 'j list \<Rightarrow> 's \<Rightarrow> 'r list \<times> 's" where
  "run_steps step [] s = ([], s)"
| "run_steps step (j # js) s = (let (r, s1) = step j s; (rs, s2) = run_steps step js s1 in (r # rs, s2))"

lemma run_steps_append:
  "run_steps step (xs @ ys) s = (let (rs, s1) = run_steps step xs s; (qs, s2) = run_steps step ys s1 in (rs @ qs, s2))"
  by (induction xs arbitrary: s) (auto simp: Let_def split: prod.splits)

text \<open>
  Functional refinement: while its invariant holds, a step on the concrete state answers as the
  step on what that state stands for, and leads to a state that stands for the result. Then
  so does every series of steps.
\<close>

locale simulation =
  fixes inv :: "'s \<Rightarrow> bool" and ok :: "'j \<Rightarrow> bool" and abst :: "'s \<Rightarrow> 'a"
    and cstep :: "'j \<Rightarrow> 's \<Rightarrow> 'r \<times> 's" and astep :: "'j \<Rightarrow> 'a \<Rightarrow> 'r \<times> 'a"
  assumes inv_step: "inv s \<Longrightarrow> ok j \<Longrightarrow> inv (snd (cstep j s))"
    and answers: "inv s \<Longrightarrow> ok j \<Longrightarrow> fst (cstep j s) = fst (astep j (abst s))"
    and commutes: "inv s \<Longrightarrow> ok j \<Longrightarrow> abst (snd (cstep j s)) = snd (astep j (abst s))"
begin

lemma series:
  assumes "inv s" "list_all ok js"
  shows "fst (run_steps cstep js s) = fst (run_steps astep js (abst s)) \<and>
    abst (snd (run_steps cstep js s)) = snd (run_steps astep js (abst s)) \<and> inv (snd (run_steps cstep js s))"
  using assms
proof (induction js arbitrary: s)
  case (Cons j js)
  obtain r s1 where c: "cstep j s = (r, s1)" by fastforce
  with Cons.prems inv_step [of s j] answers [of s j] commutes [of s j]
  have "inv s1" "astep j (abst s) = (r, abst s1)" by (auto simp: prod_eq_iff)
  with Cons.IH [of s1] Cons.prems c show ?case by (auto split: prod.splits)
qed simp

end

end
