(* ===== verification/Rust_Str.thy ===== *)
theory Rust_Str
  imports Prelude
begin

text \<open>
  The functions of Rust's \<open>str\<close> and \<open>slice\<close> that the source uses, on byte strings:
  splitting, searching, stripping, joining, trimming, line iteration and ASCII case
  mapping, each with the lemmas the components need. Splitting a UTF-8 string at an ASCII
  character is splitting its bytes, so one definition serves \<open>&str\<close> and \<open>&[u8]\<close>.
\<close>

section \<open>Splitting and joining\<close>

text \<open>\<open>split(c)\<close>: the maximal pieces between separators, never an empty list.\<close>

fun split_on :: "char \<Rightarrow> string \<Rightarrow> string list" where
  "split_on c [] = [[]]"
| "split_on c (x # xs) =
     (if x = c then [] # split_on c xs
      else (case split_on c xs of [] \<Rightarrow> [[x]] | y # ys \<Rightarrow> (x # y) # ys))"

text \<open>\<open>split_once(c)\<close>: the parts before and after the first separator.\<close>

fun split_once :: "char \<Rightarrow> string \<Rightarrow> (string \<times> string) option" where
  "split_once c [] = None"
| "split_once c (x # xs) =
     (if x = c then Some ([], xs)
      else map_option (\<lambda>(a, b). (x # a, b)) (split_once c xs))"

text \<open>\<open>join(sep)\<close> of a slice of strings.\<close>

fun str_join :: "string \<Rightarrow> string list \<Rightarrow> string" where
  "str_join sep [] = []"
| "str_join sep [x] = x"
| "str_join sep (x # y # ys) = x @ sep @ str_join sep (y # ys)"

lemma split_on_neq_Nil [simp]: "split_on c s \<noteq> []"
  by (cases s) (auto split: list.splits)

lemma split_on_no_sep: "p \<in> set (split_on c s) \<Longrightarrow> c \<notin> set p"
  by (induction s arbitrary: p) (fastforce split: list.splits if_splits)+

lemma split_on_set: "p \<in> set (split_on c s) \<Longrightarrow> set p \<subseteq> set s"
  by (induction s arbitrary: p) (fastforce split: list.splits if_splits)+

lemma split_on_absent: "c \<notin> set s \<Longrightarrow> split_on c s = [s]"
  by (induction s) auto

lemma split_on_append: "c \<notin> set a \<Longrightarrow> split_on c (a @ c # b) = a # split_on c b"
  by (induction a) auto

lemma split_on_append_sep: "split_on c (a @ c # b) = split_on c a @ split_on c b"
  by (induction a) (auto split: list.splits)

lemma join_split_on: "str_join [c] (split_on c s) = s"
proof (induction s)
  case (Cons x xs)
  then show ?case
    by (cases "split_on c xs"; cases "tl (split_on c xs)") auto
qed simp

lemma str_join_Cons: "xs \<noteq> [] \<Longrightarrow> str_join sep (x # xs) = x @ sep @ str_join sep xs"
  by (cases xs) auto

lemma str_join_append:
  "xs \<noteq> [] \<Longrightarrow> ys \<noteq> [] \<Longrightarrow> str_join sep (xs @ ys) = str_join sep xs @ sep @ str_join sep ys"
  by (induction sep xs rule: str_join.induct) (auto simp: str_join_Cons)

lemma set_str_join: "set (str_join sep xs) \<subseteq> \<Union> (set ` set xs) \<union> set sep"
  by (induction sep xs rule: str_join.induct) auto

lemma split_on_join:
  "xs \<noteq> [] \<Longrightarrow> \<forall>x\<in>set xs. c \<notin> set x \<Longrightarrow> split_on c (str_join [c] xs) = xs"
proof (induction "[c]" xs rule: str_join.induct)
  case (2 x)
  then show ?case by (simp add: split_on_absent)
next
  case (3 x y ys)
  then show ?case by (simp add: split_on_append)
qed simp

lemma split_once_Some:
  "split_once c s = Some (a, b) \<longleftrightarrow> s = a @ c # b \<and> c \<notin> set a"
proof (induction s arbitrary: a)
  case (Cons x xs)
  show ?case
    by (cases a) (auto simp: Cons.IH)
qed simp

lemma split_once_None: "split_once c s = None \<longleftrightarrow> c \<notin> set s"
  by (induction s) auto

lemma split_once_append: "c \<notin> set a \<Longrightarrow> split_once c (a @ c # b) = Some (a, b)"
  by (simp add: split_once_Some)

section \<open>Prefixes and suffixes\<close>

definition starts_with :: "string \<Rightarrow> string \<Rightarrow> bool" where
  "starts_with p s \<longleftrightarrow> take (length p) s = p"

definition ends_with :: "string \<Rightarrow> string \<Rightarrow> bool" where
  "ends_with p s \<longleftrightarrow> length p \<le> length s \<and> drop (length s - length p) s = p"

definition strip_prefix :: "string \<Rightarrow> string \<Rightarrow> string option" where
  "strip_prefix p s = (if starts_with p s then Some (drop (length p) s) else None)"

definition strip_suffix :: "string \<Rightarrow> string \<Rightarrow> string option" where
  "strip_suffix p s = (if ends_with p s then Some (take (length s - length p) s) else None)"

lemma starts_with_iff: "starts_with p s \<longleftrightarrow> (\<exists>r. s = p @ r)"
  unfolding starts_with_def
  by (metis append_eq_conv_conj append_take_drop_id)

lemma ends_with_iff: "ends_with p s \<longleftrightarrow> (\<exists>r. s = r @ p)"
proof
  assume "ends_with p s"
  then show "\<exists>r. s = r @ p"
    unfolding ends_with_def by (metis append_take_drop_id)
qed (auto simp: ends_with_def)

lemma strip_prefix_append [simp]: "strip_prefix p (p @ r) = Some r"
  by (simp add: strip_prefix_def starts_with_def)

lemma strip_prefix_Some: "strip_prefix p s = Some r \<longleftrightarrow> s = p @ r"
  by (auto simp: strip_prefix_def starts_with_iff)

lemma strip_prefix_None: "strip_prefix p s = None \<longleftrightarrow> \<not> starts_with p s"
  by (simp add: strip_prefix_def)

lemma strip_suffix_append [simp]: "strip_suffix p (r @ p) = Some r"
  by (simp add: strip_suffix_def ends_with_def)

lemma strip_suffix_Some: "strip_suffix p s = Some r \<longleftrightarrow> s = r @ p"
  by (auto simp: strip_suffix_def ends_with_iff)

lemma strip_suffix_None: "strip_suffix p s = None \<longleftrightarrow> \<not> ends_with p s"
  by (simp add: strip_suffix_def)

lemma starts_with_Nil [simp]: "starts_with [] s" by (simp add: starts_with_def)

lemma starts_with_Cons [simp]:
  "starts_with (x # p) [] = False" "starts_with (x # p) (y # s) \<longleftrightarrow> x = y \<and> starts_with p s"
  by (auto simp: starts_with_def)

lemma starts_with_append: "starts_with p s \<Longrightarrow> starts_with p (s @ t)"
  by (auto simp: starts_with_iff)

lemma ends_with_last: "ends_with p s \<Longrightarrow> p \<noteq> [] \<Longrightarrow> last s = last p \<and> s \<noteq> []"
  by (auto simp: ends_with_iff)

section \<open>Searching\<close>

text \<open>\<open>find(pat)\<close> for a string pattern: the least index where it occurs.\<close>

fun find_sub :: "string \<Rightarrow> string \<Rightarrow> nat option" where
  "find_sub p [] = (if p = [] then Some 0 else None)"
| "find_sub p (x # xs) =
     (if starts_with p (x # xs) then Some 0 else map_option Suc (find_sub p xs))"

definition contains_sub :: "string \<Rightarrow> string \<Rightarrow> bool" where
  "contains_sub p s \<longleftrightarrow> find_sub p s \<noteq> None"

text \<open>\<open>find(['/', '?', '#'])\<close>: the least index of a character of a set.\<close>

fun find_any :: "char list \<Rightarrow> string \<Rightarrow> nat option" where
  "find_any cs [] = None"
| "find_any cs (x # xs) = (if x \<in> set cs then Some 0 else map_option Suc (find_any cs xs))"

definition find_any_or_len :: "char list \<Rightarrow> string \<Rightarrow> nat" where
  "find_any_or_len cs s = (case find_any cs s of Some i \<Rightarrow> i | None \<Rightarrow> length s)"

lemma find_sub_Some_D: "find_sub p s = Some i \<Longrightarrow> s = take i s @ p @ drop (i + length p) s"
proof (induction s arbitrary: i)
  case (Cons x xs)
  then show ?case
    by (auto simp: starts_with_iff split: if_splits)
qed (simp split: if_splits)

lemma find_sub_append: "find_sub p (a @ p @ b) \<noteq> None"
proof (induction a)
  case Nil
  show ?case
    by (cases "p @ b"; cases p) (auto simp: starts_with_iff)
qed auto

lemma contains_sub_iff: "contains_sub p s \<longleftrightarrow> (\<exists>a b. s = a @ p @ b)"
  by (metis contains_sub_def find_sub_Some_D find_sub_append option.exhaust)

lemma find_sub_first:
  "find_sub p (a @ p @ b) = Some i \<Longrightarrow> i \<le> length a"
proof (induction a arbitrary: i)
  case Nil
  then show ?case
    by (cases "p @ b"; cases p) (auto simp: starts_with_iff)
qed (auto split: if_splits)

lemma find_sub_bound: "find_sub p s = Some i \<Longrightarrow> i + length p \<le> length s"
proof (induction s arbitrary: i)
  case (Cons x xs)
  then show ?case
    by (auto simp: starts_with_iff split: if_splits dest: arg_cong [of _ _ length])
qed (simp split: if_splits)

lemma find_sub_Nil [simp]: "find_sub [] s = Some 0"
  by (cases s) auto

text \<open>The index found depends only on the text up to the end of the occurrence.\<close>

lemma find_sub_cong_prefix:
  "find_sub p s = Some i \<Longrightarrow> find_sub p (take (i + length p) s @ t) = Some i"
proof (induction s arbitrary: i)
  case (Cons x xs)
  show ?case
  proof (cases "starts_with p (x # xs)")
    case True
    with Cons.prems have [simp]: "i = 0" by simp
    from True obtain r where r: "x # xs = p @ r" by (auto simp: starts_with_iff)
    have "find_sub p (p @ t) = Some 0"
      by (cases "p @ t"; cases p) (auto simp: starts_with_iff)
    then show ?thesis by (simp add: r)
  next
    case False
    with Cons.prems obtain j where j: "find_sub p xs = Some j" "i = Suc j" by auto
    from Cons.IH [OF j(1)] have IH: "find_sub p (take (j + length p) xs @ t) = Some j" .
    have "\<not> starts_with p (x # take (j + length p) xs @ t)"
    proof
      assume a: "starts_with p (x # take (j + length p) xs @ t)"
      have "length p \<le> Suc (length (take (j + length p) xs))"
        using find_sub_bound [OF j(1)] by simp
      then have "take (length p) (x # take (j + length p) xs @ t) = take (length p) (x # xs)"
        by (cases "length p") (auto simp: min_def)
      with a False show False by (simp add: starts_with_def)
    qed
    with IH j show ?thesis by simp
  qed
qed (simp split: if_splits)

lemma find_any_None: "find_any cs s = None \<longleftrightarrow> (\<forall>x\<in>set s. x \<notin> set cs)"
  by (induction s) auto

lemma find_any_Some:
  "find_any cs s = Some i \<longleftrightarrow>
     i < length s \<and> s ! i \<in> set cs \<and> (\<forall>x\<in>set (take i s). x \<notin> set cs)"
proof (induction s arbitrary: i)
  case (Cons x xs)
  then show ?case by (cases i) auto
qed simp

lemma find_any_or_len_le: "find_any_or_len cs s \<le> length s"
  by (auto simp: find_any_or_len_def find_any_Some split: option.splits)

lemma find_any_or_len_take: "\<forall>x\<in>set (take (find_any_or_len cs s) s). x \<notin> set cs"
  by (auto simp: find_any_or_len_def find_any_Some find_any_None split: option.splits)

lemma find_any_or_len_append:
  assumes "\<forall>x\<in>set a. x \<notin> set cs" and "b = [] \<or> hd b \<in> set cs"
  shows "find_any_or_len cs (a @ b) = length a"
  using assms by (induction a) (cases b; auto simp: find_any_or_len_def split: option.splits)+

lemma find_any_or_len_drop:
  "drop (find_any_or_len cs s) s = [] \<or> hd (drop (find_any_or_len cs s) s) \<in> set cs"
  by (auto simp: find_any_or_len_def find_any_Some hd_drop_conv_nth split: option.splits)

section \<open>Mapping characters\<close>

text \<open>\<open>replace(a, b)\<close> for one-byte patterns.\<close>

definition replace_char :: "char \<Rightarrow> char \<Rightarrow> string \<Rightarrow> string" where
  "replace_char a b s = map (\<lambda>c. if c = a then b else c) s"

definition is_ascii :: "char \<Rightarrow> bool" where
  "is_ascii c \<longleftrightarrow> byte_val c < 128"

definition is_ascii_digit :: "char \<Rightarrow> bool" where
  "is_ascii_digit c \<longleftrightarrow> 48 \<le> byte_val c \<and> byte_val c \<le> 57"

definition is_ascii_lowercase :: "char \<Rightarrow> bool" where
  "is_ascii_lowercase c \<longleftrightarrow> 97 \<le> byte_val c \<and> byte_val c \<le> 122"

definition is_ascii_uppercase :: "char \<Rightarrow> bool" where
  "is_ascii_uppercase c \<longleftrightarrow> 65 \<le> byte_val c \<and> byte_val c \<le> 90"

definition is_ascii_alphanumeric :: "char \<Rightarrow> bool" where
  "is_ascii_alphanumeric c \<longleftrightarrow> is_ascii_digit c \<or> is_ascii_lowercase c \<or> is_ascii_uppercase c"

definition is_ascii_hexdigit :: "char \<Rightarrow> bool" where
  "is_ascii_hexdigit c \<longleftrightarrow>
     is_ascii_digit c \<or> 97 \<le> byte_val c \<and> byte_val c \<le> 102 \<or> 65 \<le> byte_val c \<and> byte_val c \<le> 70"

definition ascii_upper :: "char \<Rightarrow> char" where
  "ascii_upper c = (if is_ascii_lowercase c then char_of (byte_val c - 32) else c)"

definition ascii_lower :: "char \<Rightarrow> char" where
  "ascii_lower c = (if is_ascii_uppercase c then char_of (byte_val c + 32) else c)"

definition to_ascii_uppercase :: "string \<Rightarrow> string" where
  "to_ascii_uppercase s = map ascii_upper s"

definition to_ascii_lowercase :: "string \<Rightarrow> string" where
  "to_ascii_lowercase s = map ascii_lower s"

lemmas ascii_defs = is_ascii_def is_ascii_digit_def is_ascii_lowercase_def is_ascii_uppercase_def
  is_ascii_alphanumeric_def is_ascii_hexdigit_def ascii_upper_def ascii_lower_def

lemma length_replace_char [simp]: "length (replace_char a b s) = length s"
  by (simp add: replace_char_def)

lemma replace_char_id: "a \<notin> set s \<Longrightarrow> replace_char a b s = s"
  by (induction s) (auto simp: replace_char_def)

lemma replace_char_inverse:
  "b \<notin> set s \<Longrightarrow> replace_char b a (replace_char a b s) = s"
  by (induction s) (auto simp: replace_char_def)

section \<open>Lines\<close>

text \<open>
  \<open>lines()\<close>: the pieces ended by a newline, each without a carriage return before that
  newline, and a last piece with no newline when it is not empty.
\<close>

definition newline :: char where "newline = CHR 10"
definition carriage_return :: char where "carriage_return = CHR 13"

definition strip_cr :: "string \<Rightarrow> string" where
  "strip_cr s = unwrap_or (strip_suffix [carriage_return] s) s"

definition str_lines :: "string \<Rightarrow> string list" where
  "str_lines s =
     (let ps = split_on newline s
      in map strip_cr (butlast ps) @ (if last ps = [] then [] else [last ps]))"

lemma str_lines_single:
  assumes "newline \<notin> set s" "s = [] \<or> last s \<noteq> carriage_return"
  shows "str_lines (s @ [newline]) = [s]"
proof -
  have "strip_cr s = s"
    using assms(2) by (auto simp: strip_cr_def strip_suffix_def ends_with_iff)
  with assms(1) show ?thesis
    by (simp add: str_lines_def split_on_append)
qed

lemma str_lines_plain:
  "newline \<notin> set s \<Longrightarrow> carriage_return \<notin> set s \<Longrightarrow> str_lines (s @ [newline]) = [s]"
  by (rule str_lines_single) (auto dest: last_in_set)

section \<open>Trimming\<close>

text \<open>
  The UTF-8 encodings of the Unicode \<open>White_Space\<close> characters. An encoded character at the
  end of a UTF-8 string is always a whole character, so suffix matching is exact.
\<close>

definition ws_encodings :: "string list" where
  "ws_encodings =
     [[CHR 0x09], [CHR 0x0A], [CHR 0x0B], [CHR 0x0C], [CHR 0x0D], [CHR 0x20],
      [CHR 0xC2, CHR 0x85], [CHR 0xC2, CHR 0xA0],
      [CHR 0xE1, CHR 0x9A, CHR 0x80],
      [CHR 0xE2, CHR 0x80, CHR 0x80], [CHR 0xE2, CHR 0x80, CHR 0x81],
      [CHR 0xE2, CHR 0x80, CHR 0x82], [CHR 0xE2, CHR 0x80, CHR 0x83],
      [CHR 0xE2, CHR 0x80, CHR 0x84], [CHR 0xE2, CHR 0x80, CHR 0x85],
      [CHR 0xE2, CHR 0x80, CHR 0x86], [CHR 0xE2, CHR 0x80, CHR 0x87],
      [CHR 0xE2, CHR 0x80, CHR 0x88], [CHR 0xE2, CHR 0x80, CHR 0x89],
      [CHR 0xE2, CHR 0x80, CHR 0x8A],
      [CHR 0xE2, CHR 0x80, CHR 0xA8], [CHR 0xE2, CHR 0x80, CHR 0xA9],
      [CHR 0xE2, CHR 0x80, CHR 0xAF], [CHR 0xE2, CHR 0x81, CHR 0x9F],
      [CHR 0xE3, CHR 0x80, CHR 0x80]]"

lemma ws_encodings_nonempty: "w \<in> set ws_encodings \<Longrightarrow> w \<noteq> []"
  by (auto simp: ws_encodings_def)

lemma find_ws_shorter:
  "find (\<lambda>w. Q w s) ws_encodings = Some w \<Longrightarrow> length w \<le> length s \<Longrightarrow>
     length s - length w < length s"
  by (metis diff_less find_Some_iff length_greater_0_conv less_le_trans nth_mem ws_encodings_nonempty)

function trim_end :: "string \<Rightarrow> string" where
  "trim_end s =
     (case find (\<lambda>w. ends_with w s) ws_encodings of
        None \<Rightarrow> s
      | Some w \<Rightarrow> trim_end (take (length s - length w) s))"
  by pat_completeness auto
termination
proof (relation "measure length", goal_cases)
  case (2 s w)
  then have "ends_with w s" by (auto simp: find_Some_iff)
  then have "length w \<le> length s" by (simp add: ends_with_def)
  with 2 show ?case
    using find_ws_shorter [of "\<lambda>w s. ends_with w s" s w] by simp
qed simp

function trim_start :: "string \<Rightarrow> string" where
  "trim_start s =
     (case find (\<lambda>w. starts_with w s) ws_encodings of
        None \<Rightarrow> s
      | Some w \<Rightarrow> trim_start (drop (length w) s))"
  by pat_completeness auto
termination
proof (relation "measure length", goal_cases)
  case (2 s w)
  then have "starts_with w s" by (auto simp: find_Some_iff)
  then have "length w \<le> length s" by (auto simp: starts_with_iff)
  with 2 show ?case
    using find_ws_shorter [of "\<lambda>w s. starts_with w s" s w] by simp
qed simp

declare trim_end.simps [simp del] trim_start.simps [simp del]

definition trim :: "string \<Rightarrow> string" where
  "trim s = trim_start (trim_end s)"

lemma trim_end_id:
  "\<forall>w\<in>set ws_encodings. \<not> ends_with w s \<Longrightarrow> trim_end s = s"
  by (subst trim_end.simps) (auto split: option.splits simp: find_Some_iff)

lemma trim_end_no_ws_last:
  "s \<noteq> [] \<Longrightarrow> last s \<notin> set (map last ws_encodings) \<Longrightarrow> trim_end s = s"
  using ends_with_last ws_encodings_nonempty by (intro trim_end_id) fastforce

lemma find_ws_newline: "find (\<lambda>w. ends_with w (s @ [newline])) ws_encodings = Some [newline]"
  by (simp add: ws_encodings_def ends_with_def newline_def)

lemma trim_end_newline: "trim_end (s @ [newline]) = trim_end s"
  by (subst trim_end.simps) (simp add: find_ws_newline)

end
