(* ===== verification/Cgroup.thy ===== *)
theory Cgroup
  imports Rust_Str
begin

text \<open>
  \<open>src/cgroup.rs\<close>: the pod UID and the container id read off the cgroup path of the
  crashing process. The parse is pure; \<^term>\<open>None\<close> means the process is not a Kubernetes
  container.
\<close>

section \<open>Data and operations\<close>

record cgroup_identity =
  cg_pod_uid :: string
  cg_container_id :: string

definition MAX_POD_UID_LEN :: nat where "MAX_POD_UID_LEN = 253"

definition is_uid_byte :: "char \<Rightarrow> bool" where
  "is_uid_byte c \<longleftrightarrow>
     is_ascii_digit c \<or> (97 \<le> byte_val c \<and> byte_val c \<le> 102) \<or> c = CHR ''-''"

definition is_pod_uid :: "string \<Rightarrow> bool" where
  "is_pod_uid s \<longleftrightarrow> s \<noteq> [] \<and> length s \<le> MAX_POD_UID_LEN \<and> list_all is_uid_byte s"

definition extract_pod_uid :: "string \<Rightarrow> string option" where
  "extract_pod_uid seg =
     (let s = unwrap_or (strip_suffix ''.slice'' seg) seg;
          uid = (case strip_prefix ''pod'' s of
                   Some rest \<Rightarrow> Some rest
                 | None \<Rightarrow>
                     (case find_sub ''-pod'' s of
                        None \<Rightarrow> None
                      | Some idx \<Rightarrow> Some (drop (idx + length ''-pod'') s)))
      in case uid of
           None \<Rightarrow> None
         | Some u \<Rightarrow> opt_filter is_pod_uid (Some (replace_char (CHR ''_'') (CHR ''-'') u)))"

definition extract_container_id :: "string \<Rightarrow> string option" where
  "extract_container_id seg =
     (let s = unwrap_or (strip_suffix ''.scope'' seg) seg;
          s = (case strip_prefix ''cri-containerd-'' s of
                 Some r \<Rightarrow> r
               | None \<Rightarrow>
                   (case strip_prefix ''docker-'' s of
                      Some r \<Rightarrow> r
                    | None \<Rightarrow> unwrap_or (strip_prefix ''crio-'' s) s))
      in if 12 \<le> length s \<and> list_all is_ascii_hexdigit s then Some s else None)"

definition path_segments :: "string \<Rightarrow> string list" where
  "path_segments path = filter (\<lambda>s. s \<noteq> []) (split_on (CHR ''/'') path)"

definition parse_cgroup_path :: "string \<Rightarrow> cgroup_identity option" where
  "parse_cgroup_path path =
     (case find_map_rest extract_pod_uid (path_segments path) of
        None \<Rightarrow> None
      | Some (uid, rest) \<Rightarrow>
          (case rest of
             [] \<Rightarrow> None
           | seg # _ \<Rightarrow>
               (case extract_container_id seg of
                  None \<Rightarrow> None
                | Some cid \<Rightarrow> Some \<lparr>cg_pod_uid = uid, cg_container_id = cid\<rparr>)))"

text \<open>\<open>line.rsplit(':').next()\<close> is the text after the last colon.\<close>

definition line_path :: "string \<Rightarrow> string" where
  "line_path line = last (split_on (CHR '':'') line)"

definition parse_cgroup :: "string \<Rightarrow> cgroup_identity option" where
  "parse_cgroup content = find_map (\<lambda>line. parse_cgroup_path (line_path line)) (str_lines content)"

section \<open>What a recognised identity looks like\<close>

definition is_container_id :: "string \<Rightarrow> bool" where
  "is_container_id s \<longleftrightarrow> 12 \<le> length s \<and> list_all is_ascii_hexdigit s"

lemma extract_pod_uid_valid: "extract_pod_uid seg = Some uid \<Longrightarrow> is_pod_uid uid"
  by (auto simp: extract_pod_uid_def Let_def split: option.splits if_splits)

lemma extract_container_id_valid: "extract_container_id seg = Some cid \<Longrightarrow> is_container_id cid"
  by (auto simp: extract_container_id_def Let_def is_container_id_def split: option.splits if_splits)

lemma parse_cgroup_path_valid:
  assumes "parse_cgroup_path p = Some ident"
  shows "is_pod_uid (cg_pod_uid ident)" "is_container_id (cg_container_id ident)"
proof -
  from assms obtain uid seg rest cid where
    f: "find_map_rest extract_pod_uid (path_segments p) = Some (uid, seg # rest)"
    and c: "extract_container_id seg = Some cid"
    and i: "ident = \<lparr>cg_pod_uid = uid, cg_container_id = cid\<rparr>"
    by (auto simp: parse_cgroup_path_def split: option.splits list.splits)
  from find_map_rest_Some_D [OF f] obtain s where "extract_pod_uid s = Some uid" by blast
  then show "is_pod_uid (cg_pod_uid ident)" using i by (simp add: extract_pod_uid_valid)
  show "is_container_id (cg_container_id ident)"
    using c i by (simp add: extract_container_id_valid)
qed

lemma parse_cgroup_valid:
  assumes "parse_cgroup content = Some ident"
  shows "is_pod_uid (cg_pod_uid ident)" "is_container_id (cg_container_id ident)"
proof -
  from assms obtain line where "parse_cgroup_path (line_path line) = Some ident"
    unfolding parse_cgroup_def by (blast dest: find_map_Some_D)
  then show "is_pod_uid (cg_pod_uid ident)" "is_container_id (cg_container_id ident)"
    by (rule parse_cgroup_path_valid)+
qed

lemma uid_byte_ascii: "is_uid_byte c \<Longrightarrow> is_ascii c \<and> c \<noteq> CHR ''/'' \<and> c \<noteq> CHR ''_'' \<and> c \<noteq> CHR ''.'' \<and> c \<noteq> CHR '':''"
  by (auto simp: is_uid_byte_def is_ascii_digit_def is_ascii_def)

lemma hexdigit_ascii:
  "is_ascii_hexdigit c \<Longrightarrow> is_ascii c \<and> c \<noteq> CHR ''/'' \<and> c \<noteq> CHR ''-'' \<and> c \<noteq> CHR ''.'' \<and> c \<noteq> CHR '':''"
  by (auto simp: is_ascii_hexdigit_def is_ascii_digit_def is_ascii_def)

text \<open>The two character classes, spelled out.\<close>

lemma class_chars: "byte_val c \<in> set (map byte_val cs) \<Longrightarrow> c \<in> set cs"
  by auto

lemma digits_between: "(a :: nat) \<le> n \<Longrightarrow> n \<le> b \<Longrightarrow> n \<in> set [a..<Suc b]"
  by auto

lemma uid_byte_chars: "is_uid_byte c \<Longrightarrow> c \<in> set ''0123456789abcdef-''"
  using digits_between [of 48 "byte_val c" 57] digits_between [of 97 "byte_val c" 102]
  by (intro class_chars) (auto simp: is_uid_byte_def is_ascii_digit_def upt_conv_Cons)

lemma hexdigit_chars: "is_ascii_hexdigit c \<Longrightarrow> c \<in> set ''0123456789abcdefABCDEF''"
  using digits_between [of 48 "byte_val c" 57] digits_between [of 97 "byte_val c" 102] digits_between [of 65 "byte_val c" 70]
  by (intro class_chars) (auto simp: is_ascii_hexdigit_def is_ascii_digit_def upt_conv_Cons)

lemma pod_uid_no_slash: "is_pod_uid u \<Longrightarrow> CHR ''/'' \<notin> set u"
  using uid_byte_ascii by (auto simp: is_pod_uid_def list_all_iff)

lemma container_id_no_slash: "is_container_id c \<Longrightarrow> CHR ''/'' \<notin> set c"
  using hexdigit_ascii by (auto simp: is_container_id_def list_all_iff)

section \<open>The two cgroup layouts\<close>

lemma no_dot_no_suffix: "CHR ''.'' \<notin> set s \<Longrightarrow> strip_suffix (CHR ''.'' # t) s = None"
  by (auto simp: strip_suffix_None ends_with_iff)

lemma no_dash_no_prefix: "CHR ''-'' \<notin> set s \<Longrightarrow> CHR ''-'' \<in> set p \<Longrightarrow> strip_prefix p s = None"
  by (auto simp: strip_prefix_None starts_with_iff)

lemma uid_no_dot: "is_pod_uid u \<Longrightarrow> CHR ''.'' \<notin> set u"
  using uid_byte_ascii by (auto simp: is_pod_uid_def list_all_iff)

lemma uid_no_underscore: "is_pod_uid u \<Longrightarrow> CHR ''_'' \<notin> set u"
  using uid_byte_ascii by (auto simp: is_pod_uid_def list_all_iff)

lemma cid_plain: "is_container_id c \<Longrightarrow> CHR ''.'' \<notin> set c \<and> CHR ''-'' \<notin> set c"
  using hexdigit_ascii by (auto simp: is_container_id_def list_all_iff)

text \<open>The pod segment of the cgroupfs driver, and of the systemd driver.\<close>

lemma extract_pod_uid_cgroupfs: "is_pod_uid u \<Longrightarrow> extract_pod_uid (''pod'' @ u) = Some u"
proof -
  assume u: "is_pod_uid u"
  from uid_no_dot [OF u] have "strip_suffix ''.slice'' (''pod'' @ u) = None"
    by (intro no_dot_no_suffix) auto
  moreover have "strip_prefix ''pod'' (''pod'' @ u) = Some u" by (rule strip_prefix_append)
  ultimately show ?thesis
    using u uid_no_underscore [OF u] by (simp add: extract_pod_uid_def replace_char_id)
qed

lemma extract_pod_uid_systemd:
  assumes u: "is_pod_uid u"
    and q: "\<not> starts_with ''pod'' (q @ ''-pod'' @ replace_char (CHR ''-'') (CHR ''_'') u)"
    and f: "find_sub ''-pod'' (q @ ''-pod'' @ replace_char (CHR ''-'') (CHR ''_'') u) = Some (length q)"
  shows "extract_pod_uid (q @ ''-pod'' @ replace_char (CHR ''-'') (CHR ''_'') u @ ''.slice'') = Some u"
proof -
  let ?r = "replace_char (CHR ''-'') (CHR ''_'') u"
  have "strip_suffix ''.slice'' (q @ ''-pod'' @ ?r @ ''.slice'') = Some (q @ ''-pod'' @ ?r)"
    using strip_suffix_append [of "''.slice''" "q @ ''-pod'' @ ?r"] by simp
  moreover have "strip_prefix ''pod'' (q @ ''-pod'' @ ?r) = None"
    using q by (simp add: strip_prefix_None)
  moreover have "replace_char (CHR ''_'') (CHR ''-'') ?r = u"
    using uid_no_underscore [OF u] by (rule replace_char_inverse)
  ultimately show ?thesis
    using u f by (simp add: extract_pod_uid_def)
qed

lemma extract_container_id_bare: "is_container_id c \<Longrightarrow> extract_container_id c = Some c"
proof -
  assume c: "is_container_id c"
  note p = cid_plain [OF c]
  have "strip_suffix ''.scope'' c = None" using p by (intro no_dot_no_suffix) simp
  moreover have "strip_prefix ''cri-containerd-'' c = None" "strip_prefix ''docker-'' c = None"
      "strip_prefix ''crio-'' c = None"
    using p by (auto intro!: no_dash_no_prefix)
  ultimately show ?thesis
    using c by (simp add: extract_container_id_def is_container_id_def)
qed

text \<open>The prefixes the three container runtimes put before the id.\<close>

definition runtime_prefixes :: "string list" where
  "runtime_prefixes = [''cri-containerd-'', ''docker-'', ''crio-'']"

lemma extract_container_id_scope:
  assumes c: "is_container_id c" and r: "r \<in> set runtime_prefixes"
  shows "extract_container_id (r @ c @ ''.scope'') = Some c"
proof -
  have s: "strip_suffix ''.scope'' (r @ c @ ''.scope'') = Some (r @ c)"
    using strip_suffix_append [of "''.scope''" "r @ c"] by simp
  consider "r = ''cri-containerd-''" | "r = ''docker-''" | "r = ''crio-''"
    using r by (auto simp: runtime_prefixes_def)
  then show ?thesis
  proof cases
    case 1
    then have "strip_prefix ''cri-containerd-'' (r @ c) = Some c"
      using strip_prefix_append by metis
    with c s show ?thesis by (simp add: extract_container_id_def is_container_id_def)
  next
    case 2
    then have "strip_prefix ''docker-'' (r @ c) = Some c"
      using strip_prefix_append by metis
    moreover from 2 have "strip_prefix ''cri-containerd-'' (r @ c) = None"
      by (simp add: strip_prefix_None)
    ultimately show ?thesis using c s by (simp add: extract_container_id_def is_container_id_def)
  next
    case 3
    then have "strip_prefix ''crio-'' (r @ c) = Some c"
      using strip_prefix_append by metis
    moreover from 3 have "strip_prefix ''cri-containerd-'' (r @ c) = None"
        "strip_prefix ''docker-'' (r @ c) = None"
      by (simp_all add: strip_prefix_None)
    ultimately show ?thesis using c s by (simp add: extract_container_id_def is_container_id_def)
  qed
qed

text \<open>
  A path whose segments are \<open>pre\<close> (none of them a pod segment), a pod segment, a container
  segment and anything below it.
\<close>

lemma path_segments_join:
  assumes "\<forall>s\<in>set segs. s \<noteq> [] \<and> CHR ''/'' \<notin> set s"
  shows "path_segments (CHR ''/'' # str_join ''/'' segs) = segs"
proof (cases "segs = []")
  case False
  have "split_on (CHR ''/'') (str_join [CHR ''/''] segs) = segs"
    using False assms by (intro split_on_join) auto
  then show ?thesis
    using assms by (simp add: path_segments_def)
qed (simp add: path_segments_def)

lemma parse_cgroup_path_segments:
  assumes "path_segments p = pre @ pod # ctr # below"
    and "\<forall>s\<in>set pre. extract_pod_uid s = None"
    and "extract_pod_uid pod = Some uid" and "extract_container_id ctr = Some cid"
  shows "parse_cgroup_path p = Some \<lparr>cg_pod_uid = uid, cg_container_id = cid\<rparr>"
  using assms by (simp add: parse_cgroup_path_def find_map_rest_append)

text \<open>The QoS parts of the two layouts: cgroupfs directories and systemd slice prefixes.\<close>

definition cgroupfs_parents :: "string list list" where
  "cgroupfs_parents =
     [[''kubepods''], [''kubepods'', ''burstable''], [''kubepods'', ''besteffort'']]"

definition systemd_parents :: "(string list \<times> string) list" where
  "systemd_parents =
     [([''kubepods.slice''], ''kubepods''),
      ([''kubepods.slice'', ''kubepods-burstable.slice''], ''kubepods-burstable''),
      ([''kubepods.slice'', ''kubepods-besteffort.slice''], ''kubepods-besteffort'')]"

definition cgroupfs_path :: "string list \<Rightarrow> string \<Rightarrow> string \<Rightarrow> string list \<Rightarrow> string" where
  "cgroupfs_path parents uid cid below =
     CHR ''/'' # str_join ''/'' (parents @ (''pod'' @ uid) # cid # below)"

definition systemd_path :: "string list \<times> string \<Rightarrow> string \<Rightarrow> string \<Rightarrow> string \<Rightarrow> string list \<Rightarrow> string" where
  "systemd_path parents uid rt cid below =
     CHR ''/'' # str_join ''/'' (fst parents
       @ (snd parents @ ''-pod'' @ replace_char (CHR ''-'') (CHR ''_'') uid @ ''.slice'')
       # (rt @ cid @ ''.scope'') # below)"

lemma parents_not_pods:
  "ps \<in> set cgroupfs_parents \<Longrightarrow> s \<in> set ps \<Longrightarrow> extract_pod_uid s = None \<and> s \<noteq> [] \<and> CHR ''/'' \<notin> set s \<and> CHR '':'' \<notin> set s"
  "sp \<in> set systemd_parents \<Longrightarrow> s \<in> set (fst sp) \<Longrightarrow> extract_pod_uid s = None \<and> s \<noteq> [] \<and> CHR ''/'' \<notin> set s \<and> CHR '':'' \<notin> set s"
  by (auto simp: cgroupfs_parents_def systemd_parents_def extract_pod_uid_def strip_suffix_def
      ends_with_def strip_prefix_def)

lemma systemd_slice_uid:
  assumes "is_pod_uid u" "sp \<in> set systemd_parents"
  shows "extract_pod_uid (snd sp @ ''-pod'' @ replace_char (CHR ''-'') (CHR ''_'') u @ ''.slice'') = Some u"
  using assms(2) by (intro extract_pod_uid_systemd [OF assms(1)]) (auto simp: systemd_parents_def)

text \<open>Segments that a cgroup below the container may have in these two layouts.\<close>

definition plain_segment :: "string \<Rightarrow> bool" where
  "plain_segment s \<longleftrightarrow> s \<noteq> [] \<and> list_all (\<lambda>c. c \<notin> {CHR ''/'', CHR '':'', newline, carriage_return}) s"

lemma plain_segment_D:
  "plain_segment s \<Longrightarrow> s \<noteq> [] \<and> CHR ''/'' \<notin> set s \<and> CHR '':'' \<notin> set s \<and> newline \<notin> set s \<and> carriage_return \<notin> set s"
  by (auto simp: plain_segment_def list_all_iff)

lemma plain_segmentI:
  "s \<noteq> [] \<Longrightarrow> (\<And>c. c \<in> set s \<Longrightarrow> c \<noteq> CHR ''/'' \<and> c \<noteq> CHR '':'' \<and> c \<noteq> newline \<and> c \<noteq> carriage_return) \<Longrightarrow>
     plain_segment s"
  by (auto simp: plain_segment_def list_all_iff)

lemma plain_append: "plain_segment s \<Longrightarrow> plain_segment t \<Longrightarrow> plain_segment (s @ t)"
  by (auto simp: plain_segment_def)

lemma uid_plain: "is_pod_uid u \<Longrightarrow> plain_segment u"
  by (auto simp: is_pod_uid_def plain_segment_def list_all_iff is_uid_byte_def is_ascii_digit_def
      newline_def carriage_return_def)

lemma uid_replaced_plain: "is_pod_uid u \<Longrightarrow> plain_segment (replace_char (CHR ''-'') (CHR ''_'') u)"
  by (auto simp: is_pod_uid_def plain_segment_def list_all_iff is_uid_byte_def is_ascii_digit_def
      newline_def carriage_return_def replace_char_def)

lemma cid_plain_segment: "is_container_id c \<Longrightarrow> plain_segment c"
  by (auto simp: is_container_id_def plain_segment_def list_all_iff is_ascii_hexdigit_def
      is_ascii_digit_def newline_def carriage_return_def)

lemma parents_plain:
  "ps \<in> set cgroupfs_parents \<Longrightarrow> s \<in> set ps \<Longrightarrow> plain_segment s"
  "sp \<in> set systemd_parents \<Longrightarrow> s \<in> set (fst sp) \<Longrightarrow> plain_segment s"
  "sp \<in> set systemd_parents \<Longrightarrow> plain_segment (snd sp)"
  "r \<in> set runtime_prefixes \<Longrightarrow> plain_segment r"
  by (auto simp: cgroupfs_parents_def systemd_parents_def runtime_prefixes_def plain_segment_def
      newline_def carriage_return_def)

text \<open>A joined path of plain segments holds no colon and no line break.\<close>

lemma plain_path_chars:
  assumes "\<forall>s\<in>set segs. plain_segment s" and "c \<in> {CHR '':'', newline, carriage_return}"
  shows "c \<notin> set (CHR ''/'' # str_join ''/'' segs)"
proof -
  have "c \<noteq> CHR ''/''" using assms(2) by (auto simp: newline_def carriage_return_def)
  moreover have "c \<notin> \<Union> (set ` set segs)" using assms plain_segment_D by fastforce
  ultimately show ?thesis using set_str_join [of "''/''" segs] by auto
qed

lemma line_path_v2: "CHR '':'' \<notin> set p \<Longrightarrow> line_path (''0::'' @ p) = p"
  by (simp add: line_path_def split_on_absent)

lemma parse_cgroup_v2_line:
  assumes "CHR '':'' \<notin> set p" "newline \<notin> set p" "carriage_return \<notin> set p"
  shows "parse_cgroup (''0::'' @ p @ [newline]) = parse_cgroup_path p"
proof -
  have "str_lines ((''0::'' @ p) @ [newline]) = [''0::'' @ p]"
    using assms by (intro str_lines_plain) (auto simp: newline_def carriage_return_def)
  then show ?thesis
    using line_path_v2 [OF assms(1)] by (simp add: parse_cgroup_def split: option.splits)
qed

lemma parse_plain_path:
  assumes "\<forall>s\<in>set (pre @ pod # ctr # below). plain_segment s"
    and "\<forall>s\<in>set pre. extract_pod_uid s = None"
    and "extract_pod_uid pod = Some uid" and "extract_container_id ctr = Some cid"
  shows "parse_cgroup (''0::'' @ (CHR ''/'' # str_join ''/'' (pre @ pod # ctr # below)) @ [newline])
    = Some \<lparr>cg_pod_uid = uid, cg_container_id = cid\<rparr>"
proof -
  have "path_segments (CHR ''/'' # str_join ''/'' (pre @ pod # ctr # below)) = pre @ pod # ctr # below"
    using assms(1) plain_segment_D by (intro path_segments_join) blast
  from parse_cgroup_path_segments [OF this assms(2-4)] show ?thesis
    using plain_path_chars [OF assms(1)] by (subst parse_cgroup_v2_line) simp_all
qed

lemma parse_cgroupfs_line:
  assumes "is_pod_uid uid" "is_container_id cid" "ps \<in> set cgroupfs_parents"
    "\<forall>s\<in>set below. plain_segment s"
  shows "parse_cgroup (''0::'' @ cgroupfs_path ps uid cid below @ [newline])
    = Some \<lparr>cg_pod_uid = uid, cg_container_id = cid\<rparr>"
  unfolding cgroupfs_path_def
proof (rule parse_plain_path)
  have "plain_segment (''pod'' @ uid)"
    by (rule plain_append [OF _ uid_plain [OF assms(1)]]) (simp add: plain_segment_def newline_def carriage_return_def)
  then show "\<forall>s\<in>set (ps @ (''pod'' @ uid) # cid # below). plain_segment s"
    using assms parents_plain(1) cid_plain_segment by auto
qed (use assms parents_not_pods(1) extract_pod_uid_cgroupfs extract_container_id_bare in blast)+

lemma parse_systemd_line:
  assumes "is_pod_uid uid" "is_container_id cid" "sp \<in> set systemd_parents" "rt \<in> set runtime_prefixes"
    "\<forall>s\<in>set below. plain_segment s"
  shows "parse_cgroup (''0::'' @ systemd_path sp uid rt cid below @ [newline])
    = Some \<lparr>cg_pod_uid = uid, cg_container_id = cid\<rparr>"
  unfolding systemd_path_def
proof (rule parse_plain_path)
  have lit: "plain_segment ''-pod''" "plain_segment ''.slice''" "plain_segment ''.scope''"
    by (simp_all add: plain_segment_def newline_def carriage_return_def)
  have "plain_segment (snd sp @ ''-pod'' @ replace_char (CHR ''-'') (CHR ''_'') uid @ ''.slice'')"
      "plain_segment (rt @ cid @ ''.scope'')"
    by (intro plain_append lit uid_replaced_plain cid_plain_segment parents_plain(3,4) assms)+
  then show "\<forall>s\<in>set (fst sp @ (snd sp @ ''-pod'' @ replace_char (CHR ''-'') (CHR ''_'') uid @ ''.slice'')
      # (rt @ cid @ ''.scope'') # below). plain_segment s"
    using assms(5) parents_plain(2) [OF assms(3)] by auto
qed (use assms parents_not_pods(2) systemd_slice_uid extract_container_id_scope in blast)+

text \<open>Only the text after the last colon of a line counts.\<close>

lemma line_path_last_colon: "CHR '':'' \<notin> set f \<Longrightarrow> line_path (r @ CHR '':'' # f) = f"
proof -
  assume f: "CHR '':'' \<notin> set f"
  then show ?thesis by (simp add: line_path_def split_on_append_sep split_on_absent)
qed

lemma parse_cgroup_last_colon:
  assumes "CHR '':'' \<notin> set f" "newline \<notin> set (r @ f)" "carriage_return \<notin> set f" "f \<noteq> []"
  shows "parse_cgroup (r @ CHR '':'' # f @ [newline]) = parse_cgroup_path f"
proof -
  have "last f \<noteq> carriage_return" using assms(3,4) last_in_set by metis
  then have "str_lines ((r @ CHR '':'' # f) @ [newline]) = [r @ CHR '':'' # f]"
    using assms by (intro str_lines_single) (auto simp: newline_def carriage_return_def)
  with line_path_last_colon [OF assms(1)] show ?thesis
    by (simp add: parse_cgroup_def split: option.splits)
qed

section \<open>Properties\<close>

text \<open>
  C35. Whatever a cgroup file contains, an identity read from it has a pod UID of 1 to 253
  characters, each a lowercase hex digit or a dash, and a container id of at least 12
  hex digits (the code sets no upper limit for it). So neither can hold a slash or any other
  character that would change the shape of an object key.
\<close>

theorem parse_cgroup_identity_safe:
  assumes "parse_cgroup content = Some ident"
  shows "1 \<le> length (cg_pod_uid ident) \<and> length (cg_pod_uid ident) \<le> 253 \<and>
    set (cg_pod_uid ident) \<subseteq> set ''0123456789abcdef-'' \<and>
    12 \<le> length (cg_container_id ident) \<and>
    set (cg_container_id ident) \<subseteq> set ''0123456789abcdefABCDEF''"
proof -
  from parse_cgroup_valid [OF assms] have
    uid: "cg_pod_uid ident \<noteq> []" "length (cg_pod_uid ident) \<le> 253" "\<forall>c\<in>set (cg_pod_uid ident). is_uid_byte c" and
    cid: "12 \<le> length (cg_container_id ident)" "\<forall>c\<in>set (cg_container_id ident). is_ascii_hexdigit c"
    unfolding is_pod_uid_def is_container_id_def list_all_iff MAX_POD_UID_LEN_def by simp_all
  have "set (cg_pod_uid ident) \<subseteq> set ''0123456789abcdef-''" using uid(3) uid_byte_chars by blast
  moreover have "set (cg_container_id ident) \<subseteq> set ''0123456789abcdefABCDEF''" using cid(2) hexdigit_chars by blast
  moreover have "1 \<le> length (cg_pod_uid ident)" using uid(1) by (simp add: Suc_le_eq)
  ultimately show ?thesis using uid(2) cid(1) by (intro conjI)
qed

theorem parse_cgroup_identity_safe_witness:
  "parse_cgroup (''12:pids:/kubepods/besteffort/podaaaa1111-bbbb/abcdef0123456789'' @ [newline])
      = Some \<lparr>cg_pod_uid = ''aaaa1111-bbbb'', cg_container_id = ''abcdef0123456789''\<rparr> \<and>
    set ''aaaa1111-bbbb'' \<subseteq> set ''0123456789abcdef-''"
proof -
  have "parse_cgroup (''12:pids:/kubepods/besteffort/podaaaa1111-bbbb/abcdef0123456789'' @ [newline])
      = Some \<lparr>cg_pod_uid = ''aaaa1111-bbbb'', cg_container_id = ''abcdef0123456789''\<rparr>"
    by code_simp
  with parse_cgroup_identity_safe [OF this] show ?thesis unfolding cgroup_identity.simps by (intro conjI) blast+
qed

text \<open>
  C36. The kubelet's two cgroup drivers write the same pod and container differently; both
  lines give the same identity, for every QoS class, every runtime prefix and whatever
  cgroups the container has below its own.
\<close>

theorem parse_cgroup_layouts:
  assumes "is_pod_uid uid" "is_container_id cid" "\<forall>s\<in>set below. plain_segment s"
    and "ps \<in> set cgroupfs_parents" "sp \<in> set systemd_parents" "rt \<in> set runtime_prefixes"
  shows "parse_cgroup (''0::'' @ cgroupfs_path ps uid cid below @ [newline])
      = Some \<lparr>cg_pod_uid = uid, cg_container_id = cid\<rparr> \<and>
    parse_cgroup (''0::'' @ systemd_path sp uid rt cid below @ [newline])
      = Some \<lparr>cg_pod_uid = uid, cg_container_id = cid\<rparr>"
  using assms by (simp only: parse_cgroupfs_line parse_systemd_line simp_thms)

theorem parse_cgroup_layouts_witness:
  "parse_cgroup (''0::'' @ systemd_path ([''kubepods.slice''], ''kubepods'') ''ed1e9c81-9a92''
      ''crio-'' ''3b9c2d1e4f5a6b7c'' [''init.scope''] @ [newline])
    = Some \<lparr>cg_pod_uid = ''ed1e9c81-9a92'', cg_container_id = ''3b9c2d1e4f5a6b7c''\<rparr>"
proof -
  have "is_pod_uid ''ed1e9c81-9a92''" "is_container_id ''3b9c2d1e4f5a6b7c''"
      "\<forall>s\<in>set [''init.scope'']. plain_segment s" "[''kubepods''] \<in> set cgroupfs_parents"
      "([''kubepods.slice''], ''kubepods'') \<in> set systemd_parents" "''crio-'' \<in> set runtime_prefixes"
    by code_simp+
  from parse_cgroup_layouts [OF this] show ?thesis by simp
qed

text \<open>
  C37. The identity can be forged: a sub-cgroup whose name ends in a colon hides the real
  path, because only the text after the last colon of the line is parsed. Whatever the
  real pod and container are, the line yields the identity written below that sub-cgroup.
\<close>

theorem parse_cgroup_colon_forgery:
  assumes "is_pod_uid uid" "is_container_id cid" "ps \<in> set cgroupfs_parents"
    and "is_pod_uid uid'" "is_container_id cid'"
  shows "parse_cgroup (''0::'' @ cgroupfs_path ps uid cid [''x:'', ''pod'' @ uid', cid'] @ [newline])
    = Some \<lparr>cg_pod_uid = uid', cg_container_id = cid'\<rparr>"
proof -
  let ?real = "ps @ [''pod'' @ uid, cid, ''x'']"
  let ?f = "CHR ''/'' # str_join ''/'' [''pod'' @ uid', cid']"
  have eq: "''0::'' @ cgroupfs_path ps uid cid [''x:'', ''pod'' @ uid', cid'] @ [newline]
      = (''0::'' @ CHR ''/'' # str_join ''/'' ?real) @ CHR '':'' # ?f @ [newline]"
    using assms(3) by (auto simp: cgroupfs_path_def str_join_append cgroupfs_parents_def)
  have pod: "plain_segment (''pod'' @ u)" if "is_pod_uid u" for u
    by (rule plain_append [OF _ uid_plain [OF that]]) (simp add: plain_segment_def newline_def carriage_return_def)
  have real: "\<forall>s\<in>set ?real. plain_segment s"
    using assms pod parents_plain(1) cid_plain_segment
    by (auto simp: plain_segment_def newline_def carriage_return_def)
  have fake: "\<forall>s\<in>set [''pod'' @ uid', cid']. plain_segment s"
    using assms pod cid_plain_segment by simp
  have "path_segments ?f = [] @ (''pod'' @ uid') # cid' # []"
    using fake plain_segment_D path_segments_join [of "[''pod'' @ uid', cid']"] by fastforce
  from parse_cgroup_path_segments [OF this] assms(4,5)
  have "parse_cgroup_path ?f = Some \<lparr>cg_pod_uid = uid', cg_container_id = cid'\<rparr>"
    using extract_pod_uid_cgroupfs extract_container_id_bare by (metis empty_iff list.set(1))
  moreover have "newline \<notin> set ((''0::'' @ CHR ''/'' # str_join ''/'' ?real) @ ?f)"
    using plain_path_chars [OF real] plain_path_chars [OF fake] by (simp add: newline_def)
  ultimately show ?thesis
    using plain_path_chars [OF fake] unfolding eq by (subst parse_cgroup_last_colon) simp_all
qed

theorem parse_cgroup_colon_forgery_witness:
  "parse_cgroup (''0::'' @ cgroupfs_path [''kubepods''] ''aaaa-1111'' ''0123456789ab''
      [''x:'', ''podbbbb-2222'', ''ba9876543210''] @ [newline])
    = Some \<lparr>cg_pod_uid = ''bbbb-2222'', cg_container_id = ''ba9876543210''\<rparr>"
proof -
  have "is_pod_uid ''aaaa-1111''" "is_container_id ''0123456789ab''" "[''kubepods''] \<in> set cgroupfs_parents"
      "is_pod_uid ''bbbb-2222''" "is_container_id ''ba9876543210''"
    by code_simp+
  from parse_cgroup_colon_forgery [OF this] show ?thesis by simp
qed

end
