(* ===== verification/Rust_Utf8.thy ===== *)
theory Rust_Utf8
  imports Rust_Str
begin

text \<open>
  UTF-8 as \<open>std::str::from_utf8\<close> and \<open>String::from_utf8_lossy\<close> read it: one scan of the
  next character, which is either a well-formed sequence or the maximal ill-formed part that
  the lossy conversion replaces by one U+FFFD.
\<close>

section \<open>Scanning one character\<close>

definition is_cont :: "char \<Rightarrow> bool" where
  "is_cont c \<longleftrightarrow> 128 \<le> byte_val c \<and> byte_val c \<le> 191"

text \<open>
  For a lead byte above ASCII: the number of continuation bytes after the second byte, and
  the range of the second byte (no overlong forms, no surrogates, nothing above U+10FFFF).
\<close>

definition lead_info :: "nat \<Rightarrow> (nat \<times> nat \<times> nat) option" where
  "lead_info b =
     (if 194 \<le> b \<and> b \<le> 223 then Some (0, 128, 191)
      else if b = 224 then Some (1, 160, 191)
      else if b = 237 then Some (1, 128, 159)
      else if 225 \<le> b \<and> b \<le> 239 then Some (1, 128, 191)
      else if b = 240 then Some (2, 144, 191)
      else if 241 \<le> b \<and> b \<le> 243 then Some (2, 128, 191)
      else if b = 244 then Some (2, 128, 143)
      else None)"

fun scan_cont :: "nat \<Rightarrow> nat \<Rightarrow> string \<Rightarrow> bool \<times> nat" where
  "scan_cont 0 k s = (True, k)"
| "scan_cont (Suc m) k [] = (False, k)"
| "scan_cont (Suc m) k (c # cs) = (if is_cont c then scan_cont m (Suc k) cs else (False, k))"

text \<open>Whether the next character is well formed, and how many bytes it or its ill-formed part takes.\<close>

fun utf8_scan :: "string \<Rightarrow> bool \<times> nat" where
  "utf8_scan [] = (True, 0)"
| "utf8_scan (c # cs) =
     (if is_ascii c then (True, 1)
      else (case lead_info (byte_val c) of
          None \<Rightarrow> (False, 1)
        | Some (m, lo, hi) \<Rightarrow>
            (case cs of
               [] \<Rightarrow> (False, 1)
             | d # ds \<Rightarrow>
                 if lo \<le> byte_val d \<and> byte_val d \<le> hi then scan_cont m 2 ds else (False, 1))))"

lemma scan_cont_ge: "k \<le> snd (scan_cont m k s)"
  by (induction m k s rule: scan_cont.induct) auto

lemma scan_cont_pos: "0 < snd (scan_cont m 2 s)"
  using scan_cont_ge [of 2 m s] by linarith

lemma utf8_scan_pos: "s \<noteq> [] \<Longrightarrow> 0 < snd (utf8_scan s)"
  by (cases s) (auto simp: scan_cont_pos split: option.splits list.splits)

lemma scan_cont_le: "fst (scan_cont m k s) \<Longrightarrow> snd (scan_cont m k s) \<le> k + length s"
  by (induction m k s rule: scan_cont.induct) (auto split: if_splits)

lemma utf8_scan_le: "fst (utf8_scan s) \<Longrightarrow> snd (utf8_scan s) \<le> length s"
  using scan_cont_le by (cases s) (fastforce split: option.splits list.splits if_splits)+

section \<open>Validation and lossy conversion\<close>

function utf8_valid :: "string \<Rightarrow> bool" where
  "utf8_valid s =
     (if s = [] then True
      else fst (utf8_scan s) \<and> utf8_valid (drop (snd (utf8_scan s)) s))"
  by pat_completeness auto
termination
  by (relation "measure length") (use utf8_scan_pos in \<open>auto simp: diff_less\<close>)

definition replacement_char :: string where
  "replacement_char = [CHR 0xEF, CHR 0xBF, CHR 0xBD]"

function utf8_lossy :: "string \<Rightarrow> string" where
  "utf8_lossy s =
     (if s = [] then []
      else (if fst (utf8_scan s) then take (snd (utf8_scan s)) s else replacement_char)
           @ utf8_lossy (drop (snd (utf8_scan s)) s))"
  by pat_completeness auto
termination
  by (relation "measure length") (use utf8_scan_pos in \<open>auto simp: diff_less\<close>)

declare utf8_valid.simps [simp del] utf8_lossy.simps [simp del]

lemma utf8_valid_Nil [simp]: "utf8_valid []"
  by (simp add: utf8_valid.simps)

lemma utf8_valid_ascii_Cons [simp]: "is_ascii c \<Longrightarrow> utf8_valid (c # s) = utf8_valid s"
  by (subst utf8_valid.simps) simp

lemma utf8_valid_ascii: "\<forall>c\<in>set s. is_ascii c \<Longrightarrow> utf8_valid s"
  by (induction s) auto

lemma utf8_lossy_valid_id: "utf8_valid s \<Longrightarrow> utf8_lossy s = s"
proof (induction s rule: utf8_valid.induct)
  case (1 s)
  show ?case
  proof (cases "s = []")
    case False
    with 1 show ?thesis
      by (subst utf8_lossy.simps, subst (asm) (2) utf8_valid.simps) auto
  qed (simp add: utf8_lossy.simps)
qed

section \<open>Cutting at an ASCII character\<close>

text \<open>An ASCII byte never continues a character, so the scan of the text before it is unchanged.\<close>

lemma ascii_not_cont: "is_ascii c \<Longrightarrow> \<not> is_cont c"
  by (simp add: is_ascii_def is_cont_def)

lemma scan_cont_ascii: "is_ascii c \<Longrightarrow> scan_cont m k (s @ c # t) = scan_cont m k s"
  by (induction m k s rule: scan_cont.induct) (auto dest: ascii_not_cont)

lemma lead_info_lo: "lead_info b = Some (m, lo, hi) \<Longrightarrow> 128 \<le> lo"
  by (auto simp: lead_info_def split: if_splits)

lemma utf8_scan_ascii: "is_ascii c \<Longrightarrow> s \<noteq> [] \<Longrightarrow> utf8_scan (s @ c # t) = utf8_scan s"
proof (cases s)
  case (Cons d ds)
  assume c: "is_ascii c"
  show ?thesis
  proof (cases ds)
    case Nil
    from c Cons Nil show ?thesis
      by (auto simp: is_ascii_def dest!: lead_info_lo split: option.splits)
  next
    case (Cons e es)
    with \<open>s = d # ds\<close> c show ?thesis
      by (auto simp: scan_cont_ascii split: option.splits)
  qed
qed simp

lemma utf8_valid_split_ascii:
  assumes "is_ascii c"
  shows "utf8_valid (s @ c # t) \<longleftrightarrow> utf8_valid s \<and> utf8_valid t"
proof (induction s rule: utf8_valid.induct)
  case (1 s)
  show ?case
  proof (cases "s = []")
    case False
    let ?k = "snd (utf8_scan s)"
    have sc: "utf8_scan (s @ c # t) = utf8_scan s"
      using assms False by (rule utf8_scan_ascii)
    show ?thesis
    proof (cases "fst (utf8_scan s)")
      case True
      then have "?k \<le> length s" by (rule utf8_scan_le)
      with 1 [OF False] True False sc show ?thesis
        by (subst (1 2) utf8_valid.simps) simp
    next
      case no: False
      with False sc show ?thesis
        by (subst (1 2) utf8_valid.simps) simp
    qed
  qed (use assms in simp)
qed

lemma utf8_valid_append: "utf8_valid s \<Longrightarrow> utf8_valid t \<Longrightarrow> utf8_valid (s @ t)"
proof (induction s rule: utf8_valid.induct)
  case (1 s)
  show ?case
  proof (cases "s = []")
    case False
    let ?k = "snd (utf8_scan s)"
    from 1(2) False have ok: "fst (utf8_scan s)" and v: "utf8_valid (drop ?k s)"
      by (subst (asm) utf8_valid.simps, simp)+
    have cont: "scan_cont m k (u @ t) = scan_cont m k u" if "fst (scan_cont m k u)" for m k u
      using that by (induction m k u rule: scan_cont.induct) (auto split: if_splits)
    have sc: "utf8_scan (s @ t) = utf8_scan s"
      using ok False by (cases s; cases "tl s") (auto simp: cont split: option.splits if_splits)
    from 1(1) [OF False v 1(3)] ok False sc utf8_scan_le [OF ok] show ?thesis
      by (subst utf8_valid.simps) simp
  qed (use 1 in simp)
qed

lemma replacement_char_valid: "utf8_valid replacement_char"
  by (simp add: replacement_char_def utf8_valid.simps lead_info_def is_ascii_def is_cont_def)

text \<open>A well-formed first character, cut out, is valid on its own.\<close>

lemma scan_cont_take:
  "fst (scan_cont m k s) \<Longrightarrow> scan_cont m k (take (snd (scan_cont m k s) - k) s) = scan_cont m k s"
proof (induction m k s rule: scan_cont.induct)
  case (3 m k c cs)
  then have "is_cont c" by (simp split: if_splits)
  moreover have "Suc (snd (scan_cont m (Suc k) cs) - Suc k) = snd (scan_cont m (Suc k) cs) - k"
    using scan_cont_ge [of "Suc k" m cs] by simp
  ultimately show ?case
    using 3 by (metis scan_cont.simps(3) take_Suc_Cons)
qed auto

lemma utf8_scan_take:
  assumes "s \<noteq> []" "fst (utf8_scan s)"
  shows "utf8_scan (take (snd (utf8_scan s)) s) = utf8_scan s"
proof (cases s)
  case (Cons c cs)
  show ?thesis
  proof (cases "is_ascii c")
    case False
    with assms Cons obtain m lo hi d ds where
      l: "lead_info (byte_val c) = Some (m, lo, hi)" "cs = d # ds" "lo \<le> byte_val d" "byte_val d \<le> hi"
        "fst (scan_cont m 2 ds)"
      by (auto split: option.splits list.splits if_splits)
    have "2 \<le> snd (scan_cont m 2 ds)" by (rule scan_cont_ge)
    then obtain j where "snd (scan_cont m 2 ds) = Suc (Suc j)"
      by (metis Suc_le_D numeral_2_eq_2 Suc_le_mono)
    with l False Cons scan_cont_take [OF l(5)] show ?thesis by simp
  qed (use Cons in simp)
qed (use assms in simp)

lemma utf8_valid_first:
  "s \<noteq> [] \<Longrightarrow> fst (utf8_scan s) \<Longrightarrow> utf8_valid (take (snd (utf8_scan s)) s)"
  by (subst utf8_valid.simps) (simp add: utf8_scan_take)

lemma utf8_lossy_valid: "utf8_valid (utf8_lossy s)"
proof (induction s rule: utf8_lossy.induct)
  case (1 s)
  then show ?case
    by (subst utf8_lossy.simps)
      (auto intro!: utf8_valid_append replacement_char_valid utf8_valid_first)
qed

end
