(* ===== verification/Filesystem.thy ===== *)
theory Filesystem
  imports Rust_Utf8
begin

text \<open>
  The part of the operating system that the daemon and the handler write to: a map from
  paths to nodes, with the \<open>std::fs\<close> calls of the source as state-passing functions. A call
  fails where the state says so (a missing file, a directory in the way) and wherever the
  environment makes it fail for a reason outside the model (permissions, a full disk, an I/O
  error): that environment is a parameter of every function here, so a theorem over it
  covers every combination of failures.

  Simplifications: symbolic links are followed at the last path component only, and the
  process's umask clears no owner bits (so a requested mode 0600 or 0700 is the resulting
  mode).
\<close>

section \<open>Paths\<close>

definition is_absolute :: "path \<Rightarrow> bool" where
  "is_absolute p \<longleftrightarrow> starts_with ''/'' p"

text \<open>\<open>Path::join\<close>.\<close>

definition path_join :: "path \<Rightarrow> path \<Rightarrow> path" where
  "path_join p q =
     (if is_absolute q \<or> p = [] then q
      else if ends_with ''/'' p then p @ q
      else p @ ''/'' @ q)"

text \<open>
  The components of a path: empty components and \<open>.\<close> are dropped, except a leading \<open>.\<close> of a
  relative path.
\<close>

definition path_comps :: "path \<Rightarrow> string list" where
  "path_comps p =
     (let cs = split_on (CHR ''/'') p;
          keep = filter (\<lambda>c. c \<noteq> [] \<and> c \<noteq> ''.'')
      in if \<not> is_absolute p \<and> hd cs = ''.'' then ''.'' # keep (tl cs) else keep cs)"

definition path_of_comps :: "bool \<Rightarrow> string list \<Rightarrow> path" where
  "path_of_comps root cs = (if root then ''/'' else []) @ str_join ''/'' cs"

text \<open>
  \<open>Path::parent\<close>, up to redundant separators (which \<open>Path\<close> equality ignores): none for the
  empty path and for the root.
\<close>

definition path_parent :: "path \<Rightarrow> path option" where
  "path_parent p =
     (let cs = path_comps p
      in if cs = [] then None else Some (path_of_comps (is_absolute p) (butlast cs)))"

text \<open>The path itself and its ancestors, outermost first; the current directory is left out.\<close>

definition path_ancestors :: "path \<Rightarrow> path list" where
  "path_ancestors p =
     filter (\<lambda>q. q \<noteq> [])
       (map (\<lambda>n. path_of_comps (is_absolute p) (take n (path_comps p))) [0..<Suc (length (path_comps p))])"

section \<open>Nodes, state and environment\<close>

datatype node = File bytes nat | Dir nat | Symlink path | Socket nat

type_synonym fs = "path \<Rightarrow> node option"

datatype io_op =
  OpMkdir | OpChmod | OpOpen | OpRead | OpWrite | OpSeek | OpTruncate | OpSync | OpRemove
| OpRename | OpLock | OpBind | OpNonblock | OpRegister | OpReadDir | OpReadLink

datatype io_error = NotFound | AlreadyExists | IsADirectory | NotADirectory | InvalidData | Fault io_op

text \<open>
  The environment: which calls fail, and after how many bytes a failing write stops.
\<close>

record io_env =
  io_fails :: "io_op \<Rightarrow> path \<Rightarrow> bool"
  io_partial :: "path \<Rightarrow> nat"

definition no_faults :: io_env where
  "no_faults = \<lparr>io_fails = (\<lambda>_ _. False), io_partial = (\<lambda>_. 0)\<rparr>"

lemma no_faults_simps [simp]: "io_fails no_faults op p = False"
  by (simp add: no_faults_def)

definition mode_600 :: nat where "mode_600 = 384"
definition mode_700 :: nat where "mode_700 = 448"
definition mode_755 :: nat where "mode_755 = 493"
definition mode_644 :: nat where "mode_644 = 420"

text \<open>Following symbolic links, at most 40 of them as the kernel does.\<close>

fun resolve :: "nat \<Rightarrow> fs \<Rightarrow> path \<Rightarrow> path option" where
  "resolve 0 s p = None"
| "resolve (Suc n) s p =
     (case s p of
        Some (Symlink t) \<Rightarrow>
          resolve n s (path_join (unwrap_or (path_parent p) []) t)
      | _ \<Rightarrow> Some p)"

definition follow :: "fs \<Rightarrow> path \<Rightarrow> path option" where
  "follow s p = resolve 41 s p"

definition node_at :: "fs \<Rightarrow> path \<Rightarrow> node option" where
  "node_at s p = Option.bind (follow s p) s"

definition is_dir :: "fs \<Rightarrow> path \<Rightarrow> bool" where
  "is_dir s p \<longleftrightarrow> p = [] \<or> (\<exists>m. node_at s p = Some (Dir m))"

text \<open>\<open>Path::exists\<close>: something is there after following links.\<close>

definition path_exists :: "fs \<Rightarrow> path \<Rightarrow> bool" where
  "path_exists s p \<longleftrightarrow> node_at s p \<noteq> None"

section \<open>Calls\<close>

definition fs_read :: "io_env \<Rightarrow> fs \<Rightarrow> path \<Rightarrow> io_error + bytes" where
  "fs_read io s p =
     (if io_fails io OpOpen p then Inl (Fault OpOpen)
      else (case node_at s p of
          None \<Rightarrow> Inl NotFound
        | Some (File c _) \<Rightarrow> if io_fails io OpRead p then Inl (Fault OpRead) else Inr c
        | Some (Dir _) \<Rightarrow> Inl IsADirectory
        | Some _ \<Rightarrow> Inl (Fault OpOpen)))"

definition read_to_string :: "io_env \<Rightarrow> fs \<Rightarrow> path \<Rightarrow> io_error + string" where
  "read_to_string io s p =
     (case fs_read io s p of
        Inl e \<Rightarrow> Inl e
      | Inr c \<Rightarrow> if utf8_valid c then Inr c else Inl InvalidData)"

text \<open>\<open>create_dir_all\<close>: make every missing ancestor, outermost first.\<close>

fun mkdirs :: "io_env \<Rightarrow> fs \<Rightarrow> path list \<Rightarrow> (io_error + unit) \<times> fs" where
  "mkdirs io s [] = (Inr (), s)"
| "mkdirs io s (p # ps) =
     (if is_dir s p then mkdirs io s ps
      else if io_fails io OpMkdir p then (Inl (Fault OpMkdir), s)
      else if s p \<noteq> None then (Inl AlreadyExists, s)
      else mkdirs io (s(p \<mapsto> Dir mode_755)) ps)"

definition create_dir_all :: "io_env \<Rightarrow> fs \<Rightarrow> path \<Rightarrow> (io_error + unit) \<times> fs" where
  "create_dir_all io s p = mkdirs io s (path_ancestors p)"

fun set_mode :: "nat \<Rightarrow> node \<Rightarrow> node" where
  "set_mode m (File c _) = File c m"
| "set_mode m (Dir _) = Dir m"
| "set_mode m (Socket _) = Socket m"
| "set_mode m (Symlink t) = Symlink t"

definition set_permissions :: "io_env \<Rightarrow> fs \<Rightarrow> path \<Rightarrow> nat \<Rightarrow> (io_error + unit) \<times> fs" where
  "set_permissions io s p m =
     (if io_fails io OpChmod p then (Inl (Fault OpChmod), s)
      else (case follow s p of
          None \<Rightarrow> (Inl (Fault OpChmod), s)
        | Some q \<Rightarrow>
            (case s q of
               None \<Rightarrow> (Inl NotFound, s)
             | Some n \<Rightarrow> (Inr (), s(q \<mapsto> set_mode m n)))))"

definition remove_file :: "io_env \<Rightarrow> fs \<Rightarrow> path \<Rightarrow> (io_error + unit) \<times> fs" where
  "remove_file io s p =
     (if io_fails io OpRemove p then (Inl (Fault OpRemove), s)
      else (case s p of
          None \<Rightarrow> (Inl NotFound, s)
        | Some (Dir _) \<Rightarrow> (Inl IsADirectory, s)
        | Some _ \<Rightarrow> (Inr (), s(p := None))))"

definition parent_is_dir :: "fs \<Rightarrow> path \<Rightarrow> bool" where
  "parent_is_dir s p = (case path_parent p of None \<Rightarrow> False | Some d \<Rightarrow> is_dir s d)"

text \<open>\<open>OpenOptions\<close> with \<open>create_new\<close> (\<open>O_EXCL\<close>): never opens what is already there.\<close>

definition open_create_new :: "io_env \<Rightarrow> fs \<Rightarrow> path \<Rightarrow> nat \<Rightarrow> (io_error + unit) \<times> fs" where
  "open_create_new io s p m =
     (if io_fails io OpOpen p then (Inl (Fault OpOpen), s)
      else if s p \<noteq> None then (Inl AlreadyExists, s)
      else if \<not> parent_is_dir s p then (Inl NotFound, s)
      else (Inr (), s(p \<mapsto> File [] m)))"

text \<open>
  \<open>OpenOptions\<close> with \<open>read\<close>, \<open>write\<close> and \<open>create(c)\<close>, without truncation: the path of the
  opened file, with links followed, is the handle. The mode applies to a new file only.
\<close>

definition open_rw :: "io_env \<Rightarrow> fs \<Rightarrow> bool \<Rightarrow> path \<Rightarrow> nat \<Rightarrow> (io_error + path) \<times> fs" where
  "open_rw io s c p m =
     (if io_fails io OpOpen p then (Inl (Fault OpOpen), s)
      else (case follow s p of
          None \<Rightarrow> (Inl (Fault OpOpen), s)
        | Some q \<Rightarrow>
            (case s q of
               Some (File _ _) \<Rightarrow> (Inr q, s)
             | Some (Dir _) \<Rightarrow> (Inl IsADirectory, s)
             | Some _ \<Rightarrow> (Inl (Fault OpOpen), s)
             | None \<Rightarrow>
                 if c \<and> parent_is_dir s q then (Inr q, s(q \<mapsto> File [] m)) else (Inl NotFound, s))))"

definition file_content :: "fs \<Rightarrow> path \<Rightarrow> bytes" where
  "file_content s p = (case s p of Some (File c _) \<Rightarrow> c | _ \<Rightarrow> [])"

definition set_content :: "fs \<Rightarrow> path \<Rightarrow> bytes \<Rightarrow> fs" where
  "set_content s p c = (case s p of Some (File _ m) \<Rightarrow> s(p \<mapsto> File c m) | _ \<Rightarrow> s)"

text \<open>\<open>write_all\<close> to an open, empty file: a failing write leaves the part already written.\<close>

definition write_all :: "io_env \<Rightarrow> fs \<Rightarrow> path \<Rightarrow> bytes \<Rightarrow> (io_error + unit) \<times> fs" where
  "write_all io s p c =
     (if io_fails io OpWrite p
      then (Inl (Fault OpWrite), set_content s p (file_content s p @ take (io_partial io p) c))
      else (Inr (), set_content s p (file_content s p @ c)))"

text \<open>\<open>rename\<close> replaces the destination in one step; a directory there refuses it.\<close>

definition rename :: "io_env \<Rightarrow> fs \<Rightarrow> path \<Rightarrow> path \<Rightarrow> (io_error + unit) \<times> fs" where
  "rename io s a b =
     (if io_fails io OpRename a then (Inl (Fault OpRename), s)
      else (case s a of
          None \<Rightarrow> (Inl NotFound, s)
        | Some n \<Rightarrow>
            (case s b of
               Some (Dir _) \<Rightarrow> (Inl IsADirectory, s)
             | _ \<Rightarrow> if a = b then (Inr (), s) else (Inr (), s(a := None, b \<mapsto> n)))))"

text \<open>\<open>std::fs::write\<close>: open, create or truncate, then write.\<close>

definition fs_write :: "io_env \<Rightarrow> fs \<Rightarrow> path \<Rightarrow> bytes \<Rightarrow> (io_error + unit) \<times> fs" where
  "fs_write io s p c =
     (case open_rw io s True p mode_644 of
        (Inl e, s1) \<Rightarrow> (Inl e, s1)
      | (Inr q, s1) \<Rightarrow> write_all io (set_content s1 q []) q c)"

section \<open>\<open>ensure_private_dir\<close>\<close>

definition ensure_private_dir :: "io_env \<Rightarrow> fs \<Rightarrow> path \<Rightarrow> (io_error + unit) \<times> fs" where
  "ensure_private_dir io s dir =
     (case create_dir_all io s dir of
        (Inl e, s1) \<Rightarrow> (Inl e, s1)
      | (Inr _, s1) \<Rightarrow> set_permissions io s1 dir mode_700)"

lemmas fs_call_defs [fs_simps] =
  fs_read_def read_to_string_def set_permissions_def remove_file_def open_create_new_def
  open_rw_def write_all_def rename_def fs_write_def

section \<open>Frame lemmas\<close>

text \<open>Following a path with no link at it stays there.\<close>

lemma follow_plain: "(\<And>t. s p \<noteq> Some (Symlink t)) \<Longrightarrow> follow s p = Some p"
  by (auto simp: follow_def numeral_eq_Suc split: option.splits node.splits)

lemma node_at_plain: "(\<And>t. s p \<noteq> Some (Symlink t)) \<Longrightarrow> node_at s p = s p"
  by (simp add: node_at_def follow_plain)

lemma resolve_not_symlink: "resolve n s p = Some q \<Longrightarrow> s q \<noteq> Some (Symlink t)"
  by (induction n s p rule: resolve.induct) (auto split: option.splits node.splits)

lemma follow_not_symlink: "follow s p = Some q \<Longrightarrow> s q \<noteq> Some (Symlink t)"
  unfolding follow_def by (rule resolve_not_symlink)

text \<open>Creating directories never touches what is already there.\<close>

lemma mkdirs_mono: "s p = Some n \<Longrightarrow> snd (mkdirs io s ps) p = Some n"
proof (induction io s ps rule: mkdirs.induct)
  case (2 io s q ps)
  then show ?case by (cases "p = q") (auto simp: fun_upd_def)
qed simp

lemma mkdirs_adds_dirs: "s p = None \<Longrightarrow> snd (mkdirs io s ps) p \<in> {None, Some (Dir mode_755)}"
proof (induction io s ps rule: mkdirs.induct)
  case (2 io s q ps)
  show ?case
  proof (cases "p = q")
    case True
    with 2 mkdirs_mono [of "s(q \<mapsto> Dir mode_755)" q "Dir mode_755" io ps] show ?thesis by auto
  next
    case False
    with 2 show ?thesis by (cases "is_dir s q") (simp_all add: fun_upd_def)
  qed
qed simp

text \<open>A path outside the list is not created.\<close>

lemma mkdirs_other: "p \<notin> set ps \<Longrightarrow> snd (mkdirs io s ps) p = s p"
  by (induction io s ps rule: mkdirs.induct) (auto split: if_splits)

lemma mkdirs_present: "list_all (is_dir s) ps \<Longrightarrow> mkdirs io s ps = (Inr (), s)"
  by (induction ps) auto

text \<open>What creating directories, changing a directory's mode, leaves alone.\<close>

lemma set_permissions_other:
  "follow s p \<noteq> Some q \<Longrightarrow> snd (set_permissions io s p m) q = s q"
  by (auto simp: set_permissions_def split: option.splits)

lemma set_permissions_ok:
  assumes "follow s p = Some q" "s q = Some n" "\<not> io_fails io OpChmod p"
  shows "set_permissions io s p m = (Inr (), s(q \<mapsto> set_mode m n))"
  using assms by (simp add: set_permissions_def)

section \<open>Calls that keep every link and every file's content\<close>

definition same_links :: "fs \<Rightarrow> fs \<Rightarrow> bool" where
  "same_links s s' \<longleftrightarrow> (\<forall>p t. s p = Some (Symlink t) \<longleftrightarrow> s' p = Some (Symlink t))"

definition same_files :: "fs \<Rightarrow> fs \<Rightarrow> bool" where
  "same_files s s' \<longleftrightarrow>
     same_links s s' \<and> (\<forall>p c. (\<exists>m. s p = Some (File c m)) \<longleftrightarrow> (\<exists>m. s' p = Some (File c m)))"

lemma same_files_refl [simp]: "same_files s s"
  by (simp add: same_files_def same_links_def)

lemma same_files_trans [trans]: "same_files s t \<Longrightarrow> same_files t u \<Longrightarrow> same_files s u"
  by (simp add: same_files_def same_links_def)

lemma same_links_trans [trans]: "same_links s t \<Longrightarrow> same_links t u \<Longrightarrow> same_links s u"
  by (simp add: same_links_def)

lemma same_files_links: "same_files s s' \<Longrightarrow> same_links s s'"
  by (simp add: same_files_def)

lemma same_links_resolve: "same_links s s' \<Longrightarrow> resolve n s' p = resolve n s p"
proof (induction n s p rule: resolve.induct)
  case (2 n s p)
  show ?case
  proof (cases "\<exists>t. s p = Some (Symlink t)")
    case True
    then obtain t where t: "s p = Some (Symlink t)" by blast
    with 2(2) have "s' p = Some (Symlink t)" by (simp add: same_links_def)
    with t 2 show ?thesis by simp
  next
    case False
    with 2(2) have "\<And>t. s' p \<noteq> Some (Symlink t)" by (simp add: same_links_def)
    with False show ?thesis by (auto split: option.splits node.splits)
  qed
qed simp

lemma same_links_follow: "same_links s s' \<Longrightarrow> follow s' p = follow s p"
  unfolding follow_def by (rule same_links_resolve)

lemma same_files_content: "same_files s s' \<Longrightarrow> file_content s' p = file_content s p"
proof -
  assume a: "same_files s s'"
  show ?thesis
  proof (cases "\<exists>c m. s p = Some (File c m)")
    case True
    then obtain c m where c: "s p = Some (File c m)" by blast
    with a have "\<exists>m'. s' p = Some (File c m')" unfolding same_files_def by blast
    with c show ?thesis by (auto simp: file_content_def)
  next
    case False
    with a have "\<not> (\<exists>c m. s' p = Some (File c m))" unfolding same_files_def by blast
    with False show ?thesis by (auto simp: file_content_def split: option.splits node.splits)
  qed
qed

lemma mkdirs_same_files: "same_files s (snd (mkdirs io s ps))"
  unfolding same_files_def same_links_def
proof (intro conjI allI)
  fix p t
  show "s p = Some (Symlink t) \<longleftrightarrow> snd (mkdirs io s ps) p = Some (Symlink t)"
    using mkdirs_mono [of s p _ io ps] mkdirs_adds_dirs [of s p io ps] by (cases "s p") auto
next
  fix p c
  show "(\<exists>m. s p = Some (File c m)) \<longleftrightarrow> (\<exists>m. snd (mkdirs io s ps) p = Some (File c m))"
    using mkdirs_mono [of s p _ io ps] mkdirs_adds_dirs [of s p io ps] by (cases "s p") auto
qed

lemma set_permissions_same_files: "same_files s (snd (set_permissions io s p m))"
proof (cases "set_permissions io s p m = (Inr (), snd (set_permissions io s p m))")
  case True
  then obtain q n where q: "follow s p = Some q" "s q = Some n"
      and eq: "snd (set_permissions io s p m) = s(q \<mapsto> set_mode m n)"
    by (auto simp: set_permissions_def split: if_splits option.splits)
  have "n \<noteq> Symlink t" for t using follow_not_symlink [OF q(1)] q(2) by auto
  then show ?thesis
    unfolding eq same_files_def same_links_def using q(2) by (cases n) auto
qed (auto simp: set_permissions_def split: if_splits option.splits)

lemma ensure_private_dir_same_files: "same_files s (snd (ensure_private_dir io s d))"
proof -
  have "same_files s (snd (create_dir_all io s d))"
    unfolding create_dir_all_def by (rule mkdirs_same_files)
  moreover have "same_files (snd (create_dir_all io s d)) (snd (set_permissions io (snd (create_dir_all io s d)) d mode_700))"
    by (rule set_permissions_same_files)
  ultimately show ?thesis
    by (auto simp: ensure_private_dir_def split: prod.splits sum.splits intro: same_files_trans)
qed

text \<open>
  Exactly what preparing a private directory may change: a missing ancestor becomes a directory,
  and the node that the directory's path leads to gets mode 0700.
\<close>

lemma ensure_private_dir_frame:
  "snd (ensure_private_dir io s d) q = s q \<or>
   s q = None \<and> q \<in> set (path_ancestors d) \<and> snd (ensure_private_dir io s d) q \<in> {Some (Dir mode_755), Some (Dir mode_700)} \<or>
   follow s d = Some q \<and> snd (ensure_private_dir io s d) q = map_option (set_mode mode_700) (s q)"
proof -
  let ?s1 = "snd (create_dir_all io s d)" and ?s2 = "snd (ensure_private_dir io s d)"
  have s2: "?s2 q = ?s1 q \<or> follow s d = Some q \<and> ?s2 q = map_option (set_mode mode_700) (?s1 q)"
    using same_links_follow [OF same_files_links [OF mkdirs_same_files], of io s "path_ancestors d" d]
    by (auto simp: ensure_private_dir_def create_dir_all_def set_permissions_def split: prod.split sum.split option.split)
  show ?thesis
  proof (cases "?s1 q = s q")
    case True
    with s2 show ?thesis by auto
  next
    case False
    then have "s q = None \<and> q \<in> set (path_ancestors d) \<and> ?s1 q = Some (Dir mode_755)"
      using mkdirs_mono [of s q _ io "path_ancestors d"] mkdirs_other [of q "path_ancestors d" io s]
        mkdirs_adds_dirs [of s q io "path_ancestors d"] by (cases "s q") (auto simp: create_dir_all_def intro: ccontr)
    with s2 show ?thesis by auto
  qed
qed

section \<open>An opened file\<close>

lemma open_rw_ok:
  assumes "open_rw io s c p m = (Inr fd, s')"
  shows "follow s p = Some fd" "\<not> io_fails io OpOpen p" "file_content s' fd = file_content s fd"
    "\<exists>c m. s' fd = Some (File c m)" "same_links s s'"
  using assms follow_not_symlink [of s p fd]
  by (auto simp: open_rw_def file_content_def same_links_def split: if_splits option.splits node.splits)

lemma fchmod_ok:
  assumes "set_permissions io s fd m = (Inr (), s')" "s fd = Some (File c m0)"
  shows "s' = s(fd \<mapsto> File c m)" "\<not> io_fails io OpChmod fd"
  using assms by (auto simp: set_permissions_def follow_plain split: if_splits option.splits)

end
