(* ===== verification/Rate_Limit.thy ===== *)
theory Rate_Limit
  imports Filesystem
begin

text \<open>
  \<open>src/ratelimit.rs\<close>: the per-pod upload budget. The closures that check and refund are
  pure updates of the parsed state; \<open>with_locked_state\<close> reads the state file, applies one and
  writes the file back, with every I/O error a branch. \<open>serde_json\<close> is a parameter (a parser
  and a printer of the state). The locale \<open>sliding_window\<close> is the contract a limiter keeps
  with its caller, and the window bound is proved from it once.
\<close>

section \<open>Data\<close>

definition RATE_WINDOW_SECS :: int where "RATE_WINDOW_SECS = 3600"

datatype rate_decision = Allowed | Suppressed u32

record rate_state =
  rs_events :: "string \<rightharpoonup> int list"

record rate_limiter =
  rl_state_path :: path
  rl_max_per_hour :: u32

definition rate_default :: rate_state where
  "rate_default = \<lparr>rs_events = Map.empty\<rparr>"

text \<open>The JSON parser and printer of the state.\<close>

record rate_codec =
  rc_parse :: "bytes \<Rightarrow> rate_state option"
  rc_print :: "rate_state \<Rightarrow> bytes option"

section \<open>The updates under the lock\<close>

definition prune_events :: "int \<Rightarrow> (string \<rightharpoonup> int list) \<Rightarrow> (string \<rightharpoonup> int list)" where
  "prune_events cutoff ev =
     (\<lambda>k. case ev k of
        None \<Rightarrow> None
      | Some ts \<Rightarrow>
          (let ts' = filter (\<lambda>t. cutoff < t) ts in if ts' = [] then None else Some ts'))"

definition vec_len :: "int list option \<Rightarrow> nat" where
  "vec_len v = (case v of None \<Rightarrow> 0 | Some ts \<Rightarrow> length ts)"

text \<open>\<open>u32::try_from(n).unwrap_or(u32::MAX)\<close>\<close>

definition u32_saturate :: "nat \<Rightarrow> u32" where
  "u32_saturate n = (if n < 2 ^ 32 then of_nat n else - 1)"

definition check_update :: "u32 \<Rightarrow> string \<Rightarrow> int \<Rightarrow> rate_state \<Rightarrow> rate_decision \<times> rate_state" where
  "check_update max_per_hour scope now st =
     (let cutoff = i64_sub now RATE_WINDOW_SECS;
          ev = prune_events cutoff (rs_events st);
          recent = u32_saturate (vec_len (ev scope))
      in if max_per_hour \<le> recent then (Suppressed recent, st\<lparr>rs_events := ev\<rparr>)
         else (Allowed, st\<lparr>rs_events := ev(scope \<mapsto> unwrap_or (ev scope) [] @ [now])\<rparr>))"

definition drop_last_eq :: "int \<Rightarrow> int list \<Rightarrow> int list" where
  "drop_last_eq a ts = (case rposition (\<lambda>t. t = a) ts of Some pos \<Rightarrow> remove_nth pos ts | None \<Rightarrow> ts)"

definition refund_update :: "string \<Rightarrow> int \<Rightarrow> rate_state \<Rightarrow> rate_state" where
  "refund_update scope recorded_at st =
     (case rs_events st scope of
        None \<Rightarrow> st
      | Some ts \<Rightarrow>
          (let ts' = drop_last_eq recorded_at ts
           in st\<lparr>rs_events := (rs_events st)(scope := if ts' = [] then None else Some ts')\<rparr>))"

section \<open>The locked state file\<close>

definition with_locked_state ::
  "rate_codec \<Rightarrow> io_env \<Rightarrow> rate_limiter \<Rightarrow> bool \<Rightarrow> (rate_state \<Rightarrow> 'r \<times> rate_state) \<Rightarrow> fs
     \<Rightarrow> (io_error + 'r) \<times> fs" where
  "with_locked_state codec io rl create update s =
     (case (case path_parent (rl_state_path rl) of
              Some parent \<Rightarrow> if create then ensure_private_dir io s parent else (Inr (), s)
            | None \<Rightarrow> (Inr (), s)) of
        (Inl e, s1) \<Rightarrow> (Inl e, s1)
      | (Inr _, s1) \<Rightarrow>
    (case open_rw io s1 create (rl_state_path rl) mode_600 of
        (Inl e, s2) \<Rightarrow> (Inl e, s2)
      | (Inr fd, s2) \<Rightarrow>
    (case set_permissions io s2 fd mode_600 of
        (Inl e, s3) \<Rightarrow> (Inl e, s3)
      | (Inr _, s3) \<Rightarrow>
     if io_fails io OpLock fd then (Inl (Fault OpLock), s3)
     else if io_fails io OpRead fd then (Inl (Fault OpRead), s3)
     else
       (let state = unwrap_or (rc_parse codec (file_content s3 fd)) rate_default;
            (result, state') = update state
        in case rc_print codec state' of
             None \<Rightarrow> (Inl InvalidData, s3)
           | Some json \<Rightarrow>
               if io_fails io OpSeek fd then (Inl (Fault OpSeek), s3)
               else if io_fails io OpTruncate fd then (Inl (Fault OpTruncate), s3)
               else
                 (case write_all io (set_content s3 fd []) fd json of
                    (Inl e, s4) \<Rightarrow> (Inl e, s4)
                  | (Inr _, s4) \<Rightarrow> (Inr result, s4))))))"

definition locked_check_and_record ::
  "rate_codec \<Rightarrow> io_env \<Rightarrow> rate_limiter \<Rightarrow> string \<Rightarrow> int \<Rightarrow> fs \<Rightarrow> (io_error + rate_decision) \<times> fs" where
  "locked_check_and_record codec io rl scope now s =
     with_locked_state codec io rl True (check_update (rl_max_per_hour rl) scope now) s"

definition locked_refund ::
  "rate_codec \<Rightarrow> io_env \<Rightarrow> rate_limiter \<Rightarrow> string \<Rightarrow> int \<Rightarrow> fs \<Rightarrow> (io_error + unit) \<times> fs" where
  "locked_refund codec io rl scope recorded_at s =
     with_locked_state codec io rl False (\<lambda>st. ((), refund_update scope recorded_at st)) s"

definition check_and_record ::
  "rate_codec \<Rightarrow> io_env \<Rightarrow> rate_limiter \<Rightarrow> string \<Rightarrow> int \<Rightarrow> fs \<Rightarrow> rate_decision \<times> fs" where
  "check_and_record codec io rl scope now s =
     (if rl_max_per_hour rl = 0 then (Allowed, s)
      else (case locked_check_and_record codec io rl scope now s of
          (Inr decision, s') \<Rightarrow> (decision, s')
        | (Inl _, s') \<Rightarrow> (Allowed, s')))"

definition refund :: "rate_codec \<Rightarrow> io_env \<Rightarrow> rate_limiter \<Rightarrow> string \<Rightarrow> int \<Rightarrow> fs \<Rightarrow> fs" where
  "refund codec io rl scope recorded_at s =
     (if rl_max_per_hour rl = 0 then s
      else snd (locked_refund codec io rl scope recorded_at s))"

section \<open>Lemmas on the updates\<close>

text \<open>The recorded uploads of a scope; a pod with none has no entry.\<close>

definition used :: "rate_state \<Rightarrow> string \<Rightarrow> int list" where
  "used st k = unwrap_or (rs_events st k) []"

definition no_empty :: "rate_state \<Rightarrow> bool" where
  "no_empty st \<longleftrightarrow> (\<forall>k. rs_events st k \<noteq> Some [])"

lemma used_prune: "unwrap_or (prune_events c ev k) [] = filter (\<lambda>t. c < t) (unwrap_or (ev k) [])"
  by (auto simp: prune_events_def Let_def split: option.splits)

lemma vec_len_used: "vec_len v = length (unwrap_or v [])"
  by (auto simp: vec_len_def split: option.splits)

lemma u32_saturate_ge: "m \<le> u32_saturate n \<longleftrightarrow> unat m \<le> n"
proof (cases "n < 2 ^ 32")
  case True
  then have "unat (of_nat n :: u32) = n" by (intro unat_of_nat_exact) simp
  with True show ?thesis by (simp add: u32_saturate_def word_le_nat_alt)
next
  case False
  have "unat m < 2 ^ LENGTH(32)" by (rule unsigned_less)
  with False show ?thesis by (simp add: u32_saturate_def)
qed

lemma check_update_decision:
  "fst (check_update m scope now st) = Allowed \<longleftrightarrow>
     length (filter (\<lambda>t. i64_sub now RATE_WINDOW_SECS < t) (used st scope)) < unat m"
  by (auto simp: check_update_def Let_def u32_saturate_ge vec_len_used used_prune used_def)

lemma used_check_update:
  "used (snd (check_update m scope now st)) k =
     filter (\<lambda>t. i64_sub now RATE_WINDOW_SECS < t) (used st k) @
       (if fst (check_update m scope now st) = Allowed \<and> k = scope then [now] else [])"
  by (auto simp: check_update_def Let_def used_def used_prune)

lemma used_refund_update:
  "used (refund_update scope a st) k = (if k = scope then drop_last_eq a (used st k) else used st k)"
  by (auto simp: refund_update_def used_def Let_def drop_last_eq_def split: option.splits)

lemma no_empty_check_update [wf_intros]: "no_empty (snd (check_update m scope now st))"
  by (auto simp: no_empty_def check_update_def Let_def prune_events_def split: option.splits if_splits)

lemma no_empty_refund_update [wf_intros]: "no_empty st \<Longrightarrow> no_empty (refund_update scope a st)"
  by (auto simp: no_empty_def refund_update_def Let_def split: option.splits if_splits)

lemma drop_last_eq_append: "drop_last_eq a (xs @ [a]) = xs"
  by (simp add: drop_last_eq_def rposition_append_hit remove_nth_append_last)

lemma drop_last_eq_absent: "a \<notin> set xs \<Longrightarrow> drop_last_eq a xs = xs"
proof -
  assume "a \<notin> set xs"
  then have "rposition (\<lambda>t. t = a) xs = None" by (auto simp: rposition_None)
  then show ?thesis by (simp add: drop_last_eq_def)
qed

lemma length_drop_last_filter: "length (filter P (drop_last_eq a xs)) \<le> length (filter P xs)"
proof (cases "rposition (\<lambda>t. t = a) xs")
  case (Some i)
  then have "i < length xs" using rposition_bound by blast
  with Some show ?thesis
    by (cases "P (xs ! i)") (simp_all add: drop_last_eq_def length_filter_remove_nth filter_remove_nth_other)
qed (simp add: drop_last_eq_def)

lemma rposition_filter_hit:
  "P a \<Longrightarrow> rposition (\<lambda>t. t = a) xs = None \<longleftrightarrow> rposition (\<lambda>t. t = a) (filter P xs) = None"
  by (auto simp: rposition_None)

lemma filter_drop_last: "filter P (drop_last_eq a xs) = drop_last_eq a (filter P xs)"
proof (induction xs)
  case (Cons x xs)
  show ?case
  proof (cases "rposition (\<lambda>t. t = a) xs")
    case None
    then have n: "a \<notin> set xs" by (auto simp: rposition_None)
    then have "rposition (\<lambda>t. t = a) (filter P xs) = None" by (auto simp: rposition_None)
    with None n show ?thesis by (auto simp: drop_last_eq_def)
  next
    case (Some i)
    then have a: "a \<in> set xs" using rposition_bound nth_mem by fastforce
    have hd: "drop_last_eq a (y # ys) = y # drop_last_eq a ys" if "a \<in> set ys" for y ys
      using that rposition_None [of "\<lambda>t. t = a" ys] by (auto simp: drop_last_eq_def split: option.splits)
    show ?thesis
    proof (cases "P a")
      case True
      with a Cons hd show ?thesis by auto
    next
      case False
      then have R: "drop_last_eq a (filter P zs) = filter P zs" for zs
        by (simp add: drop_last_eq_absent)
      show ?thesis
        unfolding R hd [OF a] using Cons R by simp
    qed
  qed
qed (simp add: drop_last_eq_def)

lemma refund_after_check:
  assumes "check_update m scope now st = (Allowed, st')"
  shows "refund_update scope now st' =
      st\<lparr>rs_events := prune_events (i64_sub now RATE_WINDOW_SECS) (rs_events st)\<rparr>"
proof -
  let ?ev = "prune_events (i64_sub now RATE_WINDOW_SECS) (rs_events st)"
  from assms have st': "st' = st\<lparr>rs_events := ?ev(scope \<mapsto> unwrap_or (?ev scope) [] @ [now])\<rparr>"
    by (auto simp: check_update_def Let_def split: if_splits)
  have "?ev scope \<noteq> Some []" by (auto simp: prune_events_def Let_def split: option.splits)
  then have "(if unwrap_or (?ev scope) [] = [] then None else Some (unwrap_or (?ev scope) [])) = ?ev scope"
    by (cases "?ev scope") auto
  then show ?thesis
    by (simp add: st' refund_update_def drop_last_eq_append Let_def)
qed

section \<open>Lemmas on the state file\<close>

text \<open>The state the file at the limiter's path stands for.\<close>

definition rate_abs :: "rate_codec \<Rightarrow> rate_limiter \<Rightarrow> fs \<Rightarrow> rate_state" where
  "rate_abs codec rl s =
     (case follow s (rl_state_path rl) of
        None \<Rightarrow> rate_default
      | Some fd \<Rightarrow> unwrap_or (rc_parse codec (file_content s fd)) rate_default)"

definition private_parent :: "io_env \<Rightarrow> rate_limiter \<Rightarrow> bool \<Rightarrow> fs \<Rightarrow> (io_error + unit) \<times> fs" where
  "private_parent io rl create s =
     (case path_parent (rl_state_path rl) of
        Some parent \<Rightarrow> if create then ensure_private_dir io s parent else (Inr (), s)
      | None \<Rightarrow> (Inr (), s))"

lemma private_parent_same_files: "private_parent io rl create s = (r, s1) \<Longrightarrow> same_files s s1"
  using ensure_private_dir_same_files by (auto simp: private_parent_def split: option.splits if_splits) (metis snd_conv)

text \<open>
  What a completed update of the file did: it read the content that was there, applied the
  update to the parsed state and left the printed result with mode 0600.
\<close>

lemma with_locked_state_ok:
  assumes "with_locked_state codec io rl create update s = (Inr r, s')"
  shows "\<exists>fd json. follow s (rl_state_path rl) = Some fd \<and>
    r = fst (update (unwrap_or (rc_parse codec (file_content s fd)) rate_default)) \<and>
    rc_print codec (snd (update (unwrap_or (rc_parse codec (file_content s fd)) rate_default))) = Some json \<and>
    s' fd = Some (File json mode_600) \<and>
    same_links s s' \<and>
    \<not> io_fails io OpOpen (rl_state_path rl) \<and> (\<forall>op\<in>{OpChmod, OpLock, OpRead, OpSeek, OpTruncate, OpWrite}. \<not> io_fails io op fd)"
proof -
  from assms obtain s1 fd s2 s3 where
    p: "private_parent io rl create s = (Inr (), s1)"
    and o: "open_rw io s1 create (rl_state_path rl) mode_600 = (Inr fd, s2)"
    and c: "set_permissions io s2 fd mode_600 = (Inr (), s3)"
    unfolding with_locked_state_def private_parent_def [symmetric]
    by (auto split: prod.splits sum.splits)
  note oo = open_rw_ok [OF o]
  from oo(4) obtain c0 m0 where f2: "s2 fd = Some (File c0 m0)" by blast
  note cc = fchmod_ok [OF c f2]
  have same: "same_files s s1" using private_parent_same_files [OF p] .
  have content: "file_content s3 fd = file_content s fd"
    using oo(3) same_files_content [OF same] cc(1) f2 by (simp add: file_content_def)
  have fol: "follow s (rl_state_path rl) = Some fd"
    using oo(1) same_links_follow [OF same_files_links [OF same]] by simp
  have sym: "same_links s s3"
    using oo(5) same cc(1) f2 by (auto simp: same_files_def same_links_def)
  from assms p o c have fin: "with_locked_state codec io rl create update s =
     (if io_fails io OpLock fd then (Inl (Fault OpLock), s3)
     else if io_fails io OpRead fd then (Inl (Fault OpRead), s3)
     else
       (let state = unwrap_or (rc_parse codec (file_content s3 fd)) rate_default;
            (result, state') = update state
        in case rc_print codec state' of
             None \<Rightarrow> (Inl InvalidData, s3)
           | Some json \<Rightarrow>
               if io_fails io OpSeek fd then (Inl (Fault OpSeek), s3)
               else if io_fails io OpTruncate fd then (Inl (Fault OpTruncate), s3)
               else
                 (case write_all io (set_content s3 fd []) fd json of
                    (Inl e, s4) \<Rightarrow> (Inl e, s4)
                  | (Inr _, s4) \<Rightarrow> (Inr result, s4))))"
    unfolding with_locked_state_def private_parent_def [symmetric] by simp
  with assms cc f2 oo(2) fol sym content show ?thesis
    by (auto simp: Let_def write_all_def set_content_def file_content_def same_links_def split: if_splits prod.splits option.splits)
qed

lemma rate_abs_refines:
  assumes rt: "\<And>st json. rc_print codec st = Some json \<Longrightarrow> rc_parse codec json = Some st"
    and "with_locked_state codec io rl create update s = (Inr r, s')"
  shows "update (rate_abs codec rl s) = (r, rate_abs codec rl s')"
    and "\<exists>fd json. follow s' (rl_state_path rl) = Some fd \<and> s' fd = Some (File json mode_600)"
proof -
  from with_locked_state_ok [OF assms(2)] obtain fd json where
    fd: "follow s (rl_state_path rl) = Some fd"
    and r: "r = fst (update (unwrap_or (rc_parse codec (file_content s fd)) rate_default))"
    and j: "rc_print codec (snd (update (unwrap_or (rc_parse codec (file_content s fd)) rate_default))) = Some json"
    and f: "s' fd = Some (File json mode_600)"
    and sym: "same_links s s'"
    by blast
  have fd': "follow s' (rl_state_path rl) = Some fd"
    using same_links_follow [OF sym] fd by simp
  then show "\<exists>fd json. follow s' (rl_state_path rl) = Some fd \<and> s' fd = Some (File json mode_600)"
    using f by blast
  show "update (rate_abs codec rl s) = (r, rate_abs codec rl s')"
    using fd fd' r f rt [OF j] by (simp add: rate_abs_def file_content_def)
qed

section \<open>The contract of a sliding-window budget\<close>

text \<open>
  What the caller of a limiter relies on, over any state: a check drops what has left the
  window, admits exactly when fewer than \<open>budget\<close> uploads are left, and records what it
  admits; giving a slot back removes one recorded upload.
\<close>

locale sliding_window =
  fixes check :: "'k \<Rightarrow> int \<Rightarrow> 's \<Rightarrow> rate_decision \<times> 's"
    and give_back :: "'k \<Rightarrow> int \<Rightarrow> 's \<Rightarrow> 's"
    and recorded :: "'s \<Rightarrow> 'k \<Rightarrow> int list"
    and budget :: nat and window :: int and in_range :: "int \<Rightarrow> bool"
  assumes window_pos: "0 < window"
    and check_recorded: "in_range now \<Longrightarrow>
      recorded (snd (check k now s)) k' =
        filter (\<lambda>t. now - window < t) (recorded s k')
          @ (if fst (check k now s) = Allowed \<and> k' = k then [now] else [])"
    and check_admits: "in_range now \<Longrightarrow>
      fst (check k now s) = Allowed \<longleftrightarrow>
        length (filter (\<lambda>t. now - window < t) (recorded s k)) < budget"
    and give_back_recorded:
      "recorded (give_back k a s) k' = (if k' = k then drop_last_eq a (recorded s k') else recorded s k')"
begin

text \<open>
  The full history \<open>net\<close> of admitted and not refunded uploads agrees with the recorded ones
  after a cutoff; a check and a refund keep that, although the state forgets what left the
  window.
\<close>

lemma check_agrees:
  assumes "in_range now" "\<forall>k. recorded s k = filter (\<lambda>t. c < t) (net k)" "c < now"
  shows "\<forall>k'. recorded (snd (check k now s)) k' =
    filter (\<lambda>t. max c (now - window) < t) (net k' @ (if fst (check k now s) = Allowed \<and> k' = k then [now] else []))"
proof
  fix k'
  have "filter (\<lambda>t. now - window < t) (filter (\<lambda>t. c < t) (net k')) = filter (\<lambda>t. max c (now - window) < t) (net k')"
    by (auto intro: filter_cong)
  with assms window_pos show "recorded (snd (check k now s)) k' =
    filter (\<lambda>t. max c (now - window) < t) (net k' @ (if fst (check k now s) = Allowed \<and> k' = k then [now] else []))"
    by (simp add: check_recorded)
qed

lemma check_exact:
  assumes "in_range now" "\<forall>k. recorded s k = filter (\<lambda>t. c < t) (net k)"
  shows "fst (check k now s) = Allowed \<longleftrightarrow> length (filter (\<lambda>t. max c (now - window) < t) (net k)) < budget"
proof -
  have "filter (\<lambda>t. now - window < t) (filter (\<lambda>t. c < t) (net k)) = filter (\<lambda>t. max c (now - window) < t) (net k)"
    by (auto intro: filter_cong)
  with assms show ?thesis by (simp add: check_admits)
qed

lemma give_back_agrees:
  "\<forall>k. recorded s k = filter (\<lambda>t. c < t) (net k) \<Longrightarrow>
     recorded (give_back k a s) k' = filter (\<lambda>t. c < t) ((net(k := drop_last_eq a (net k))) k')"
  by (simp add: give_back_recorded filter_drop_last)

text \<open>
  Admitting \<open>now\<close> keeps every window of the history within the budget, because every upload
  of a window that holds \<open>now\<close> is among those that the check counted.
\<close>

lemma admit_window:
  assumes "length (filter (\<lambda>x. b - len < x \<and> x \<le> b) xs) \<le> budget"
    and "length (filter (\<lambda>t. max c (now - window) < t) xs) < budget"
    and "len \<le> window" "now \<le> b \<Longrightarrow> c \<le> b - len"
  shows "length (filter (\<lambda>x. b - len < x \<and> x \<le> b) (xs @ [now])) \<le> budget"
proof (cases "b - len < now \<and> now \<le> b")
  case True
  then have "filter (\<lambda>x. b - len < x \<and> x \<le> b) xs
      = filter (\<lambda>x. b - len < x \<and> x \<le> b) (filter (\<lambda>t. max c (now - window) < t) xs)"
    using assms(3,4) by (auto intro: filter_cong)
  then have "length (filter (\<lambda>x. b - len < x \<and> x \<le> b) xs) \<le> length (filter (\<lambda>t. max c (now - window) < t) xs)"
    by (metis length_filter_le)
  with True assms(2) show ?thesis by simp
qed (use assms(1) in auto)

end

definition rate_time_ok :: "int \<Rightarrow> bool" where
  "rate_time_ok now \<longleftrightarrow> in_i64 (now - RATE_WINDOW_SECS)"

interpretation budget: sliding_window
  "check_update m" refund_update used "unat m" RATE_WINDOW_SECS rate_time_ok for m
proof
  show "0 < RATE_WINDOW_SECS" by (simp add: RATE_WINDOW_SECS_def)
qed (simp_all add: rate_time_ok_def i64_sub_exact used_check_update check_update_decision used_refund_update)

section \<open>Runs of the limiter\<close>

text \<open>
  Any sequence of checks and refunds from an empty state, and beside the state the full history
  of uploads admitted and not refunded, and the latest crash time of a check. Handlers that
  crash together reach the limiter in any order: \<open>slack\<close> bounds by how many seconds a check may
  lie behind the latest one. A refund names any scope and time, whether recorded or not.
\<close>

inductive limiter_run :: "u32 \<Rightarrow> int \<Rightarrow> rate_state \<Rightarrow> (string \<Rightarrow> int list) \<Rightarrow> int \<Rightarrow> bool" for m slack where
  start: "limiter_run m slack rate_default (\<lambda>_. []) t"
| check: "limiter_run m slack st net t \<Longrightarrow> t - slack \<le> now \<Longrightarrow> rate_time_ok now \<Longrightarrow>
    check_update m scope now st = (d, st') \<Longrightarrow>
    limiter_run m slack st' (\<lambda>k. net k @ (if d = Allowed \<and> k = scope then [now] else [])) (max t now)"
| refund: "limiter_run m slack st net t \<Longrightarrow>
    limiter_run m slack (refund_update scope a st) (net(scope := drop_last_eq a (net scope))) t"

lemma limiter_run_agrees:
  "limiter_run m slack st net t \<Longrightarrow> slack < RATE_WINDOW_SECS \<Longrightarrow>
    \<forall>k. used st k = filter (\<lambda>x. t - RATE_WINDOW_SECS < x) (net k)"
proof (induction rule: limiter_run.induct)
  case (start t)
  then show ?case by (simp add: used_def rate_default_def)
next
  case (check st net t now scope d st')
  have "max (t - RATE_WINDOW_SECS) (now - RATE_WINDOW_SECS) = max t now - RATE_WINDOW_SECS" by simp
  with budget.check_agrees [OF check.hyps(3) check.IH [OF check.prems], of m scope] check.hyps(2,4) check.prems
  show ?case by simp
next
  case (refund st net t scope a)
  then show ?case using budget.give_back_agrees by blast
qed

lemma limiter_run_bound:
  "limiter_run m slack st net t \<Longrightarrow> 0 \<le> slack \<Longrightarrow> slack < RATE_WINDOW_SECS \<Longrightarrow>
     length (filter (\<lambda>x. b - (RATE_WINDOW_SECS - slack) < x \<and> x \<le> b) (net k)) \<le> unat m"
proof (induction rule: limiter_run.induct)
  case (check st net t now scope d st')
  show ?case
  proof (cases "d = Allowed \<and> k = scope")
    case True
    from budget.check_exact [OF check.hyps(3) limiter_run_agrees [OF check.hyps(1) check.prems(2)], of m scope] True check.hyps(4)
    have "length (filter (\<lambda>x. max (t - RATE_WINDOW_SECS) (now - RATE_WINDOW_SECS) < x) (net k)) < unat m" by simp
    with budget.admit_window [OF check.IH [OF check.prems] this] check.hyps(2) check.prems True show ?thesis by simp
  qed (use check.IH [OF check.prems] in auto)
next
  case (refund st net t scope a)
  then show ?case
    using length_drop_last_filter order_trans by (auto) blast
qed simp

text \<open>Evaluation of the file calls on a state file directly below the root.\<close>

lemma rate_file_example_paths:
  "path_parent ''/r'' = Some ''/''" "path_ancestors ''/'' = [''/'']"
  by code_simp+

lemma rate_file_example_follow:
  "s ''/r'' = Some (File c m) \<Longrightarrow> follow s ''/r'' = Some ''/r''"
  "s ''/r'' = None \<Longrightarrow> follow s ''/r'' = Some ''/r''"
  "s ''/'' = Some (Dir m) \<Longrightarrow> follow s ''/'' = Some ''/''"
  "s ''/'' = Some (Dir m) \<Longrightarrow> is_dir s ''/''"
  "s ''/'' = Some (Dir m) \<Longrightarrow> parent_is_dir s ''/r''"
  by (auto simp: follow_plain is_dir_def node_at_plain parent_is_dir_def rate_file_example_paths)

lemmas rate_file_example_simps = rate_file_example_paths rate_file_example_follow
  ensure_private_dir_def create_dir_all_def file_content_def set_content_def

section \<open>Properties\<close>

text \<open>
  The limiter decides from its pruned state exactly as it would from the whole history:
  after any run of checks and refunds, a crash at \<open>now\<close> that is not behind the latest check is
  admitted if and only if fewer than \<open>max_per_hour\<close> admitted and not refunded uploads of this pod
  lie in the hour before it. A crash-looping pod therefore keeps getting its budget in every window.
\<close>

theorem limiter_decision_exact:
  assumes "limiter_run m slack st net t" "slack < RATE_WINDOW_SECS" "t \<le> now" "rate_time_ok now"
  shows "fst (check_update m scope now st) = Allowed \<longleftrightarrow>
    length (filter (\<lambda>x. now - RATE_WINDOW_SECS < x) (net scope)) < unat m"
proof -
  have "max (t - RATE_WINDOW_SECS) (now - RATE_WINDOW_SECS) = now - RATE_WINDOW_SECS" using assms(3) by simp
  then show ?thesis using budget.check_exact [OF assms(4) limiter_run_agrees [OF assms(1,2)], of m scope] by simp
qed

lemma example_limiter_run:
  "limiter_run 1 0 (snd (check_update 1 ''a'' 1000 rate_default)) (\<lambda>k. [] @ (if k = ''a'' then [1000] else [])) 1000"
proof -
  have ok: "rate_time_ok 1000" by code_simp
  have d: "fst (check_update 1 ''a'' 1000 rate_default) = Allowed"
    by (simp add: check_update_decision used_def rate_default_def)
  show ?thesis
    using limiter_run.check [OF limiter_run.start [of 1 0 1000] _ ok, of "''a''" Allowed "snd (check_update 1 ''a'' 1000 rate_default)"] d
    by (simp add: prod_eq_iff)
qed

theorem limiter_decision_exact_witness:
  "fst (check_update 1 ''a'' 4601 (snd (check_update 1 ''a'' 1000 rate_default))) = Allowed"
proof -
  have "rate_time_ok 4601" by code_simp
  from limiter_decision_exact [OF example_limiter_run _ _ this, of "''a''"] show ?thesis by (simp add: RATE_WINDOW_SECS_def)
qed



text \<open>
  The order matters: a check prunes for every later one, so a handler that comes to the limiter
  after one with a later crash time does not see what that one has dropped, and more than the
  budget is admitted within an hour. Here, with a budget of 2, three of the admitted uploads lie
  in the hour that ends at 4599.
\<close>

theorem late_check_exceeds_budget:
  "fst (run_steps (check_update 2 ''a'') [1000, 1000, 4601, 4599] rate_default) = [Allowed, Allowed, Allowed, Allowed] \<and>
   length (filter (\<lambda>t. 4599 - RATE_WINDOW_SECS < t \<and> t \<le> 4599) [1000, 1000, 4601, 4599]) = 3"
proof -
  let ?c = "\<lambda>now st. snd (check_update 2 ''a'' now st)"
  have cut: "i64_sub 1000 RATE_WINDOW_SECS = - 2600" "i64_sub 4601 RATE_WINDOW_SECS = 1001" "i64_sub 4599 RATE_WINDOW_SECS = 999"
    by (simp_all add: i64_sub_def wrap_i64_def RATE_WINDOW_SECS_def)
  have u0: "used rate_default ''a'' = []" by (simp add: used_def rate_default_def)
  have d1: "fst (check_update 2 ''a'' 1000 rate_default) = Allowed" by (simp add: check_update_decision u0)
  have u1: "used (?c 1000 rate_default) ''a'' = [1000]" by (subst used_check_update) (simp add: d1 u0)
  have d2: "fst (check_update 2 ''a'' 1000 (?c 1000 rate_default)) = Allowed" by (simp add: check_update_decision u1 cut)
  have u2: "used (?c 1000 (?c 1000 rate_default)) ''a'' = [1000, 1000]" by (subst used_check_update) (simp add: d2 u1 cut)
  have d3: "fst (check_update 2 ''a'' 4601 (?c 1000 (?c 1000 rate_default))) = Allowed" by (simp add: check_update_decision u2 cut)
  have u3: "used (?c 4601 (?c 1000 (?c 1000 rate_default))) ''a'' = [4601]" by (subst used_check_update) (simp add: d3 u2 cut)
  have d4: "fst (check_update 2 ''a'' 4599 (?c 4601 (?c 1000 (?c 1000 rate_default)))) = Allowed"
    by (simp add: check_update_decision u3 cut)
  show ?thesis using d1 d2 d3 d4 by (simp add: RATE_WINDOW_SECS_def case_prod_beta Let_def)
qed

text \<open>
  A refund gives back exactly the slot its check took: after an admitted check, refunding
  the same pod and time leaves the state as the check found it, except that what had left
  the window is gone; every other pod's record is untouched by both.
\<close>

theorem refund_undoes_check:
  assumes "check_update m scope now st = (Allowed, st')"
  shows "refund_update scope now st' =
      st\<lparr>rs_events := prune_events (i64_sub now RATE_WINDOW_SECS) (rs_events st)\<rparr> \<and>
    used (refund_update scope now st') k = filter (\<lambda>t. i64_sub now RATE_WINDOW_SECS < t) (used st k)"
  using refund_after_check [OF assms] by (simp add: used_def used_prune)

theorem refund_undoes_check_witness:
  "rs_events (refund_update ''a'' 5000
      (snd (check_update 2 ''a'' 5000 \<lparr>rs_events = [''a'' \<mapsto> [1, 4000], ''b'' \<mapsto> [7]]\<rparr>))) ''a'' = Some [4000]"
proof -
  have "check_update 2 ''a'' 5000 \<lparr>rs_events = [''a'' \<mapsto> [1, 4000], ''b'' \<mapsto> [7]]\<rparr> =
      (Allowed, snd (check_update 2 ''a'' 5000 \<lparr>rs_events = [''a'' \<mapsto> [1, 4000], ''b'' \<mapsto> [7]]\<rparr>))"
    by (simp add: check_update_def u32_saturate_def vec_len_def prune_events_def i64_sub_def wrap_i64_def
        RATE_WINDOW_SECS_def Let_def word_le_nat_alt)
  from refund_undoes_check [OF this, of "''a''"] show ?thesis
    by (simp add: prune_events_def i64_sub_def wrap_i64_def RATE_WINDOW_SECS_def)
qed

text \<open>
  C22. The limiter fails open: whatever I/O errors strike and whatever the state file holds, a
  core is suppressed only when the file was read without an error and its content already
  records at least \<open>max_per_hour\<close> uploads of this pod within the window (so an unreadable,
  missing or corrupt state file never suppresses one), and never with an unlimited budget.
\<close>

theorem suppressed_only_when_recorded:
  assumes "check_and_record codec io rl scope now s = (Suppressed r, s')"
  shows "rl_max_per_hour rl \<noteq> 0 \<and>
    (\<exists>fd st. follow s (rl_state_path rl) = Some fd \<and> rc_parse codec (file_content s fd) = Some st \<and>
      unat (rl_max_per_hour rl) \<le> length (filter (\<lambda>t. i64_sub now RATE_WINDOW_SECS < t) (used st scope)) \<and>
      \<not> io_fails io OpOpen (rl_state_path rl) \<and>
      (\<forall>op\<in>{OpChmod, OpLock, OpRead, OpSeek, OpTruncate, OpWrite}. \<not> io_fails io op fd))"
proof -
  let ?m = "rl_max_per_hour rl"
  from assms have m: "?m \<noteq> 0" and
    w: "with_locked_state codec io rl True (check_update ?m scope now) s = (Inr (Suppressed r), s')"
    by (auto simp: check_and_record_def locked_check_and_record_def split: if_splits prod.splits sum.splits)
  from with_locked_state_ok [OF w] obtain fd where
    fd: "follow s (rl_state_path rl) = Some fd" "\<not> io_fails io OpOpen (rl_state_path rl)"
      "\<forall>op\<in>{OpChmod, OpLock, OpRead, OpSeek, OpTruncate, OpWrite}. \<not> io_fails io op fd"
    and d: "Suppressed r = fst (check_update ?m scope now (unwrap_or (rc_parse codec (file_content s fd)) rate_default))"
    by blast
  from d have ge: "unat ?m \<le> length (filter (\<lambda>t. i64_sub now RATE_WINDOW_SECS < t)
      (used (unwrap_or (rc_parse codec (file_content s fd)) rate_default) scope))"
    by (metis check_update_decision not_le_imp_less rate_decision.distinct(1))
  have "rc_parse codec (file_content s fd) \<noteq> None"
  proof
    assume "rc_parse codec (file_content s fd) = None"
    with ge m show False by (simp add: used_def rate_default_def unat_eq_0)
  qed
  with m fd ge show ?thesis by auto
qed

theorem suppressed_only_when_recorded_witness:
  "unat (1 :: u32) \<le> length (filter (\<lambda>t. i64_sub 1001 RATE_WINDOW_SECS < t) [1000])"
proof -
  let ?st = "\<lparr>rs_events = [''a'' \<mapsto> [1000]]\<rparr>"
  let ?codec = "\<lparr>rc_parse = (\<lambda>b. if b = ''J'' then Some ?st else None), rc_print = (\<lambda>_. Some ''J'')\<rparr>"
  let ?rl = "\<lparr>rl_state_path = ''/r'', rl_max_per_hour = 1\<rparr>"
  let ?s = "[''/'' \<mapsto> Dir mode_755, ''/r'' \<mapsto> File ''J'' mode_644] :: fs"
  have d: "fst (check_update 1 ''a'' 1001 ?st) = Suppressed 1"
    by (simp add: check_update_def u32_saturate_def vec_len_def prune_events_def i64_sub_def wrap_i64_def
        RATE_WINDOW_SECS_def Let_def)
  have "fst (check_and_record ?codec no_faults ?rl ''a'' 1001 ?s) = Suppressed 1"
    by (simp add: check_and_record_def locked_check_and_record_def with_locked_state_def fs_call_defs
        rate_file_example_simps d Let_def split: prod.split) (use d in auto)
  then obtain s' where "check_and_record ?codec no_faults ?rl ''a'' 1001 ?s = (Suppressed 1, s')"
    by (metis prod.collapse)
  from suppressed_only_when_recorded [OF this] show ?thesis
    by (auto simp: rate_file_example_simps used_def)
qed

text \<open>
  The state file refines the in-memory limiter: when the locked update of the file completes,
  the decision and the state the file then stands for are those of the pure update applied
  to the state it stood for before, and the file's mode is 0600. The printer and parser of
  \<open>serde_json\<close> are only assumed to be inverse.
\<close>

theorem rate_file_refines_update:
  assumes "\<And>st json. rc_print codec st = Some json \<Longrightarrow> rc_parse codec json = Some st"
    and "locked_check_and_record codec io rl scope now s = (Inr d, s')"
  shows "check_update (rl_max_per_hour rl) scope now (rate_abs codec rl s) = (d, rate_abs codec rl s') \<and>
    (\<exists>fd json. follow s' (rl_state_path rl) = Some fd \<and> s' fd = Some (File json mode_600))"
proof -
  from assms(2) have w: "with_locked_state codec io rl True (check_update (rl_max_per_hour rl) scope now) s = (Inr d, s')"
    by (simp add: locked_check_and_record_def)
  show ?thesis
    using rate_abs_refines [where codec = codec, OF assms(1) w] by blast
qed

theorem rate_file_refines_update_witness:
  "\<exists>s'. check_update 1 ''a'' 1000 rate_default = (Allowed, s')"
proof -
  let ?st = "snd (check_update 1 ''a'' 1000 rate_default)"
  let ?codec = "\<lparr>rc_parse = (\<lambda>b. if b = ''J'' then Some ?st else None),
      rc_print = (\<lambda>st. if st = ?st then Some ''J'' else None)\<rparr>"
  let ?rl = "\<lparr>rl_state_path = ''/r'', rl_max_per_hour = 1\<rparr>"
  let ?s = "[''/'' \<mapsto> Dir mode_755] :: fs"
  have rt: "rc_print ?codec st = Some json \<Longrightarrow> rc_parse ?codec json = Some st" for st json
    by (simp split: if_splits)
  have d: "fst (check_update 1 ''a'' 1000 rate_default) = Allowed"
    by (simp add: check_update_decision used_def rate_default_def)
  have "fst (locked_check_and_record ?codec no_faults ?rl ''a'' 1000 ?s) = Inr Allowed"
    by (simp add: locked_check_and_record_def with_locked_state_def fs_call_defs
        rate_file_example_simps d Let_def split: prod.split) (use d in auto)
  then obtain s' where "locked_check_and_record ?codec no_faults ?rl ''a'' 1000 ?s = (Inr Allowed, s')"
    by (metis prod.collapse)
  from rate_file_refines_update [OF rt this] show ?thesis
    by (auto simp: rate_abs_def rate_file_example_simps)
qed

end
