(* ===== verification/Rate_Limit_Conc.thy ===== *)
theory Rate_Limit_Conc
  imports Rate_Limit
begin

text \<open>
  Concurrent handlers on one state file (\<open>src/ratelimit.rs\<close>, \<open>check_and_record\<close> and \<open>refund\<close> down to
  the body of \<open>with_locked_state\<close>). Every system call of the body is one step of one handler, each
  may fail where the source has a \<open>?\<close>, and the steps of the \<open>n\<close> handlers of a crash storm interleave
  arbitrarily; the file is empty between the truncation and the write, and the write itself is
  split into chunks. A handler whose lock is held by another one waits. The inode is never
  replaced, so all handlers lock and rewrite the same bytes. A ghost list records in which order
  the handlers took the lock; it guards nothing.
\<close>

section \<open>Handlers and steps\<close>

datatype rate_job = Check string int | Refund string int

text \<open>What a job does to the state: nothing without a budget, and a refund decides nothing.\<close>

definition job_update :: "u32 \<Rightarrow> rate_job \<Rightarrow> rate_state \<Rightarrow> rate_decision option \<times> rate_state" where
  "job_update m job st =
     (case job of
        Check scope now \<Rightarrow>
          if m = 0 then (Some Allowed, st) else (let (d, st') = check_update m scope now st in (Some d, st'))
      | Refund scope a \<Rightarrow> (None, if m = 0 then st else refund_update scope a st))"

text \<open>
  Where a handler stands: it has called the limiter, has the file open, holds the lock, has read
  the file, has written the first \<open>k\<close> bytes of the new content, or has returned.
\<close>

datatype handler_pc =
  Called
| Opened
| HasLock
| HasRead bytes
| Writing "rate_decision option" bytes nat
| Finished "io_error + rate_decision option"

record storm =
  st_file :: bytes
  st_lock :: "nat option"
  st_pc :: "nat \<Rightarrow> handler_pc"
  st_order :: "nat list"

definition storm_init :: "bytes \<Rightarrow> storm" where
  "storm_init f0 = \<lparr>st_file = f0, st_lock = None, st_pc = (\<lambda>_. Called), st_order = []\<rparr>"

definition parse_or_default :: "rate_codec \<Rightarrow> bytes \<Rightarrow> rate_state" where
  "parse_or_default codec b = unwrap_or (rc_parse codec b) rate_default"

text \<open>How much of the content \<open>write_all\<close> gets into the file before it ends or fails.\<close>

definition written :: "io_env \<Rightarrow> path \<Rightarrow> bytes \<Rightarrow> bytes" where
  "written io fd json = (if io_fails io OpWrite fd then take (io_partial io fd) json else json)"

text \<open>The end of a handler; when it held the lock, closing the file releases it.\<close>

definition leave :: "nat \<Rightarrow> io_error + rate_decision option \<Rightarrow> storm \<Rightarrow> storm" where
  "leave h r s = s\<lparr>st_lock := (if st_lock s = Some h then None else st_lock s), st_pc := (st_pc s)(h := Finished r)\<rparr>"

text \<open>
  The steps of handler \<open>h\<close>, with the failures \<open>io h\<close>, on the file \<open>fd\<close>. Creating the directory,
  opening and changing the mode may fail with any error; they leave the content alone.
\<close>

inductive storm_step ::
  "rate_codec \<Rightarrow> u32 \<Rightarrow> (nat \<Rightarrow> rate_job) \<Rightarrow> (nat \<Rightarrow> io_env) \<Rightarrow> path \<Rightarrow> nat \<Rightarrow> storm \<Rightarrow> storm \<Rightarrow> bool"
  for codec m job io fd n where
  unlimited: "h < n \<Longrightarrow> st_pc s h = Called \<Longrightarrow> m = 0 \<Longrightarrow>
    storm_step codec m job io fd n s (leave h (Inr (fst (job_update m (job h) rate_default))) s)"
| unopened: "h < n \<Longrightarrow> st_pc s h = Called \<Longrightarrow> m \<noteq> 0 \<Longrightarrow>
    storm_step codec m job io fd n s (leave h (Inl e) s)"
| opened: "h < n \<Longrightarrow> st_pc s h = Called \<Longrightarrow> m \<noteq> 0 \<Longrightarrow>
    storm_step codec m job io fd n s (s\<lparr>st_pc := (st_pc s)(h := Opened)\<rparr>)"
| lock_fails: "h < n \<Longrightarrow> st_pc s h = Opened \<Longrightarrow> io_fails (io h) OpLock fd \<Longrightarrow>
    storm_step codec m job io fd n s (leave h (Inl (Fault OpLock)) s)"
| lock: "h < n \<Longrightarrow> st_pc s h = Opened \<Longrightarrow> \<not> io_fails (io h) OpLock fd \<Longrightarrow> st_lock s = None \<Longrightarrow>
    storm_step codec m job io fd n s
      (s\<lparr>st_lock := Some h, st_pc := (st_pc s)(h := HasLock), st_order := st_order s @ [h]\<rparr>)"
| read_fails: "h < n \<Longrightarrow> st_pc s h = HasLock \<Longrightarrow> io_fails (io h) OpRead fd \<Longrightarrow>
    storm_step codec m job io fd n s (leave h (Inl (Fault OpRead)) s)"
| read: "h < n \<Longrightarrow> st_pc s h = HasLock \<Longrightarrow> \<not> io_fails (io h) OpRead fd \<Longrightarrow>
    storm_step codec m job io fd n s (s\<lparr>st_pc := (st_pc s)(h := HasRead (st_file s))\<rparr>)"
| print_fails: "h < n \<Longrightarrow> st_pc s h = HasRead b \<Longrightarrow>
    rc_print codec (snd (job_update m (job h) (parse_or_default codec b))) = None \<Longrightarrow>
    storm_step codec m job io fd n s (leave h (Inl InvalidData) s)"
| seek_fails: "h < n \<Longrightarrow> st_pc s h = HasRead b \<Longrightarrow>
    rc_print codec (snd (job_update m (job h) (parse_or_default codec b))) = Some json \<Longrightarrow> io_fails (io h) OpSeek fd \<Longrightarrow>
    storm_step codec m job io fd n s (leave h (Inl (Fault OpSeek)) s)"
| truncate_fails: "h < n \<Longrightarrow> st_pc s h = HasRead b \<Longrightarrow>
    rc_print codec (snd (job_update m (job h) (parse_or_default codec b))) = Some json \<Longrightarrow> \<not> io_fails (io h) OpSeek fd \<Longrightarrow>
    io_fails (io h) OpTruncate fd \<Longrightarrow>
    storm_step codec m job io fd n s (leave h (Inl (Fault OpTruncate)) s)"
| truncate: "h < n \<Longrightarrow> st_pc s h = HasRead b \<Longrightarrow>
    rc_print codec (snd (job_update m (job h) (parse_or_default codec b))) = Some json \<Longrightarrow> \<not> io_fails (io h) OpSeek fd \<Longrightarrow>
    \<not> io_fails (io h) OpTruncate fd \<Longrightarrow>
    storm_step codec m job io fd n s
      (s\<lparr>st_file := [], st_pc := (st_pc s)(h := Writing (fst (job_update m (job h) (parse_or_default codec b))) json 0)\<rparr>)"
| write_chunk: "h < n \<Longrightarrow> st_pc s h = Writing d json k \<Longrightarrow> k < k' \<Longrightarrow> k' \<le> length (written (io h) fd json) \<Longrightarrow>
    storm_step codec m job io fd n s
      (s\<lparr>st_file := st_file s @ take (k' - k) (drop k json), st_pc := (st_pc s)(h := Writing d json k')\<rparr>)"
| write_fails: "h < n \<Longrightarrow> st_pc s h = Writing d json k \<Longrightarrow> k = length (written (io h) fd json) \<Longrightarrow> io_fails (io h) OpWrite fd \<Longrightarrow>
    storm_step codec m job io fd n s (leave h (Inl (Fault OpWrite)) s)"
| close: "h < n \<Longrightarrow> st_pc s h = Writing d json k \<Longrightarrow> k = length json \<Longrightarrow> \<not> io_fails (io h) OpWrite fd \<Longrightarrow>
    storm_step codec m job io fd n s (leave h (Inr d) s)"

inductive storm_reach ::
  "rate_codec \<Rightarrow> u32 \<Rightarrow> (nat \<Rightarrow> rate_job) \<Rightarrow> (nat \<Rightarrow> io_env) \<Rightarrow> path \<Rightarrow> nat \<Rightarrow> bytes \<Rightarrow> storm \<Rightarrow> bool"
  for codec m job io fd n f0 where
  init: "storm_reach codec m job io fd n f0 (storm_init f0)"
| step: "storm_reach codec m job io fd n f0 s \<Longrightarrow> storm_step codec m job io fd n s s' \<Longrightarrow>
    storm_reach codec m job io fd n f0 s'"

lemma storm_reach_steps:
  assumes "(storm_step codec m job io fd n)\<^sup>*\<^sup>* s s'" "storm_reach codec m job io fd n f0 s"
  shows "storm_reach codec m job io fd n f0 s'"
  using assms by (induction rule: rtranclp_induct) (auto intro: storm_reach.step)

section \<open>The sequential specification\<close>

text \<open>The whole body of \<open>with_locked_state\<close> after the lock was granted, as one step on the content.\<close>

definition locked_section ::
  "rate_codec \<Rightarrow> io_env \<Rightarrow> path \<Rightarrow> (rate_state \<Rightarrow> 'r \<times> rate_state) \<Rightarrow> bytes \<Rightarrow> (io_error + 'r) \<times> bytes" where
  "locked_section codec io fd update b =
     (if io_fails io OpRead fd then (Inl (Fault OpRead), b)
      else (case rc_print codec (snd (update (parse_or_default codec b))) of
          None \<Rightarrow> (Inl InvalidData, b)
        | Some json \<Rightarrow>
            if io_fails io OpSeek fd then (Inl (Fault OpSeek), b)
            else if io_fails io OpTruncate fd then (Inl (Fault OpTruncate), b)
            else (if io_fails io OpWrite fd then Inl (Fault OpWrite) else Inr (fst (update (parse_or_default codec b))),
                  written io fd json)))"

text \<open>It is what \<open>with_locked_state\<close> does to the file once it is open and locked.\<close>

lemma with_locked_state_section:
  assumes "private_parent io rl create s = (Inr (), s1)" "open_rw io s1 create (rl_state_path rl) mode_600 = (Inr fd, s2)"
    and "set_permissions io s2 fd mode_600 = (Inr (), s3)" "s3 fd = Some (File b md)" "\<not> io_fails io OpLock fd"
  shows "with_locked_state codec io rl create update s =
    (fst (locked_section codec io fd update b), s3(fd \<mapsto> File (snd (locked_section codec io fd update b)) md))"
proof -
  have same: "s3(fd \<mapsto> File b md) = s3" using assms(4) by (auto simp: fun_eq_iff)
  show ?thesis
    unfolding with_locked_state_def private_parent_def [symmetric] assms(1)
    using assms(2-5) same
    by (simp add: locked_section_def parse_or_default_def file_content_def set_content_def write_all_def written_def Let_def
        split: prod.split option.split)
qed

text \<open>The sections of the handlers one after the other, in a given order.\<close>

fun section_run ::
  "rate_codec \<Rightarrow> u32 \<Rightarrow> (nat \<Rightarrow> rate_job) \<Rightarrow> (nat \<Rightarrow> io_env) \<Rightarrow> path \<Rightarrow> nat list \<Rightarrow> bytes
     \<Rightarrow> (nat \<times> (io_error + rate_decision option)) list \<times> bytes" where
  "section_run codec m job io fd [] b = ([], b)"
| "section_run codec m job io fd (h # hs) b =
     (let (r, b1) = locked_section codec (io h) fd (job_update m (job h)) b;
          (rs, b2) = section_run codec m job io fd hs b1
      in ((h, r) # rs, b2))"

lemma section_run_snoc:
  "section_run codec m job io fd (hs @ [h]) b =
     (let (rs, b1) = section_run codec m job io fd hs b;
          (r, b2) = locked_section codec (io h) fd (job_update m (job h)) b1
      in (rs @ [(h, r)], b2))"
  by (induction hs arbitrary: b) (auto simp: Let_def split: prod.splits)

lemma section_run_order: "map fst (fst (section_run codec m job io fd hs b)) = hs"
  by (induction hs arbitrary: b) (auto simp: Let_def split: prod.splits, metis fst_conv)

text \<open>The same without files and failures: the updates of the state.\<close>

abbreviation seq_run :: "u32 \<Rightarrow> (nat \<Rightarrow> rate_job) \<Rightarrow> nat list \<Rightarrow> rate_state \<Rightarrow> rate_decision option list \<times> rate_state" where
  "seq_run m job \<equiv> run_steps (\<lambda>h. job_update m (job h))"

text \<open>An update keeps the number of pods finite.\<close>

lemma finite_job_update: "finite (dom (rs_events st)) \<Longrightarrow> finite (dom (rs_events (snd (job_update m j st))))"
proof -
  assume f: "finite (dom (rs_events st))"
  have "dom (prune_events c (rs_events st)) \<subseteq> dom (rs_events st)" for c
    by (auto simp: prune_events_def split: option.splits)
  then have p: "finite (dom (prune_events c (rs_events st)))" for c using f finite_subset by blast
  show ?thesis
  proof (cases j)
    case (Check scope now)
    with p f show ?thesis by (auto simp: job_update_def check_update_def Let_def split: prod.splits)
  next
    case (Refund scope a)
    with f show ?thesis by (auto simp: job_update_def refund_update_def Let_def split: option.splits)
  qed
qed

section \<open>The invariant\<close>

fun in_section :: "handler_pc \<Rightarrow> bool" where
  "in_section HasLock = True"
| "in_section (HasRead _) = True"
| "in_section (Writing _ _ _) = True"
| "in_section _ = False"

text \<open>
  What the holder of the lock has done of its section, started on the content \<open>b\<close>: the file is
  still \<open>b\<close>, or it is the part of the new content that has been written.
\<close>

definition section_at ::
  "rate_codec \<Rightarrow> u32 \<Rightarrow> rate_job \<Rightarrow> io_env \<Rightarrow> path \<Rightarrow> bytes \<Rightarrow> bytes \<Rightarrow> handler_pc \<Rightarrow> bool" where
  "section_at codec m j io fd b file pc =
     (case pc of
        HasLock \<Rightarrow> file = b
      | HasRead b' \<Rightarrow> b' = b \<and> file = b \<and> \<not> io_fails io OpRead fd
      | Writing d json k \<Rightarrow>
          d = fst (job_update m j (parse_or_default codec b)) \<and>
          rc_print codec (snd (job_update m j (parse_or_default codec b))) = Some json \<and>
          file = take k json \<and> k \<le> length (written io fd json) \<and>
          \<not> io_fails io OpRead fd \<and> \<not> io_fails io OpSeek fd \<and> \<not> io_fails io OpTruncate fd
      | _ \<Rightarrow> False)"

text \<open>
  A handler is inside the critical section exactly when it holds the lock. The handlers in the
  order of the lock, without the holder, have the results of the sections run in that order, and
  the content that these sections leave is what the holder started on, or what the file holds.
\<close>

definition completed :: "storm \<Rightarrow> nat list" where
  "completed s = (if st_lock s = None then st_order s else butlast (st_order s))"

definition storm_inv where
  "storm_inv codec m job io fd f0 s \<longleftrightarrow>
     (\<forall>h. in_section (st_pc s h) \<longleftrightarrow> st_lock s = Some h) \<and> distinct (st_order s) \<and>
     (\<forall>h\<in>set (st_order s). st_pc s h \<noteq> Called \<and> st_pc s h \<noteq> Opened) \<and>
     (\<forall>h r. st_pc s h = Finished (Inr r) \<and> m \<noteq> 0 \<longrightarrow> h \<in> set (st_order s)) \<and>
     (\<forall>(h, r)\<in>set (fst (section_run codec m job io fd (completed s) f0)). st_pc s h = Finished r) \<and>
     (case st_lock s of
        None \<Rightarrow> st_file s = snd (section_run codec m job io fd (completed s) f0)
      | Some h \<Rightarrow> st_order s = completed s @ [h] \<and>
          section_at codec m (job h) (io h) fd (snd (section_run codec m job io fd (completed s) f0)) (st_file s) (st_pc s h))"

lemma storm_inv_init: "storm_inv codec m job io fd f0 (storm_init f0)"
  by (simp add: storm_inv_def storm_init_def completed_def)

text \<open>What the invariant says of the holder of the lock.\<close>

lemma storm_inv_holder:
  assumes "storm_inv codec m job io fd f0 s" "in_section (st_pc s h)"
  shows "st_lock s = Some h" "st_order s = completed s @ [h]"
    "section_at codec m (job h) (io h) fd (snd (section_run codec m job io fd (completed s) f0)) (st_file s) (st_pc s h)"
proof -
  show l: "st_lock s = Some h" using assms by (simp add: storm_inv_def)
  with assms(1) show "st_order s = completed s @ [h]"
    "section_at codec m (job h) (io h) fd (snd (section_run codec m job io fd (completed s) f0)) (st_file s) (st_pc s h)"
    unfolding storm_inv_def by simp_all
qed

lemma storm_inv_runs:
  assumes "storm_inv codec m job io fd f0 s" "(h, r) \<in> set (fst (section_run codec m job io fd (completed s) f0))"
  shows "st_pc s h = Finished r"
  using assms unfolding storm_inv_def by blast

text \<open>A handler that is not at its section moves without touching anything else.\<close>

lemma storm_inv_outside:
  assumes "storm_inv codec m job io fd f0 s" "st_pc s h = Called \<or> st_pc s h = Opened"
    and "pc = Opened \<or> (\<exists>e. pc = Finished (Inl e)) \<or> (\<exists>d. pc = Finished (Inr d)) \<and> m = 0"
    and "s' = s\<lparr>st_pc := (st_pc s)(h := pc)\<rparr>"
  shows "storm_inv codec m job io fd f0 s'"
proof -
  have "\<not> in_section (st_pc s h)" using assms(2) by auto
  then have l: "st_lock s \<noteq> Some h" using assms(1) by (simp add: storm_inv_def)
  have o: "h \<notin> set (st_order s)" using assms(1,2) unfolding storm_inv_def by blast
  have pc: "\<not> in_section pc" using assms(3) by auto
  have c: "completed s' = completed s" by (simp add: assms(4) completed_def)
  have "st_pc s' k = Finished r" if "(k, r) \<in> set (fst (section_run codec m job io fd (completed s) f0))" for k r
    using storm_inv_runs [OF assms(1) that] assms(2,4) by auto
  then have runs: "\<forall>(k, r)\<in>set (fst (section_run codec m job io fd (completed s) f0)). st_pc s' k = Finished r" by blast
  have fin: "\<forall>k r. st_pc s' k = Finished (Inr r) \<and> m \<noteq> 0 \<longrightarrow> k \<in> set (st_order s')"
    using assms(1,3,4) unfolding storm_inv_def by auto
  have started: "\<forall>k\<in>set (st_order s'). st_pc s' k \<noteq> Called \<and> st_pc s' k \<noteq> Opened"
    using assms(1,4) o unfolding storm_inv_def by auto
  have sec: "\<forall>k. in_section (st_pc s' k) \<longleftrightarrow> st_lock s' = Some k"
    using assms(1,4) pc l unfolding storm_inv_def by auto
  show ?thesis
    using assms(1) sec started fin runs l unfolding storm_inv_def c by (auto simp: assms(4) split: option.splits)
qed

text \<open>The holder of the lock goes on in its section.\<close>

lemma storm_inv_inside:
  assumes "storm_inv codec m job io fd f0 s" "in_section (st_pc s h)" "in_section pc"
    and "section_at codec m (job h) (io h) fd (snd (section_run codec m job io fd (completed s) f0)) f pc"
    and "s' = s\<lparr>st_file := f, st_pc := (st_pc s)(h := pc)\<rparr>"
  shows "storm_inv codec m job io fd f0 s'"
proof -
  note hold = storm_inv_holder [OF assms(1,2)]
  have c: "completed s' = completed s" by (simp add: assms(5) completed_def)
  have "st_pc s' k = Finished r" if "(k, r) \<in> set (fst (section_run codec m job io fd (completed s) f0))" for k r
    using storm_inv_runs [OF assms(1) that] assms(2,5) by auto
  then have runs: "\<forall>(k, r)\<in>set (fst (section_run codec m job io fd (completed s) f0)). st_pc s' k = Finished r" by blast
  have fin: "\<forall>k r. st_pc s' k = Finished (Inr r) \<and> m \<noteq> 0 \<longrightarrow> k \<in> set (st_order s')"
    using assms(1,3,5) unfolding storm_inv_def by (auto split: if_splits)
  have started: "\<forall>k\<in>set (st_order s'). st_pc s' k \<noteq> Called \<and> st_pc s' k \<noteq> Opened"
    using assms(1,3,5) unfolding storm_inv_def by auto
  have sec: "\<forall>k. in_section (st_pc s' k) \<longleftrightarrow> st_lock s' = Some k"
    using assms(1,3,5) hold(1) unfolding storm_inv_def by auto
  have "distinct (st_order s')" using assms(1,5) by (simp add: storm_inv_def)
  with sec started fin runs hold(1,2) assms(4) show ?thesis unfolding storm_inv_def c by (simp add: assms(5))
qed

text \<open>The holder ends its section: its result and the content are those of the whole section.\<close>

lemma storm_inv_leave:
  assumes "storm_inv codec m job io fd f0 s" "in_section (st_pc s h)"
    and "locked_section codec (io h) fd (job_update m (job h)) (snd (section_run codec m job io fd (completed s) f0)) = (r, st_file s)"
    and "s' = leave h r s"
  shows "storm_inv codec m job io fd f0 s'"
proof -
  note hold = storm_inv_holder [OF assms(1,2)]
  have c: "completed s' = completed s @ [h]" using hold by (simp add: assms(4) leave_def completed_def)
  have run: "section_run codec m job io fd (completed s @ [h]) f0 =
      (fst (section_run codec m job io fd (completed s) f0) @ [(h, r)], st_file s)"
    using assms(3) by (simp add: section_run_snoc Let_def case_prod_beta)
  have "st_pc s' k = Finished q" if "(k, q) \<in> set (fst (section_run codec m job io fd (completed s) f0))" for k q
    using storm_inv_runs [OF assms(1) that] assms(2,4) by (auto simp: leave_def)
  then have runs: "\<forall>(k, q)\<in>set (fst (section_run codec m job io fd (completed s @ [h]) f0)). st_pc s' k = Finished q"
    by (auto simp: run assms(4) leave_def)
  have o: "st_order s' = completed s @ [h]" using hold(2) by (simp add: assms(4) leave_def)
  have fin: "\<forall>k r. st_pc s' k = Finished (Inr r) \<and> m \<noteq> 0 \<longrightarrow> k \<in> set (st_order s')"
    using assms(1,4) hold(2) unfolding storm_inv_def by (auto simp: leave_def)
  have started: "\<forall>k\<in>set (st_order s'). st_pc s' k \<noteq> Called \<and> st_pc s' k \<noteq> Opened"
    using assms(1,4) unfolding storm_inv_def by (auto simp: leave_def)
  have sec: "\<forall>k. in_section (st_pc s' k) \<longleftrightarrow> st_lock s' = Some k"
    using assms(1,4) hold(1) unfolding storm_inv_def by (auto simp: leave_def)
  have "distinct (st_order s')" using assms(1,4) by (simp add: storm_inv_def leave_def)
  moreover have "st_lock s' = None" "st_file s' = st_file s" using hold(1) by (simp_all add: assms(4) leave_def)
  ultimately show ?thesis using sec started fin runs unfolding storm_inv_def c run by simp
qed

lemma storm_inv_lock:
  assumes "storm_inv codec m job io fd f0 s" "st_pc s h = Opened" "st_lock s = None"
    and "s' = s\<lparr>st_lock := Some h, st_pc := (st_pc s)(h := HasLock), st_order := st_order s @ [h]\<rparr>"
  shows "storm_inv codec m job io fd f0 s'"
proof -
  have c: "completed s' = completed s" "completed s = st_order s" by (simp_all add: assms(3,4) completed_def)
  have o: "h \<notin> set (st_order s)" using assms(1,2) unfolding storm_inv_def by blast
  have "st_pc s' k = Finished r" if "(k, r) \<in> set (fst (section_run codec m job io fd (completed s) f0))" for k r
    using storm_inv_runs [OF assms(1) that] assms(2,4) by auto
  then have runs: "\<forall>(k, r)\<in>set (fst (section_run codec m job io fd (completed s) f0)). st_pc s' k = Finished r" by blast
  have "st_file s = snd (section_run codec m job io fd (completed s) f0)" using assms(1,3) by (simp add: storm_inv_def)
  with assms(1,3) o runs show ?thesis
    unfolding storm_inv_def c(1) by (simp add: assms(4) c(2) section_at_def)
qed

lemma outside_leave: "storm_inv codec m job io fd f0 s \<Longrightarrow> \<not> in_section (st_pc s h) \<Longrightarrow>
    leave h r s = s\<lparr>st_pc := (st_pc s)(h := Finished r)\<rparr>"
  by (simp add: storm_inv_def leave_def)

lemma written_prefix: "written io fd json = take (length (written io fd json)) json"
  by (simp add: written_def min_def)

lemma storm_inv_step [wf_intros]:
  assumes "storm_inv codec m job io fd f0 s" "storm_step codec m job io fd n s s'"
  shows "storm_inv codec m job io fd f0 s'"
proof -
  note out = storm_inv_outside [OF assms(1)] and inn = storm_inv_inside [OF assms(1)] and lea = storm_inv_leave [OF assms(1)]
  note hold = storm_inv_holder(3) [OF assms(1), unfolded section_at_def]
  from assms(2) show ?thesis
  proof (cases rule: storm_step.cases)
    case (unlimited h)
    then show ?thesis by (intro out [of h "Finished (Inr (fst (job_update m (job h) rate_default)))"]) (simp_all add: outside_leave [OF assms(1)])
  next
    case (unopened h e)
    then show ?thesis by (intro out [of h "Finished (Inl e)"]) (simp_all add: outside_leave [OF assms(1)])
  next
    case (opened h)
    then show ?thesis by (intro out [of h Opened]) simp_all
  next
    case (lock_fails h)
    then show ?thesis by (intro out [of h "Finished (Inl (Fault OpLock))"]) (simp_all add: outside_leave [OF assms(1)])
  next
    case (lock h)
    then show ?thesis by (intro storm_inv_lock [OF assms(1)])
  next
    case (read_fails h)
    with hold [of h] show ?thesis by (intro lea [of h]) (simp_all add: locked_section_def)
  next
    case (read h)
    with hold [of h] show ?thesis by (intro inn [of h "HasRead (st_file s)" "st_file s"]) (simp_all add: section_at_def)
  next
    case (print_fails h b)
    with hold [of h] show ?thesis by (intro lea [of h]) (simp_all add: locked_section_def)
  next
    case (seek_fails h b json)
    with hold [of h] show ?thesis by (intro lea [of h]) (simp_all add: locked_section_def)
  next
    case (truncate_fails h b json)
    with hold [of h] show ?thesis by (intro lea [of h]) (simp_all add: locked_section_def)
  next
    case (truncate h b json)
    with hold [of h] show ?thesis
      by (intro inn [of h "Writing (fst (job_update m (job h) (parse_or_default codec b))) json 0" "[]"]) (simp_all add: section_at_def)
  next
    case (write_chunk h d json k k')
    have "take k json @ take (k' - k) (drop k json) = take k' json"
      using write_chunk(4) take_add [of k "k' - k" json] by simp
    with write_chunk hold [of h] show ?thesis
      by (intro inn [of h "Writing d json k'" "st_file s @ take (k' - k) (drop k json)"]) (simp_all add: section_at_def)
  next
    case (write_fails h d json k)
    with hold [of h] show ?thesis by (intro lea [of h]) (simp_all add: locked_section_def flip: written_prefix)
  next
    case (close h d json k)
    with hold [of h] show ?thesis by (intro lea [of h]) (simp_all add: locked_section_def written_def)
  qed
qed

lemma storm_reach_inv: "storm_reach codec m job io fd n f0 s \<Longrightarrow> storm_inv codec m job io fd f0 s"
  by (induction rule: storm_reach.induct) (auto intro: storm_inv_init storm_inv_step)

section \<open>A handler alone\<close>

text \<open>The state in which \<open>h\<close>, which took the lock in state \<open>s\<close>, stands at \<open>pc\<close> and the file holds \<open>f\<close>.\<close>

definition holding :: "storm \<Rightarrow> nat \<Rightarrow> bytes \<Rightarrow> handler_pc \<Rightarrow> storm" where
  "holding s h f pc = \<lparr>st_file = f, st_lock = Some h, st_pc = (st_pc s)(h := pc), st_order = st_order s @ [h]\<rparr>"

lemma holding_simps:
  "st_pc (holding s h f pc) h = pc" "st_file (holding s h f pc) = f"
  "holding s h f pc\<lparr>st_pc := (st_pc (holding s h f pc))(h := pc')\<rparr> = holding s h f pc'"
  "holding s h f pc\<lparr>st_file := f', st_pc := (st_pc (holding s h f pc))(h := pc')\<rparr> = holding s h f' pc'"
  "leave h r (holding s h f pc) = \<lparr>st_file = f, st_lock = None, st_pc = (st_pc s)(h := Finished r), st_order = st_order s @ [h]\<rparr>"
  by (simp_all add: holding_def leave_def)

lemma write_alone:
  assumes "h < n" "r = (if io_fails (io h) OpWrite fd then Inl (Fault OpWrite) else Inr d)"
  shows "(storm_step codec m job io fd n)\<^sup>*\<^sup>* (holding s h [] (Writing d json 0)) (leave h r (holding s h (written (io h) fd json) pc))"
proof -
  let ?w = "written (io h) fd json" and ?go = "storm_step codec m job io fd n"
  have "?go\<^sup>*\<^sup>* (holding s h [] (Writing d json 0)) (holding s h ?w (Writing d json (length ?w)))"
  proof (cases "?w = []")
    case False
    with storm_step.write_chunk [of h n "holding s h [] (Writing d json 0)" d json 0 "length ?w" io fd codec m job] assms(1)
    have "?go (holding s h [] (Writing d json 0)) (holding s h ?w (Writing d json (length ?w)))"
      by (simp add: holding_simps flip: written_prefix)
    then show ?thesis by simp
  qed simp
  moreover have "?go (holding s h ?w (Writing d json (length ?w))) (leave h r (holding s h ?w (Writing d json (length ?w))))"
  proof (cases "io_fails (io h) OpWrite fd")
    case True
    with assms show ?thesis by (simp add: storm_step.write_fails holding_simps(1))
  next
    case False
    with assms show ?thesis by (simp add: storm_step.close holding_simps(1) written_def)
  qed
  ultimately show ?thesis by (simp add: holding_simps(5))
qed

lemma update_alone:
  assumes "h < n" "\<not> io_fails (io h) OpRead fd"
    and "locked_section codec (io h) fd (job_update m (job h)) b = (r, f)"
  shows "(storm_step codec m job io fd n)\<^sup>*\<^sup>* (holding s h b (HasRead b)) (leave h r (holding s h f pc))"
proof -
  let ?go = "storm_step codec m job io fd n" and ?u = "job_update m (job h) (parse_or_default codec b)"
  let ?s = "holding s h b (HasRead b)"
  show ?thesis
  proof (cases "rc_print codec (snd ?u)")
    case None
    with assms have "?go ?s (leave h r ?s)" "f = b"
      using storm_step.print_fails [of h n ?s b codec m job io fd] by (simp_all add: holding_simps(1) locked_section_def)
    then show ?thesis by (simp add: holding_simps(5))
  next
    case (Some json)
    show ?thesis
    proof (cases "io_fails (io h) OpSeek fd \<or> io_fails (io h) OpTruncate fd")
      case True
      with Some assms have "?go ?s (leave h r ?s)" "f = b"
        using storm_step.seek_fails [of h n ?s b codec m job json io fd] storm_step.truncate_fails [of h n ?s b codec m job json io fd]
        by (auto simp: holding_simps(1) locked_section_def split: if_splits)
      then show ?thesis by (simp add: holding_simps(5))
    next
      case False
      with Some assms have "?go ?s (holding s h [] (Writing (fst ?u) json 0))"
        using storm_step.truncate [of h n ?s b codec m job json io fd] by (simp add: holding_simps)
      moreover have "f = written (io h) fd json" "r = (if io_fails (io h) OpWrite fd then Inl (Fault OpWrite) else Inr (fst ?u))"
        using Some False assms by (simp_all add: locked_section_def)
      ultimately show ?thesis
        using write_alone [OF assms(1), of r io fd "fst ?u" codec m job s json pc] by (simp add: converse_rtranclp_into_rtranclp)
    qed
  qed
qed

text \<open>A handler that finds the lock free may run through its section alone.\<close>

lemma solo_pass:
  assumes "h < n" "m \<noteq> 0" "st_pc s h = Called" "st_lock s = None" "\<not> io_fails (io h) OpLock fd"
    and r: "locked_section codec (io h) fd (job_update m (job h)) (st_file s) = (r, f)"
  shows "(storm_step codec m job io fd n)\<^sup>*\<^sup>* s
    \<lparr>st_file = f, st_lock = None, st_pc = (st_pc s)(h := Finished r), st_order = st_order s @ [h]\<rparr>"
proof -
  let ?go = "storm_step codec m job io fd n" and ?b = "st_file s" and ?s1 = "s\<lparr>st_pc := (st_pc s)(h := Opened)\<rparr>"
  have "?go s ?s1" using assms(1-3) by (intro storm_step.opened)
  moreover have "?go ?s1 (holding s h ?b HasLock)"
    using storm_step.lock [of h n ?s1 io fd codec m job] assms(1,4,5) by (cases s) (simp add: holding_def)
  moreover have "?go\<^sup>*\<^sup>* (holding s h ?b HasLock) (leave h r (holding s h f HasLock))"
  proof (cases "io_fails (io h) OpRead fd")
    case True
    with assms(1) r show ?thesis
      using storm_step.read_fails [of h n "holding s h ?b HasLock" io fd codec m job] by (auto simp: holding_simps(1) locked_section_def)
  next
    case False
    with assms(1) have "?go (holding s h ?b HasLock) (holding s h ?b (HasRead ?b))"
      using storm_step.read [of h n "holding s h ?b HasLock" io fd codec m job] by (simp add: holding_simps)
    then show ?thesis using update_alone [of h n io fd codec m job ?b r f s HasLock, OF assms(1) False r] by (rule converse_rtranclp_into_rtranclp)
  qed
  ultimately show ?thesis unfolding holding_simps(5) by (meson converse_rtranclp_into_rtranclp)
qed

section \<open>Every storm ends\<close>

fun pc_stage :: "handler_pc \<Rightarrow> nat" where
  "pc_stage Called = 5"
| "pc_stage Opened = 4"
| "pc_stage HasLock = 3"
| "pc_stage (HasRead _) = 2"
| "pc_stage (Writing _ _ _) = 1"
| "pc_stage (Finished _) = 0"

fun pc_left :: "handler_pc \<Rightarrow> nat" where
  "pc_left (Writing _ json k) = length json - k"
| "pc_left _ = 0"

definition storm_rank :: "nat \<Rightarrow> storm \<Rightarrow> nat \<times> nat" where
  "storm_rank n s = (\<Sum>h<n. pc_stage (st_pc s h), \<Sum>h<n. pc_left (st_pc s h))"

lemma sum_fun_upd_less: "h < (n :: nat) \<Longrightarrow> f x < f (p h) \<Longrightarrow> (\<Sum>k<n. f ((p(h := x)) k)) < (\<Sum>k<n. f (p k) :: nat)"
  by (rule sum_strict_mono_ex1) auto

lemma sum_fun_upd_same: "f x = f (p h) \<Longrightarrow> (\<Sum>k<(n :: nat). f ((p(h := x)) k)) = (\<Sum>k<n. f (p k) :: nat)"
  by (rule sum.cong) auto

lemma storm_step_rank:
  assumes "storm_step codec m job io fd n s s'"
  shows "(storm_rank n s', storm_rank n s) \<in> less_than <*lex*> less_than"
proof -
  have down: "(storm_rank n s', storm_rank n s) \<in> less_than <*lex*> less_than"
    if "h < n" "st_pc s' = (st_pc s)(h := x)" "pc_stage x < pc_stage (st_pc s h)" for h x
    using sum_fun_upd_less [of h n pc_stage x "st_pc s"] that by (simp add: storm_rank_def)
  have leave: "(storm_rank n (leave h r s), storm_rank n s) \<in> less_than <*lex*> less_than" if "h < n" "0 < pc_stage (st_pc s h)" for h r
    using sum_fun_upd_less [of h n pc_stage "Finished r" "st_pc s"] that by (simp add: storm_rank_def leave_def)
  from assms show ?thesis
  proof (cases rule: storm_step.cases)
    case (opened h)
    then show ?thesis by (intro down [of h Opened]) simp_all
  next
    case (lock h)
    then show ?thesis by (intro down [of h HasLock]) simp_all
  next
    case (read h)
    then show ?thesis by (intro down [of h "HasRead (st_file s)"]) simp_all
  next
    case (truncate h b json)
    then show ?thesis by (intro down [of h "Writing (fst (job_update m (job h) (parse_or_default codec b))) json 0"]) simp_all
  next
    case (write_chunk h d json k k')
    have "k' \<le> length json" using write_chunk(5) by (auto simp: written_def split: if_splits)
    with write_chunk sum_fun_upd_less [of h n pc_left "Writing d json k'" "st_pc s"] sum_fun_upd_same [of pc_stage "Writing d json k'" "st_pc s" h n]
    show ?thesis by (simp add: storm_rank_def)
  qed (auto intro: leave)
qed

lemma storm_wf: "wf {(s', s). storm_step codec m job io fd n s s'}"
  by (rule wf_subset [OF wf_inv_image [of "less_than <*lex*> less_than" "storm_rank n"]])
    (auto simp: storm_step_rank)

lemma storm_reach_bound: "storm_reach codec m job io fd n f0 s \<Longrightarrow> n \<le> h \<Longrightarrow> st_pc s h = Called"
proof (induction rule: storm_reach.induct)
  case (step s s')
  from step.hyps(2) step.prems step.IH show ?case by (cases rule: storm_step.cases) (auto simp: leave_def)
qed (simp add: storm_init_def)

text \<open>The holder of the lock can always go on, and so can a handler at the lock when it is free.\<close>

lemma holder_steps:
  assumes "storm_inv codec m job io fd f0 s" "h < n" "in_section (st_pc s h)"
  shows "\<exists>s'. storm_step codec m job io fd n s s'"
proof (cases "st_pc s h")
  case HasLock
  note go = storm_step.read_fails [where io = io, OF assms(2) HasLock] storm_step.read [where io = io, OF assms(2) HasLock]
  show ?thesis by (cases "io_fails (io h) OpRead fd") (fast dest: go)+
next
  case (HasRead b)
  let ?j = "rc_print codec (snd (job_update m (job h) (parse_or_default codec b)))"
  note go = storm_step.print_fails [OF assms(2) HasRead, of codec m job io fd]
    storm_step.seek_fails [OF assms(2) HasRead, of codec m job _ io fd]
    storm_step.truncate_fails [OF assms(2) HasRead, of codec m job _ io fd]
    storm_step.truncate [OF assms(2) HasRead, of codec m job _ io fd]
  show ?thesis
    by (cases ?j; cases "io_fails (io h) OpSeek fd"; cases "io_fails (io h) OpTruncate fd") (fast dest: go)+
next
  case (Writing d json k)
  with storm_inv_holder(3) [OF assms(1,3)] have k: "k \<le> length (written (io h) fd json)" by (simp add: section_at_def)
  show ?thesis
  proof (cases "k < length (written (io h) fd json)")
    case True
    with assms(2) Writing show ?thesis using storm_step.write_chunk [where io = io and fd = fd, OF assms(2) Writing True order_refl] by blast
  next
    case False
    with k have k': "k = length (written (io h) fd json)" by simp
    note go = storm_step.write_fails [where io = io and fd = fd, OF assms(2) Writing k', of codec m job] storm_step.close [OF assms(2) Writing, of io fd codec m job]
    show ?thesis
    proof (cases "io_fails (io h) OpWrite fd")
      case True
      then show ?thesis using go(1) by blast
    next
      case False
      then show ?thesis using go(2) k' by (auto simp: written_def)
    qed
  qed
qed (use assms(3) in simp_all)

lemma stuck_finished:
  assumes "storm_reach codec m job io fd n f0 s" "\<And>s'. \<not> storm_step codec m job io fd n s s'" "h < n"
  shows "\<exists>r. st_pc s h = Finished r"
proof -
  note inv = storm_reach_inv [OF assms(1)]
  have free: "\<not> in_section (st_pc s k)" for k
  proof (cases "k < n")
    case True
    with holder_steps [OF inv True] assms(2) show ?thesis by blast
  next
    case False
    with storm_reach_bound [OF assms(1), of k] show ?thesis by simp
  qed
  then have l: "st_lock s = None" using inv by (cases "st_lock s") (auto simp: storm_inv_def)
  show ?thesis
  proof (cases "st_pc s h")
    case Called
    with storm_step.unlimited [OF assms(3) Called, of m codec job io fd] storm_step.opened [OF assms(3) Called, of m codec job io fd]
    show ?thesis using assms(2) by (cases "m = 0") simp_all
  next
    case Opened
    with storm_step.lock [OF assms(3) Opened _ l, of io fd codec m job] storm_step.lock_fails [OF assms(3) Opened, of io fd codec m job]
    show ?thesis using assms(2) by (cases "io_fails (io h) OpLock fd") simp_all
  qed (use free [of h] in simp_all)
qed

section \<open>Storms without failures\<close>

text \<open>Sections that end well are the updates of the state that the content stands for.\<close>

lemma section_run_pure:
  assumes codec: "\<And>st json. rc_print codec st = Some json \<Longrightarrow> rc_parse codec json = Some st"
    and "\<forall>r\<in>set (map snd (fst (section_run codec m job io fd hs b))). \<exists>d. r = Inr d"
  shows "map snd (fst (section_run codec m job io fd hs b)) = map Inr (fst (seq_run m job hs (parse_or_default codec b))) \<and>
    parse_or_default codec (snd (section_run codec m job io fd hs b)) = snd (seq_run m job hs (parse_or_default codec b))"
  using assms(2)
proof (induction hs arbitrary: b)
  case (Cons h hs)
  let ?st = "parse_or_default codec b"
  obtain r b1 where l: "locked_section codec (io h) fd (job_update m (job h)) b = (r, b1)" by fastforce
  obtain rs b2 where q: "section_run codec m job io fd hs b1 = (rs, b2)" by fastforce
  obtain d st1 where u: "job_update m (job h) ?st = (d, st1)" by fastforce
  from Cons.prems l q obtain d' where "r = Inr d'" by auto
  with l u have "r = Inr d" "rc_print codec st1 = Some b1"
    by (auto simp: locked_section_def written_def split: if_splits option.splits)
  moreover from codec [OF this(2)] have "parse_or_default codec b1 = st1" by (simp add: parse_or_default_def)
  moreover have "\<forall>r\<in>set (map snd rs). \<exists>d. r = Inr d" using Cons.prems l q by simp
  with Cons.IH [of b1] q have "map snd rs = map Inr (fst (seq_run m job hs (parse_or_default codec b1))) \<and>
    parse_or_default codec b2 = snd (seq_run m job hs (parse_or_default codec b1))" by simp
  ultimately show ?case using l q u by (simp add: case_prod_beta Let_def)
qed simp

lemma map_section_pc:
  assumes "\<forall>(h, r)\<in>set (fst (section_run codec m job io fd hs b)). st_pc s h = Finished r"
  shows "map (st_pc s) hs = map Finished (map snd (fst (section_run codec m job io fd hs b)))"
proof -
  have "map (st_pc s) (map fst (fst (section_run codec m job io fd hs b))) = map Finished (map snd (fst (section_run codec m job io fd hs b)))"
    using assms by auto
  then show ?thesis unfolding section_run_order .
qed

text \<open>Checks of one pod at one time: as many are admitted as the budget has left.\<close>

lemma same_second_allowed:
  assumes "\<forall>h\<in>set hs. job h = Check scope now" "rate_time_ok now" "m \<noteq> 0"
  shows "length (filter (\<lambda>d. d = Some Allowed) (fst (seq_run m job hs st))) =
    min (length hs) (unat m - length (filter (\<lambda>t. now - RATE_WINDOW_SECS < t) (used st scope)))"
  using assms(1)
proof (induction hs arbitrary: st)
  case (Cons h hs)
  obtain d st1 where u: "check_update m scope now st = (d, st1)" by fastforce
  let ?recent = "\<lambda>st. length (filter (\<lambda>t. now - RATE_WINDOW_SECS < t) (used st scope))"
  have cut: "i64_sub now RATE_WINDOW_SECS = now - RATE_WINDOW_SECS"
    using assms(2) by (simp add: rate_time_ok_def i64_sub_exact)
  have dec: "d = Allowed \<longleftrightarrow> ?recent st < unat m"
    using check_update_decision [of m scope now st] u cut by simp
  have us: "?recent st1 = ?recent st + (if d = Allowed then 1 else 0)"
    using used_check_update [of m scope now st scope] u cut by (simp add: RATE_WINDOW_SECS_def)
  have "length (filter (\<lambda>d. d = Some Allowed) (fst (seq_run m job hs st1))) = min (length hs) (unat m - ?recent st1)"
    using Cons by simp
  moreover have "fst (seq_run m job (h # hs) st) = Some d # fst (seq_run m job hs st1)"
    using Cons.prems u assms(3) by (simp add: job_update_def Let_def case_prod_beta)
  ultimately show ?case using us dec by auto
qed simp

lemma unlimited_finished:
  assumes "storm_reach codec 0 job io fd n f0 s"
  shows "st_pc s h = Called \<or> st_pc s h = Finished (Inr (fst (job_update 0 (job h) rate_default)))"
  using assms
proof (induction rule: storm_reach.induct)
  case (step s s')
  from step.hyps(2) step.IH show ?case by (cases rule: storm_step.cases) (auto simp: leave_def split: if_splits)
qed (simp add: storm_init_def)

lemma finished_storm:
  assumes "storm_reach codec m job io fd n f0 s" "m \<noteq> 0" "\<forall>h<n. \<exists>d. st_pc s h = Finished (Inr d)"
  shows "st_lock s = None" "set (st_order s) = {..<n}" "distinct (st_order s)"
    "map (st_pc s) (st_order s) = map Finished (map snd (fst (section_run codec m job io fd (st_order s) f0)))"
proof -
  have inv: "storm_inv codec m job io fd f0 s" using assms(1) by (rule storm_reach_inv)
  have called: "st_pc s h = Called" if "\<not> h < n" for h using storm_reach_bound [OF assms(1)] that by simp
  have "\<not> in_section (st_pc s h)" for h using assms(3) called [of h] by (cases "h < n") auto
  then show l: "st_lock s = None" using inv by (cases "st_lock s") (auto simp: storm_inv_def)
  show "set (st_order s) = {..<n}"
  proof
    show "set (st_order s) \<subseteq> {..<n}" using inv called unfolding storm_inv_def by auto
    show "{..<n} \<subseteq> set (st_order s)"
    proof
      fix h assume "h \<in> {..<n}"
      with assms(3) obtain d where "st_pc s h = Finished (Inr d)" by auto
      with inv assms(2) show "h \<in> set (st_order s)" unfolding storm_inv_def by blast
    qed
  qed
  show "distinct (st_order s)" using inv by (simp add: storm_inv_def)
  have "completed s = st_order s" by (simp add: completed_def l)
  with inv show "map (st_pc s) (st_order s) = map Finished (map snd (fst (section_run codec m job io fd (st_order s) f0)))"
    by (intro map_section_pc) (simp add: storm_inv_def)
qed

lemma storm_spends_budget:
  assumes codec: "\<And>st json. rc_print codec st = Some json \<Longrightarrow> rc_parse codec json = Some st"
    and "storm_reach codec m job io fd n f0 s"
    and "\<forall>h<n. job h = Check scope now" "rate_time_ok now" "\<forall>h<n. \<exists>d. st_pc s h = Finished (Inr d)"
  shows "card {h. h < n \<and> st_pc s h = Finished (Inr (Some Allowed))} =
    (if m = 0 then n
     else min n (unat m - length (filter (\<lambda>t. now - RATE_WINDOW_SECS < t) (used (parse_or_default codec f0) scope))))"
proof (cases "m = 0")
  case True
  with assms(2) have r: "storm_reach codec 0 job io fd n f0 s" by simp
  have "st_pc s h = Finished (Inr (Some Allowed))" if "h < n" for h
    using unlimited_finished [OF r, of h] assms(3,5) that by (auto simp: job_update_def)
  then have "{h. h < n \<and> st_pc s h = Finished (Inr (Some Allowed))} = {..<n}" by auto
  with True show ?thesis by simp
next
  case False
  note fin = finished_storm [OF assms(2) False assms(5)]
  let ?hs = "st_order s" and ?rs = "map snd (fst (section_run codec m job io fd (st_order s) f0))"
  have "r \<in> set ?rs \<Longrightarrow> \<exists>d. r = Inr d" for r
  proof -
    assume "r \<in> set ?rs"
    then have "Finished r \<in> set (map (st_pc s) ?hs)" unfolding fin(4) by force
    then show ?thesis using fin(2) assms(5) by auto
  qed
  with section_run_pure [OF codec] have rs: "?rs = map Inr (fst (seq_run m job ?hs (parse_or_default codec f0)))" by blast
  have "{h. h < n \<and> st_pc s h = Finished (Inr (Some Allowed))} = set (filter (\<lambda>h. st_pc s h = Finished (Inr (Some Allowed))) ?hs)"
    using fin(2) by auto
  then have "card {h. h < n \<and> st_pc s h = Finished (Inr (Some Allowed))} =
      length (filter (\<lambda>pc. pc = Finished (Inr (Some Allowed))) (map (st_pc s) ?hs))"
    using distinct_card [OF distinct_filter [OF fin(3)]] by (simp add: filter_map comp_def)
  also have "\<dots> = length (filter (\<lambda>d. d = Some Allowed) (fst (seq_run m job ?hs (parse_or_default codec f0))))"
    unfolding fin(4) rs by (simp add: filter_map comp_def)
  also have "\<dots> = min (length ?hs) (unat m - length (filter (\<lambda>t. now - RATE_WINDOW_SECS < t) (used (parse_or_default codec f0) scope)))"
    by (rule same_second_allowed) (use fin(2) assms(3,4) False in auto)
  also have "length ?hs = n" using distinct_card [OF fin(3)] fin(2) by simp
  finally show ?thesis using False by simp
qed

section \<open>Properties\<close>

text \<open>
  C5. The limiter is linearizable under a crash storm, failing calls included: at every moment of
  every interleaving of the handlers' system calls at most one handler is between its lock and
  its close, and the handlers that took the lock and released it have exactly the results they
  have when their critical sections run one after the other in the order of the lock, each
  with the failures that struck it; nobody else has a result other than an error, unless there is
  no budget. Whenever the lock is free, the file holds what that sequential run leaves. When
  none of these sections ended in an error and \<open>serde_json\<close> reads back what it prints, the
  decisions and the state the file stands for are those of the updates in lock order: no update
  is lost.
\<close>

theorem storm_linearizable:
  assumes codec: "\<And>st json. rc_print codec st = Some json \<Longrightarrow> rc_parse codec json = Some st"
    and "storm_reach codec m job io fd n f0 s"
  shows "(\<forall>h k. in_section (st_pc s h) \<and> in_section (st_pc s k) \<longrightarrow> h = k) \<and>
    (\<exists>hs. st_order s = hs @ (case st_lock s of None \<Rightarrow> [] | Some h \<Rightarrow> [h]) \<and> distinct hs \<and>
      map (st_pc s) hs = map Finished (map snd (fst (section_run codec m job io fd hs f0))) \<and>
      (\<forall>h d. st_pc s h = Finished (Inr d) \<and> m \<noteq> 0 \<longrightarrow> h \<in> set hs) \<and>
      (st_lock s = None \<longrightarrow> st_file s = snd (section_run codec m job io fd hs f0)) \<and>
      ((\<forall>h\<in>set hs. \<exists>d. st_pc s h = Finished (Inr d)) \<longrightarrow>
        map (st_pc s) hs = map (Finished \<circ> Inr) (fst (seq_run m job hs (parse_or_default codec f0))) \<and>
        (st_lock s = None \<longrightarrow> parse_or_default codec (st_file s) = snd (seq_run m job hs (parse_or_default codec f0)))))"
proof -
  have inv: "storm_inv codec m job io fd f0 s" using assms(2) by (rule storm_reach_inv)
  let ?hs = "completed s" and ?run = "section_run codec m job io fd (completed s) f0"
  have o: "st_order s = ?hs @ (case st_lock s of None \<Rightarrow> [] | Some h \<Rightarrow> [h])" "distinct ?hs"
    using inv unfolding storm_inv_def by (auto simp: completed_def distinct_butlast split: option.splits)
  have pcs: "map (st_pc s) ?hs = map Finished (map snd (fst ?run))"
    by (rule map_section_pc) (use inv in \<open>simp add: storm_inv_def\<close>)
  have fin: "h \<in> set ?hs" if "st_pc s h = Finished (Inr d)" "m \<noteq> 0" for h d
  proof -
    have "h \<in> set (st_order s)" using inv that unfolding storm_inv_def by blast
    moreover have "st_lock s \<noteq> Some h" using inv that(1) unfolding storm_inv_def by (metis in_section.simps(6))
    ultimately show ?thesis using o(1) by (auto split: option.splits)
  qed
  have f: "st_lock s = None \<Longrightarrow> st_file s = snd ?run" using inv by (simp add: storm_inv_def)
  have pure: "map snd (fst ?run) = map Inr (fst (seq_run m job ?hs (parse_or_default codec f0))) \<and>
      parse_or_default codec (snd ?run) = snd (seq_run m job ?hs (parse_or_default codec f0))"
    if "\<forall>h\<in>set ?hs. \<exists>d. st_pc s h = Finished (Inr d)"
  proof -
    have "\<exists>d. r = Inr d" if "r \<in> set (map snd (fst ?run))" for r
    proof -
      from that have "Finished r \<in> set (map (st_pc s) ?hs)" unfolding pcs by force
      then show ?thesis using \<open>\<forall>h\<in>set ?hs. \<exists>d. st_pc s h = Finished (Inr d)\<close> by auto
    qed
    then show ?thesis using section_run_pure [OF codec, of m job io fd ?hs f0] by blast
  qed
  have mutex: "\<forall>h k. in_section (st_pc s h) \<and> in_section (st_pc s k) \<longrightarrow> h = k" using inv unfolding storm_inv_def by (metis option.inject)
  have updates: "(\<forall>h\<in>set ?hs. \<exists>d. st_pc s h = Finished (Inr d)) \<longrightarrow>
        map (st_pc s) ?hs = map (Finished \<circ> Inr) (fst (seq_run m job ?hs (parse_or_default codec f0))) \<and>
        (st_lock s = None \<longrightarrow> parse_or_default codec (st_file s) = snd (seq_run m job ?hs (parse_or_default codec f0)))"
  proof
    assume all: "\<forall>h\<in>set ?hs. \<exists>d. st_pc s h = Finished (Inr d)"
    show "map (st_pc s) ?hs = map (Finished \<circ> Inr) (fst (seq_run m job ?hs (parse_or_default codec f0))) \<and>
        (st_lock s = None \<longrightarrow> parse_or_default codec (st_file s) = snd (seq_run m job ?hs (parse_or_default codec f0)))"
      unfolding pcs conjunct1 [OF pure [OF all]] using f pure [OF all] by simp
  qed
  show ?thesis
    by (intro conjI exI [of _ ?hs])
      (rule mutex, rule o(1), rule o(2), rule pcs, use fin in blast, use f in blast, rule updates)
qed

text \<open>
  A storm of two handlers of one pod with a budget of one, whose only written state has the one
  admitted upload. Handler 1 comes first and its write fails after no byte: the file it leaves is
  empty, so that handler 0 is admitted as well.
\<close>

definition two_crashes :: "nat \<Rightarrow> rate_job" where
  "two_crashes h = Check ''p'' 1000"

definition one_upload :: rate_state where
  "one_upload = \<lparr>rs_events = [''p'' \<mapsto> [1000]]\<rparr>"

definition one_upload_codec :: rate_codec where
  "one_upload_codec =
     \<lparr>rc_parse = (\<lambda>b. if b = ''J'' then Some one_upload else None),
      rc_print = (\<lambda>st. if st = one_upload then Some ''J'' else None)\<rparr>"

definition full_disk :: "bool \<Rightarrow> nat \<Rightarrow> io_env" where
  "full_disk full h = \<lparr>io_fails = (\<lambda>op p. full \<and> h = 1 \<and> op = OpWrite), io_partial = (\<lambda>_. 0)\<rparr>"

lemma one_upload_codec_inverse:
  "rc_print one_upload_codec st = Some json \<Longrightarrow> rc_parse one_upload_codec json = Some st"
  by (simp add: one_upload_codec_def split: if_splits)

lemma two_crashes_updates:
  "job_update 1 (two_crashes h) rate_default = (Some Allowed, one_upload)"
  "job_update 1 (two_crashes h) one_upload = (Some (Suppressed 1), one_upload)"
  by (simp_all add: job_update_def two_crashes_def rate_default_def one_upload_def check_update_def
      u32_saturate_def vec_len_def prune_events_def i64_sub_def wrap_i64_def RATE_WINDOW_SECS_def Let_def
      fun_eq_iff)

lemma two_crashes_sections:
  "locked_section one_upload_codec (full_disk full h) fd (job_update 1 (two_crashes h)) [] =
     (if full \<and> h = 1 then (Inl (Fault OpWrite), []) else (Inr (Some Allowed), ''J''))"
  "locked_section one_upload_codec (full_disk full 0) fd (job_update 1 (two_crashes 0)) ''J'' = (Inr (Some (Suppressed 1)), ''J'')"
proof -
  have p: "parse_or_default one_upload_codec [] = rate_default" "parse_or_default one_upload_codec ''J'' = one_upload"
    "rc_print one_upload_codec one_upload = Some ''J''"
    by (simp_all add: parse_or_default_def one_upload_codec_def)
  show "locked_section one_upload_codec (full_disk full h) fd (job_update 1 (two_crashes h)) [] =
     (if full \<and> h = 1 then (Inl (Fault OpWrite), []) else (Inr (Some Allowed), ''J''))"
    "locked_section one_upload_codec (full_disk full 0) fd (job_update 1 (two_crashes 0)) ''J'' = (Inr (Some (Suppressed 1)), ''J'')"
    by (simp_all add: locked_section_def two_crashes_updates p full_disk_def written_def)
qed

lemma two_crashes_run:
  "storm_reach one_upload_codec 1 two_crashes (full_disk full) fd 2 []
     \<lparr>st_file = ''J'', st_lock = None,
      st_pc = (\<lambda>_. Called)(1 := Finished (if full then Inl (Fault OpWrite) else Inr (Some Allowed)),
        0 := Finished (Inr (Some (if full then Allowed else Suppressed 1)))),
      st_order = [1, 0]\<rparr>"
proof -
  let ?go = "storm_step one_upload_codec 1 two_crashes (full_disk full) fd 2"
  let ?s1 = "\<lparr>st_file = if full then [] else ''J'', st_lock = None,
    st_pc = (\<lambda>_. Called)(1 := Finished (if full then Inl (Fault OpWrite) else Inr (Some Allowed))), st_order = [1]\<rparr>"
  have "?go\<^sup>*\<^sup>* (storm_init []) ?s1"
    using solo_pass [of 1 2 1 "storm_init []" "full_disk full" fd one_upload_codec two_crashes] two_crashes_sections(1) [of full 1]
    by (simp add: storm_init_def full_disk_def split: if_splits)
  moreover have "?go\<^sup>*\<^sup>* ?s1 \<lparr>st_file = ''J'', st_lock = None, st_pc = (st_pc ?s1)(0 := Finished (Inr (Some (if full then Allowed else Suppressed 1)))),
      st_order = [1, 0]\<rparr>"
    using solo_pass [of 0 2 1 ?s1 "full_disk full" fd one_upload_codec two_crashes] two_crashes_sections(1) [of full 0] two_crashes_sections(2)
    by (cases full) (simp_all add: full_disk_def)
  ultimately show ?thesis
    using storm_reach_steps storm_reach.init by (metis select_convs(3))
qed

theorem storm_linearizable_witness:
  "map snd (fst (section_run one_upload_codec 1 two_crashes (full_disk True) ''/r'' [1, 0] [])) =
     [Inl (Fault OpWrite), Inr (Some Allowed)]"
  using storm_linearizable [OF one_upload_codec_inverse two_crashes_run [of True "''/r''"]] by auto

text \<open>
  C6. A crash storm spends exactly what the budget has left: when any number of handlers of one
  pod crash at the same second and all have finished without an I/O error, in whatever
  interleaving, as many were admitted as the hourly budget had left in the state of the file at
  the start, none too many by a lost update and none too few by a spurious one; without a budget
  (0) all of them were.
\<close>

theorem storm_admits_exactly_budget:
  assumes "\<And>st json. rc_print codec st = Some json \<Longrightarrow> rc_parse codec json = Some st"
    and "storm_reach codec m job io fd n f0 s"
    and "\<forall>h<n. job h = Check scope now" "rate_time_ok now" "\<forall>h<n. \<exists>d. st_pc s h = Finished (Inr d)"
  shows "card {h. h < n \<and> st_pc s h = Finished (Inr (Some Allowed))} =
    (if m = 0 then n
     else min n (unat m - length (filter (\<lambda>t. now - RATE_WINDOW_SECS < t) (used (parse_or_default codec f0) scope))))"
  using assms by (rule storm_spends_budget)

theorem storm_admits_exactly_budget_witness:
  "\<exists>s. storm_reach one_upload_codec 1 two_crashes (full_disk False) ''/r'' 2 [] s \<and>
    card {h. h < 2 \<and> st_pc s h = Finished (Inr (Some Allowed))} = 1"
proof -
  note r = two_crashes_run [of False "''/r''"]
  have ok: "rate_time_ok 1000" by code_simp
  have u: "used (parse_or_default one_upload_codec []) ''p'' = []"
    by (simp add: parse_or_default_def one_upload_codec_def used_def rate_default_def)
  show ?thesis
    by (rule exI, rule conjI [OF r], subst storm_admits_exactly_budget [OF one_upload_codec_inverse r _ ok, where scope = "''p''"])
      (auto simp: two_crashes_def u less_2_cases_iff)
qed

text \<open>
  C7. Every crash storm ends, the waits for the lock included: whatever the failures and the
  interleaving, there is no endless series of steps, and where no further step is possible every
  handler has returned. So a handler that waits for the lock gets it, or an error, after
  finitely many steps of the others, even when one of them fails inside its section.
\<close>

theorem storm_ends:
  "wf {(s', s). storm_step codec m job io fd n s s'} \<and>
   (storm_reach codec m job io fd n f0 s \<and> (\<forall>s'. \<not> storm_step codec m job io fd n s s') \<longrightarrow>
     (\<forall>h<n. \<exists>r. st_pc s h = Finished r))"
  using storm_wf stuck_finished by blast

theorem storm_ends_witness:
  "\<exists>r. st_pc \<lparr>st_file = ''J'', st_lock = None,
      st_pc = (\<lambda>_. Called)(1 := Finished (Inl (Fault OpWrite)), 0 := Finished (Inr (Some Allowed))), st_order = [1, 0]\<rparr> 0 = Finished r"
proof -
  let ?s = "\<lparr>st_file = ''J'', st_lock = None,
      st_pc = (\<lambda>_. Called)(1 := Finished (Inl (Fault OpWrite)), 0 := Finished (Inr (Some Allowed))), st_order = [1, 0]\<rparr>"
  have "\<not> storm_step one_upload_codec 1 two_crashes (full_disk True) ''/r'' 2 ?s s'" for s'
    by (auto elim!: storm_step.cases split: if_splits simp: less_2_cases_iff)
  moreover have "storm_reach one_upload_codec 1 two_crashes (full_disk True) ''/r'' 2 [] ?s"
    using two_crashes_run [of True "''/r''"] by simp
  ultimately show ?thesis using storm_ends [of one_upload_codec 1 two_crashes "full_disk True" "''/r''" 2 "[]" ?s] by auto
qed

end
