(* ===== verification/Rust_Num.thy ===== *)
theory Rust_Num
  imports Rust_Str
begin

text \<open>
  Decimal integers: \<open>Display\<close> for the integer types and \<open>FromStr\<close> (\<open>parse()\<close>), with their
  round trip and the injectivity that the object keys rely on.
\<close>

section \<open>Printing\<close>

definition digit_char :: "nat \<Rightarrow> char" where
  "digit_char d = char_of (48 + d)"

fun show_nat :: "nat \<Rightarrow> string" where
  "show_nat n = (if n < 10 then [digit_char n] else show_nat (n div 10) @ [digit_char (n mod 10)])"

declare show_nat.simps [simp del]

definition show_int :: "int \<Rightarrow> string" where
  "show_int i = (if i < 0 then CHR ''-'' # show_nat (nat (- i)) else show_nat (nat i))"

section \<open>Parsing\<close>

definition digit_val :: "char \<Rightarrow> nat" where
  "digit_val c = byte_val c - 48"

fun digits_val :: "nat \<Rightarrow> string \<Rightarrow> nat option" where
  "digits_val a [] = Some a"
| "digits_val a (c # cs) = (if is_ascii_digit c then digits_val (10 * a + digit_val c) cs else None)"

definition parse_nat :: "string \<Rightarrow> nat option" where
  "parse_nat s = (if s = [] then None else digits_val 0 s)"

text \<open>
  \<open>parse::<T>()\<close> for a signed type with the given range: an optional sign, at least one
  digit, and no overflow. An unsigned type refuses the minus sign.
\<close>

definition parse_signed :: "int \<Rightarrow> int \<Rightarrow> string \<Rightarrow> int option" where
  "parse_signed lo hi s =
     (let v = (case s of
          c # cs \<Rightarrow>
            if c = CHR ''-'' then map_option (\<lambda>n. - int n) (parse_nat cs)
            else if c = CHR ''+'' then map_option int (parse_nat cs)
            else map_option int (parse_nat s)
        | [] \<Rightarrow> None)
      in opt_filter (\<lambda>i. lo \<le> i \<and> i \<le> hi) v)"

definition parse_unsigned :: "nat \<Rightarrow> string \<Rightarrow> nat option" where
  "parse_unsigned hi s =
     (let v = (case s of
          c # cs \<Rightarrow> if c = CHR ''+'' then parse_nat cs else parse_nat s
        | [] \<Rightarrow> None)
      in opt_filter (\<lambda>i. i \<le> hi) v)"

section \<open>Facts\<close>

lemma byte_val_digit_char [rust_num]: "d < 10 \<Longrightarrow> byte_val (digit_char d) = 48 + d"
  by (simp add: digit_char_def of_char_of take_bit_nat_eq_self)

lemma digit_char_digit [rust_num]: "d < 10 \<Longrightarrow> is_ascii_digit (digit_char d)"
  by (simp add: is_ascii_digit_def byte_val_digit_char)

lemma digit_val_digit_char [rust_num]: "d < 10 \<Longrightarrow> digit_val (digit_char d) = d"
  by (simp add: digit_val_def byte_val_digit_char)

lemma show_nat_neq_Nil [simp]: "show_nat n \<noteq> []"
  by (subst show_nat.simps) simp

lemma show_nat_digits: "c \<in> set (show_nat n) \<Longrightarrow> is_ascii_digit c"
proof (induction n rule: show_nat.induct)
  case (1 n)
  then show ?case
    by (subst (asm) (2) show_nat.simps) (auto simp: rust_num split: if_splits)
qed

lemma digits_val_append:
  "digits_val a (s @ t) = Option.bind (digits_val a s) (\<lambda>b. digits_val b t)"
  by (induction a s rule: digits_val.induct) auto

lemma digits_val_show_nat: "digits_val 0 (show_nat n) = Some n"
proof (induction n rule: show_nat.induct)
  case (1 n)
  show ?case
  proof (cases "n < 10")
    case True
    then show ?thesis by (subst show_nat.simps) (simp add: rust_num)
  next
    case False
    with 1 have "digits_val 0 (show_nat (n div 10)) = Some (n div 10)" by simp
    with False show ?thesis
      by (subst show_nat.simps) (simp add: digits_val_append rust_num)
  qed
qed

lemma parse_show_nat [rust_num]: "parse_nat (show_nat n) = Some n"
  by (simp add: parse_nat_def digits_val_show_nat)

lemma show_nat_inj: "show_nat m = show_nat n \<Longrightarrow> m = n"
  by (metis option.inject parse_show_nat)

lemma digit_not_sign: "is_ascii_digit c \<Longrightarrow> c \<noteq> CHR ''-'' \<and> c \<noteq> CHR ''+'' \<and> c \<noteq> CHR ''/''"
  by (auto simp: is_ascii_digit_def)

lemma show_nat_Cons: obtains c cs where "show_nat n = c # cs" "is_ascii_digit c"
  by (metis list.exhaust list.set_intros(1) show_nat_digits show_nat_neq_Nil)

lemma parse_signed_show_int [rust_num]:
  assumes "lo \<le> i" "i \<le> hi"
  shows "parse_signed lo hi (show_int i) = Some i"
proof (cases "i < 0")
  case True
  with assms show ?thesis
    by (simp add: parse_signed_def show_int_def parse_show_nat)
next
  case False
  obtain c cs where c: "show_nat (nat i) = c # cs" "is_ascii_digit c" by (rule show_nat_Cons)
  with False assms digit_not_sign [OF c(2)] parse_show_nat [of "nat i"] show ?thesis
    by (simp add: parse_signed_def show_int_def)
qed

lemma parse_unsigned_show_nat [rust_num]: "n \<le> hi \<Longrightarrow> parse_unsigned hi (show_nat n) = Some n"
proof -
  assume n: "n \<le> hi"
  obtain c cs where c: "show_nat n = c # cs" "is_ascii_digit c" by (rule show_nat_Cons)
  with n digit_not_sign [OF c(2)] parse_show_nat [of n] show ?thesis
    by (simp add: parse_unsigned_def)
qed

lemma parse_signed_range: "parse_signed lo hi s = Some i \<Longrightarrow> lo \<le> i \<and> i \<le> hi"
  by (auto simp: parse_signed_def Let_def opt_filter_def split: option.splits if_splits)

lemma show_int_inj: "show_int i = show_int j \<Longrightarrow> i = j"
proof -
  assume eq: "show_int i = show_int j"
  let ?lo = "min i j" and ?hi = "max i j"
  have "parse_signed ?lo ?hi (show_int i) = Some i" by (rule parse_signed_show_int) auto
  moreover have "parse_signed ?lo ?hi (show_int j) = Some j" by (rule parse_signed_show_int) auto
  ultimately show "i = j" using eq by (metis option.inject)
qed

lemma show_int_neq_Nil [simp]: "show_int i \<noteq> []"
  by (simp add: show_int_def)

lemma show_int_chars: "c \<in> set (show_int i) \<Longrightarrow> is_ascii_digit c \<or> c = CHR ''-''"
  by (auto simp: show_int_def dest: show_nat_digits split: if_splits)

lemma show_int_no_slash: "CHR ''/'' \<notin> set (show_int i)"
  using show_int_chars digit_not_sign by fastforce

text \<open>
  A printed integer followed by a minus sign can be cut off again: the printed part is an
  optional sign and digits, so the first minus sign after a digit ends it.
\<close>

lemma digits_dash_unique:
  assumes "a @ CHR ''-'' # b = c @ CHR ''-'' # d"
    and "CHR ''-'' \<notin> set a" "CHR ''-'' \<notin> set c"
  shows "a = c \<and> b = d"
  using assms by (metis option.inject prod.inject split_once_append)

lemma show_nat_no_dash: "CHR ''-'' \<notin> set (show_nat n)"
  using show_nat_digits digit_not_sign by blast

lemma show_int_hd: "hd (show_int i @ s) = CHR ''-'' \<longleftrightarrow> i < 0"
proof -
  obtain c cs where "show_nat (nat i) = c # cs" "is_ascii_digit c" by (rule show_nat_Cons)
  with digit_not_sign [of c] show ?thesis by (simp add: show_int_def)
qed

lemma show_int_dash_unique:
  assumes "show_int i @ CHR ''-'' # s = show_int j @ CHR ''-'' # t"
  shows "i = j \<and> s = t"
proof -
  have sign: "i < 0 \<longleftrightarrow> j < 0"
    using assms show_int_hd by metis
  have "show_int i = show_int j \<and> s = t"
  proof (cases "i < 0")
    case True
    with sign assms have "show_nat (nat (- i)) @ CHR ''-'' # s = show_nat (nat (- j)) @ CHR ''-'' # t"
      by (simp add: show_int_def)
    from digits_dash_unique [OF this show_nat_no_dash show_nat_no_dash] True sign
    show ?thesis by (simp add: show_int_def)
  next
    case False
    with sign assms have "show_nat (nat i) @ CHR ''-'' # s = show_nat (nat j) @ CHR ''-'' # t"
      by (simp add: show_int_def)
    from digits_dash_unique [OF this show_nat_no_dash show_nat_no_dash] False sign
    show ?thesis by (simp add: show_int_def)
  qed
  then show ?thesis using show_int_inj by blast
qed

end
