(* ===== verification/Rate_Limit_File.thy ===== *)
theory Rate_Limit_File
  imports Rate_Limit_Conc Rust_Num "HOL-Library.Countable"
begin

text \<open>
  The limiter on its state file, from end to end: where the directory of the state file is
  there and no call fails, every check and every refund completes, so a handler's decisions
  are those of the abstract limiter. The unit tests of \<open>src/ratelimit.rs\<close> are then runs of it.
\<close>

text \<open>For evaluation, the saturating conversion compares integers.\<close>

lemma u32_saturate_code [code]: "u32_saturate n = (if int n < 4294967296 then of_int (int n) else - 1)"
  by (simp add: u32_saturate_def)

section \<open>A healthy file system\<close>

definition rate_home :: "rate_limiter \<Rightarrow> fs \<Rightarrow> bool" where
  "rate_home rl s \<longleftrightarrow>
     (case path_parent (rl_state_path rl) of
        None \<Rightarrow> False
      | Some d \<Rightarrow> d \<noteq> [] \<and> (\<exists>m. s d = Some (Dir m)) \<and> list_all (is_dir s) (path_ancestors d)) \<and>
     (s (rl_state_path rl) = None \<or> (\<exists>c m. s (rl_state_path rl) = Some (File c m)))"

lemma is_dir_mono:
  assumes "is_dir s a" "same_links s s'" "\<And>q m. s q = Some (Dir m) \<Longrightarrow> \<exists>m'. s' q = Some (Dir m')"
  shows "is_dir s' a"
  using assms by (auto simp: is_dir_def node_at_def same_links_follow bind_eq_Some_conv)

lemma rate_home_mono:
  assumes "rate_home rl s" "same_links s s'" "\<And>q m. s q = Some (Dir m) \<Longrightarrow> \<exists>m'. s' q = Some (Dir m')"
    and "s' (rl_state_path rl) = None \<or> (\<exists>c m. s' (rl_state_path rl) = Some (File c m))"
  shows "rate_home rl s'"
proof -
  have "list_all (is_dir s') ps" if "list_all (is_dir s) ps" for ps
    using that is_dir_mono [OF _ assms(2,3)] by (auto simp: list_all_iff)
  with assms show ?thesis by (fastforce simp: rate_home_def split: option.splits)
qed

text \<open>Nothing but one file and the modes of directories differs.\<close>

definition differs_at :: "path \<Rightarrow> fs \<Rightarrow> fs \<Rightarrow> bool" where
  "differs_at p s s' \<longleftrightarrow> same_links s s' \<and>
     (\<forall>q. q \<noteq> p \<longrightarrow> s' q = s q \<or> (\<exists>m m'. s q = Some (Dir m) \<and> s' q = Some (Dir m')))"

lemma differs_at_refl [simp]: "differs_at p s s"
  by (simp add: differs_at_def same_links_def)

lemma differs_at_trans [trans]: "differs_at p s t \<Longrightarrow> differs_at p t u \<Longrightarrow> differs_at p s u"
proof -
  assume a: "differs_at p s t" "differs_at p t u"
  have "u q = s q \<or> (\<exists>m m'. s q = Some (Dir m) \<and> u q = Some (Dir m'))" if "q \<noteq> p" for q
    using a that unfolding differs_at_def by (metis option.inject)
  with a show ?thesis using same_links_trans unfolding differs_at_def by blast
qed

lemma differs_at_read:
  assumes "differs_at p s s'" "follow s q \<noteq> Some p"
  shows "fs_read io s' q = fs_read io s q"
proof (cases "follow s q")
  case (Some r)
  moreover have "follow s' q = follow s q" using assms(1) by (simp add: differs_at_def same_links_follow)
  moreover from assms Some have "s' r = s r \<or> (\<exists>m m'. s r = Some (Dir m) \<and> s' r = Some (Dir m'))" by (auto simp: differs_at_def)
  ultimately show ?thesis by (auto simp: fs_read_def node_at_def)
qed (use assms in \<open>auto simp: fs_read_def node_at_def differs_at_def same_links_follow\<close>)

lemma private_parent_home:
  assumes "rate_home rl s" "\<And>op x. \<not> io_fails io op x"
  shows "\<exists>s1. private_parent io rl create s = (Inr (), s1) \<and> rate_home rl s1 \<and> s1 (rl_state_path rl) = s (rl_state_path rl) \<and>
    differs_at (rl_state_path rl) s s1"
proof (cases create)
  case True
  from assms(1) obtain d m where d: "path_parent (rl_state_path rl) = Some d" "s d = Some (Dir m)" "list_all (is_dir s) (path_ancestors d)"
    by (auto simp: rate_home_def split: option.splits)
  have ne: "rl_state_path rl \<noteq> d" using assms(1) d(2) by (auto simp: rate_home_def)
  have fl: "follow s d = Some d" using d(2) by (simp add: follow_plain)
  have "private_parent io rl create s = (Inr (), s(d \<mapsto> Dir mode_700))"
    using True d(1) mkdirs_present [OF d(3)] set_permissions_ok [OF fl d(2)] assms(2)
    by (simp add: private_parent_def ensure_private_dir_def create_dir_all_def)
  moreover have "rate_home rl (s(d \<mapsto> Dir mode_700))"
    by (rule rate_home_mono [OF assms(1)]) (use d(2) assms(1) in \<open>auto simp: same_links_def rate_home_def\<close>)
  moreover have "differs_at (rl_state_path rl) s (s(d \<mapsto> Dir mode_700))"
    using d(2) by (auto simp: differs_at_def same_links_def)
  ultimately show ?thesis using ne by simp
qed (use assms in \<open>auto simp: private_parent_def split: option.splits\<close>)

text \<open>There, a locked update completes.\<close>

lemma with_locked_state_total:
  assumes h: "rate_home rl s" and io: "\<And>op x. \<not> io_fails io op x"
    and c: "create \<or> s (rl_state_path rl) \<noteq> None" and j: "rc_print codec (snd (update (rate_abs codec rl s))) = Some json"
  shows "\<exists>s'. with_locked_state codec io rl create update s = (Inr (fst (update (rate_abs codec rl s))), s') \<and> rate_home rl s' \<and>
    differs_at (rl_state_path rl) s s'"
proof -
  let ?p = "rl_state_path rl"
  obtain s1 where s1: "private_parent io rl create s = (Inr (), s1)" "rate_home rl s1" "s1 ?p = s ?p" "differs_at ?p s s1"
    using private_parent_home [OF h io] by blast
  have fl: "follow s1 ?p = Some ?p" "follow s ?p = Some ?p"
    using s1 h by (auto simp: rate_home_def intro!: follow_plain)
  have "path_parent ?p \<noteq> None" using h by (auto simp: rate_home_def split: option.splits)
  then have "parent_is_dir s1 ?p"
    using s1(2) by (auto simp: rate_home_def parent_is_dir_def is_dir_def node_at_plain)
  define cont where "cont = file_content s ?p"
  obtain s2 m where o: "open_rw io s1 create ?p mode_600 = (Inr ?p, s2)" "s2 = s1(?p \<mapsto> File cont m)"
  proof (cases "s ?p")
    case None
    with c \<open>parent_is_dir s1 ?p\<close> s1(3) fl(1) io that show thesis by (simp add: open_rw_def cont_def file_content_def)
  next
    case (Some n)
    with h obtain c0 m0 where "n = File c0 m0" by (auto simp: rate_home_def)
    with Some s1(3) have "s1 = s1(?p \<mapsto> File cont m0)" by (auto simp: fun_eq_iff cont_def file_content_def)
    with Some \<open>n = _\<close> s1(3) fl(1) io that show thesis by (simp add: open_rw_def)
  qed
  have p: "set_permissions io s2 ?p mode_600 = (Inr (), s1(?p \<mapsto> File cont mode_600))"
    using io o(2) by (simp add: set_permissions_def follow_plain)
  have abs: "unwrap_or (rc_parse codec cont) rate_default = rate_abs codec rl s"
    using fl(2) by (simp add: rate_abs_def cont_def)
  obtain x st where u: "update (rate_abs codec rl s) = (x, st)" by fastforce
  have "with_locked_state codec io rl create update s = (Inr x, s1(?p \<mapsto> File json mode_600))"
    using s1(1) o(1) p j io abs u
    by (simp add: with_locked_state_def private_parent_def [symmetric] file_content_def set_content_def write_all_def Let_def)
  moreover have "rate_home rl (s1(?p \<mapsto> File json mode_600))"
    by (rule rate_home_mono [OF s1(2)]) (use s1(2) in \<open>auto simp: same_links_def rate_home_def\<close>)
  moreover have "differs_at ?p s1 (s1(?p \<mapsto> File json mode_600))"
    using s1(2) by (auto simp: differs_at_def same_links_def rate_home_def)
  ultimately show ?thesis using u s1(4) differs_at_trans by (metis fst_conv)
qed

section \<open>A codec\<close>

text \<open>
  A text form of the state that reads back what it printed and takes every state of finitely many
  pods: the list of the entries, in a fixed order of the pods, as a decimal number.
\<close>

definition entry_list :: "(string \<rightharpoonup> int list) \<Rightarrow> (string \<times> int list) list" where
  "entry_list ev = map (\<lambda>n. (from_nat n, the (ev (from_nat n)))) (sorted_list_of_set (to_nat ` dom ev))"

lemma map_of_entry_list:
  assumes "finite (dom ev)"
  shows "map_of (entry_list ev) = ev"
proof
  fix k
  let ?ks = "map from_nat (sorted_list_of_set (to_nat ` dom ev)) :: string list"
  have "entry_list ev = map (\<lambda>p. (p, the (ev p))) ?ks" by (simp add: entry_list_def)
  then have "map_of (entry_list ev) k = (if k \<in> set ?ks then Some (the (ev k)) else None)"
    by (simp only: map_of_map_restrict restrict_map_def comp_apply)
  moreover have "set ?ks = dom ev" using assms by (auto simp: image_iff domIff)
  ultimately show "map_of (entry_list ev) k = ev k" by (auto simp: domIff)
qed

definition decimal_codec :: rate_codec where
  "decimal_codec =
     \<lparr>rc_parse = (\<lambda>b. map_option (\<lambda>n. \<lparr>rs_events = map_of (from_nat n)\<rparr>) (parse_nat b)),
      rc_print = (\<lambda>st. if finite (dom (rs_events st)) then Some (show_nat (to_nat (entry_list (rs_events st)))) else None)\<rparr>"

text \<open>
  What the limiter's file relies on in \<open>serde_json\<close>: it prints every state of finitely many pods,
  reads back what it printed, reads no other states, and refuses an empty file.
\<close>

definition lossless :: "rate_codec \<Rightarrow> bool" where
  "lossless codec \<longleftrightarrow>
     (\<forall>st json. rc_print codec st = Some json \<longrightarrow> rc_parse codec json = Some st) \<and>
     (\<forall>st. finite (dom (rs_events st)) \<longrightarrow> rc_print codec st \<noteq> None) \<and>
     (\<forall>b st. rc_parse codec b = Some st \<longrightarrow> finite (dom (rs_events st))) \<and> rc_parse codec [] = None"

lemma decimal_codec_lossless: "lossless decimal_codec"
proof -
  have "parse_nat [] = None" by code_simp
  then show ?thesis
    by (auto simp: lossless_def decimal_codec_def parse_show_nat map_of_entry_list finite_dom_map_of split: if_splits)
qed

lemma finite_rate_abs: "lossless codec \<Longrightarrow> finite (dom (rs_events (rate_abs codec rl s)))"
proof -
  assume l: "lossless codec"
  have "finite (dom (rs_events (unwrap_or (rc_parse codec b) rate_default)))" for b
    using l by (cases "rc_parse codec b") (auto simp: lossless_def rate_default_def)
  then show ?thesis by (simp add: rate_abs_def rate_default_def split: option.split)
qed

section \<open>Sequences of checks and refunds\<close>

text \<open>What one handler after the other asks of the limiter.\<close>

definition file_job :: "rate_codec \<Rightarrow> io_env \<Rightarrow> rate_limiter \<Rightarrow> rate_job \<Rightarrow> fs \<Rightarrow> rate_decision option \<times> fs" where
  "file_job codec io rl j s =
     (case j of
        Check scope now \<Rightarrow> apfst Some (check_and_record codec io rl scope now s)
      | Refund scope recorded_at \<Rightarrow> (None, refund codec io rl scope recorded_at s))"

abbreviation file_jobs :: "rate_codec \<Rightarrow> io_env \<Rightarrow> rate_limiter \<Rightarrow> rate_job list \<Rightarrow> fs \<Rightarrow> rate_decision option list \<times> fs" where
  "file_jobs codec io rl \<equiv> run_steps (file_job codec io rl)"

definition healthy_limiter :: "rate_codec \<Rightarrow> io_env \<Rightarrow> rate_limiter \<Rightarrow> fs \<Rightarrow> bool" where
  "healthy_limiter codec io rl s \<longleftrightarrow> lossless codec \<and> rate_home rl s \<and> (\<forall>op x. \<not> io_fails io op x)"

definition job_refined :: "rate_codec \<Rightarrow> io_env \<Rightarrow> rate_limiter \<Rightarrow> rate_job \<Rightarrow> fs \<Rightarrow> bool" where
  "job_refined codec io rl j s \<longleftrightarrow>
     fst (file_job codec io rl j s) = fst (job_update (rl_max_per_hour rl) j (rate_abs codec rl s)) \<and>
     rate_abs codec rl (snd (file_job codec io rl j s)) = snd (job_update (rl_max_per_hour rl) j (rate_abs codec rl s)) \<and>
     healthy_limiter codec io rl (snd (file_job codec io rl j s)) \<and>
     differs_at (rl_state_path rl) s (snd (file_job codec io rl j s))"

text \<open>A locked update through a healthy file is the update of the state that it stands for.\<close>

lemma locked_update_total:
  assumes hl: "healthy_limiter codec io rl s" and c: "create \<or> s (rl_state_path rl) \<noteq> None"
    and p: "rc_print codec (snd (u (rate_abs codec rl s))) \<noteq> None"
  obtains s' where "with_locked_state codec io rl create u s = (Inr (fst (u (rate_abs codec rl s))), s')"
    "rate_abs codec rl s' = snd (u (rate_abs codec rl s))" "healthy_limiter codec io rl s'" "differs_at (rl_state_path rl) s s'"
proof -
  from hl have rt: "\<And>st json. rc_print codec st = Some json \<Longrightarrow> rc_parse codec json = Some st"
    and h: "rate_home rl s" and io: "\<And>op x. \<not> io_fails io op x"
    by (auto simp: healthy_limiter_def lossless_def)
  from p obtain json where "rc_print codec (snd (u (rate_abs codec rl s))) = Some json" by blast
  from with_locked_state_total [where update = u, OF h io _ this, of create] c obtain s' where
    s': "with_locked_state codec io rl create u s = (Inr (fst (u (rate_abs codec rl s))), s')" "rate_home rl s'"
      "differs_at (rl_state_path rl) s s'" by auto
  have "rate_abs codec rl s' = snd (u (rate_abs codec rl s))" using rate_abs_refines(1) [OF rt s'(1)] by (metis snd_conv)
  then show thesis using that [OF s'(1)] s'(2,3) hl by (simp add: healthy_limiter_def)
qed

lemma job_printed:
  assumes "healthy_limiter codec io rl s"
  shows "rc_print codec (snd (job_update m j (rate_abs codec rl s))) \<noteq> None"
proof -
  from assms have l: "lossless codec" by (simp add: healthy_limiter_def)
  from finite_job_update [OF finite_rate_abs [OF l]] l show ?thesis unfolding lossless_def by blast
qed

lemma check_total:
  assumes "healthy_limiter codec io rl s" "rl_max_per_hour rl \<noteq> 0"
  shows "job_refined codec io rl (Check scope now) s"
proof -
  let ?u = "check_update (rl_max_per_hour rl) scope now"
  have "rc_print codec (snd (?u (rate_abs codec rl s))) \<noteq> None"
    using job_printed [OF assms(1), of "rl_max_per_hour rl" "Check scope now"] assms(2) by (simp add: job_update_def case_prod_beta Let_def)
  from locked_update_total [where u = ?u and create = True, OF assms(1) _ this] obtain s' where
    "with_locked_state codec io rl True ?u s = (Inr (fst (?u (rate_abs codec rl s))), s')"
    "rate_abs codec rl s' = snd (?u (rate_abs codec rl s))" "healthy_limiter codec io rl s'" "differs_at (rl_state_path rl) s s'" by blast
  with assms(2) show ?thesis
    by (simp add: job_refined_def file_job_def job_update_def check_and_record_def locked_check_and_record_def
        prod_eq_iff split: prod.splits)
qed

lemma refund_total:
  assumes "healthy_limiter codec io rl s" "rl_max_per_hour rl \<noteq> 0"
  shows "job_refined codec io rl (Refund scope a) s"
proof (cases "s (rl_state_path rl) = None")
  case True
  have io: "\<And>op x. \<not> io_fails io op x" and e: "rc_parse codec [] = None"
    using assms(1) by (simp_all add: healthy_limiter_def lossless_def)
  from True have fl: "follow s (rl_state_path rl) = Some (rl_state_path rl)" by (simp add: follow_plain)
  with True io have "refund codec io rl scope a s = s"
    by (simp add: refund_def locked_refund_def with_locked_state_def open_rw_def split: option.split)
  moreover have "rate_abs codec rl s = rate_default" using fl True e by (simp add: rate_abs_def file_content_def)
  ultimately show ?thesis using assms
    by (simp add: job_refined_def file_job_def job_update_def refund_update_def rate_default_def)
next
  case False
  let ?u = "\<lambda>st. ((), refund_update scope a st)"
  have "rc_print codec (snd (?u (rate_abs codec rl s))) \<noteq> None"
    using job_printed [OF assms(1), of "rl_max_per_hour rl" "Refund scope a"] assms(2) by (simp add: job_update_def)
  from locked_update_total [where u = ?u and create = False, OF assms(1) _ this] False obtain s' where
    "with_locked_state codec io rl False ?u s = (Inr (), s')" "rate_abs codec rl s' = refund_update scope a (rate_abs codec rl s)"
    "healthy_limiter codec io rl s'" "differs_at (rl_state_path rl) s s'" by auto
  with assms(2) show ?thesis by (simp add: job_refined_def file_job_def job_update_def refund_def locked_refund_def)
qed

lemma file_job_total:
  assumes "healthy_limiter codec io rl s"
  shows "fst (file_job codec io rl j s) = fst (job_update (rl_max_per_hour rl) j (rate_abs codec rl s)) \<and>
    rate_abs codec rl (snd (file_job codec io rl j s)) = snd (job_update (rl_max_per_hour rl) j (rate_abs codec rl s)) \<and>
    healthy_limiter codec io rl (snd (file_job codec io rl j s)) \<and>
    differs_at (rl_state_path rl) s (snd (file_job codec io rl j s))"
proof (cases "rl_max_per_hour rl = 0")
  case True
  with assms show ?thesis by (cases j) (simp_all add: file_job_def job_update_def check_and_record_def refund_def)
next
  case False
  then show ?thesis unfolding job_refined_def [symmetric]
    using check_total [OF assms] refund_total [OF assms] by (cases j) simp_all
qed

interpretation limiter_file: simulation "healthy_limiter codec io rl" "\<lambda>_. True" "rate_abs codec rl"
    "file_job codec io rl" "job_update (rl_max_per_hour rl)" for codec io rl
  by unfold_locales (use file_job_total in blast)+

section \<open>Properties\<close>

text \<open>
  C21. The limiter does enforce the budget. Where the directory of the state file is there and no
  call fails, any sequence of checks and refunds of any pods decides exactly as the abstract
  limiter does from the state that the file stands for, and leaves the file standing for the
  abstract limiter's final state. Of \<open>serde_json\<close> it is assumed that it prints the states of finitely
  many pods, reads back what it printed, and refuses an empty file.
\<close>

theorem limiter_file_total:
  assumes "lossless codec" "rate_home rl s" "\<And>op x. \<not> io_fails io op x"
  shows "fst (file_jobs codec io rl jobs s) = fst (run_steps (job_update (rl_max_per_hour rl)) jobs (rate_abs codec rl s)) \<and>
    rate_abs codec rl (snd (file_jobs codec io rl jobs s)) =
      snd (run_steps (job_update (rl_max_per_hour rl)) jobs (rate_abs codec rl s))"
  using limiter_file.series [of codec io rl s jobs] assms by (simp add: healthy_limiter_def list_all_iff)

theorem limiter_file_total_witness:
  "fst (file_jobs decimal_codec no_faults \<lparr>rl_state_path = ''/r'', rl_max_per_hour = 1\<rparr> [Check ''p'' 1000, Check ''p'' 1001, Refund ''p'' 1000]
      [''/'' \<mapsto> Dir mode_755]) = [Some Allowed, Some (Suppressed 1), None]"
proof -
  let ?rl = "\<lparr>rl_state_path = ''/r'', rl_max_per_hour = 1\<rparr>" and ?s = "[''/'' \<mapsto> Dir mode_755] :: fs"
  let ?js = "[Check ''p'' 1000, Check ''p'' 1001, Refund ''p'' 1000]"
  have h: "rate_home ?rl ?s" by (simp add: rate_home_def rate_file_example_simps)
  have a: "rate_abs decimal_codec ?rl ?s = rate_default"
    using decimal_codec_lossless by (simp add: rate_abs_def rate_file_example_simps lossless_def)
  have "fst (run_steps (job_update 1) ?js rate_default) = [Some Allowed, Some (Suppressed 1), None]" by code_simp
  with limiter_file_total [OF decimal_codec_lossless h, of no_faults ?js] a show ?thesis by simp
qed

end
