(* ===== verification/Build_Id.thy ===== *)
theory Build_Id
  imports Filesystem
begin

text \<open>
  \<open>src/buildid.rs\<close>: the GNU build-id of an executable, read from its program headers and note
  segments. Offsets are \<open>usize\<close> words and wrap as the code's do. The outcome of a parse is an
  id, \<open>None\<close>, or a panic: an index out of range, or an addition that overflows when the
  build checks for it (the first argument \<open>chk\<close> of the functions; the shipped release build
  does not). The \<open>while\<close> loop of \<open>scan_notes\<close> is a partial function whose value is none when
  it does not end, and it is proved to end.
\<close>

section \<open>Outcomes\<close>

datatype 'a parsed = Got 'a | Nothing | Panic

definition pbind :: "'a parsed \<Rightarrow> ('a \<Rightarrow> 'b parsed) \<Rightarrow> 'b parsed" where
  "pbind m f = (case m of Got x \<Rightarrow> f x | Nothing \<Rightarrow> Nothing | Panic \<Rightarrow> Panic)"

lemma pbind_simps [simp]: "pbind (Got x) f = f x" "pbind Nothing f = Nothing" "pbind Panic f = Panic"
  by (simp_all add: pbind_def)

lemma pbind_Got: "pbind m f = Got y \<longleftrightarrow> (\<exists>x. m = Got x \<and> f x = Got y)"
  by (cases m) auto

lemma pbind_Panic: "pbind m f = Panic \<longleftrightarrow> m = Panic \<or> (\<exists>x. m = Got x \<and> f x = Panic)"
  by (cases m) auto

fun of_opt :: "'a option \<Rightarrow> 'a parsed" where
  "of_opt None = Nothing"
| "of_opt (Some x) = Got x"

lemma of_opt_cases [simp]:
  "of_opt x = Got y \<longleftrightarrow> x = Some y" "of_opt x \<noteq> Panic" "of_opt x = Nothing \<longleftrightarrow> x = None"
  by (cases x; simp)+

text \<open>\<open>a + b\<close> on \<open>usize\<close>.\<close>

definition usize_add :: "bool \<Rightarrow> usize \<Rightarrow> usize \<Rightarrow> usize parsed" where
  "usize_add chk a b = (if chk \<and> 2 ^ 64 \<le> unat a + unat b then Panic else Got (a + b))"

text \<open>\<open>b.get(s..e)\<close> and \<open>b[s..e]\<close>.\<close>

definition slice_get :: "bytes \<Rightarrow> usize \<Rightarrow> usize \<Rightarrow> bytes option" where
  "slice_get b s e =
     (if s \<le> e \<and> unat e \<le> length b then Some (take (unat e - unat s) (drop (unat s) b)) else None)"

definition slice_index :: "bytes \<Rightarrow> usize \<Rightarrow> usize \<Rightarrow> bytes parsed" where
  "slice_index b s e = (case slice_get b s e of Some x \<Rightarrow> Got x | None \<Rightarrow> Panic)"

definition byte_index :: "bytes \<Rightarrow> nat \<Rightarrow> char parsed" where
  "byte_index b i = (if i < length b then Got (b ! i) else Panic)"

section \<open>Constants and integer reads\<close>

definition NT_GNU_BUILD_ID :: u32 where "NT_GNU_BUILD_ID = 3"
definition PT_NOTE :: u32 where "PT_NOTE = 4"
definition MAX_ELF_PREFIX :: nat where "MAX_ELF_PREFIX = 2 * 1024 * 1024"

fun le_nat :: "bytes \<Rightarrow> nat" where
  "le_nat [] = 0"
| "le_nat (c # cs) = byte_val c + 256 * le_nat cs"

text \<open>\<open>from_le_bytes\<close> and \<open>from_be_bytes\<close>.\<close>

definition from_bytes :: "bool \<Rightarrow> bytes \<Rightarrow> 'n::len word" where
  "from_bytes le s = of_nat (le_nat (if le then s else rev s))"

definition read_u16 :: "bool \<Rightarrow> bytes \<Rightarrow> usize \<Rightarrow> bool \<Rightarrow> u16 parsed" where
  "read_u16 chk b i le =
     pbind (usize_add chk i 2) (\<lambda>e. pbind (of_opt (slice_get b i e)) (\<lambda>s. Got (from_bytes le s)))"

definition read_u32 :: "bool \<Rightarrow> bytes \<Rightarrow> usize \<Rightarrow> bool \<Rightarrow> u32 parsed" where
  "read_u32 chk b i le =
     pbind (usize_add chk i 4) (\<lambda>e. pbind (of_opt (slice_get b i e)) (\<lambda>s. Got (from_bytes le s)))"

definition read_u64 :: "bool \<Rightarrow> bytes \<Rightarrow> usize \<Rightarrow> bool \<Rightarrow> u64 parsed" where
  "read_u64 chk b i le =
     pbind (usize_add chk i 8) (\<lambda>e. pbind (of_opt (slice_get b i e)) (\<lambda>s. Got (from_bytes le s)))"

section \<open>Hexadecimal\<close>

definition HEX :: string where "HEX = ''0123456789abcdef''"

fun hex :: "bytes \<Rightarrow> string" where
  "hex [] = []"
| "hex (b # bs) = HEX ! (byte_val b div 16) # HEX ! (byte_val b mod 16) # hex bs"

section \<open>Notes and program headers\<close>

text \<open>\<open>(n + 3) & !3\<close>\<close>

definition align4 :: "usize \<Rightarrow> usize" where
  "align4 n = and (n + 3) (not 3)"

definition usize_len :: "bytes \<Rightarrow> usize" where
  "usize_len b = of_nat (length b)"

text \<open>
  One turn of the loop: the id found, the next position, or the end of the search (the loop
  condition fails, a read fails, or \<open>break\<close>).
\<close>

definition note_step :: "bool \<Rightarrow> bytes \<Rightarrow> bool \<Rightarrow> usize \<Rightarrow> (string + usize) parsed" where
  "note_step chk notes le pos =
     pbind (usize_add chk pos 12) (\<lambda>name_start.
     if \<not> name_start \<le> usize_len notes then Nothing
     else
       pbind (read_u32 chk notes pos le) (\<lambda>namesz.
       pbind (pbind (usize_add chk pos 4) (\<lambda>p. read_u32 chk notes p le)) (\<lambda>descsz.
       pbind (pbind (usize_add chk pos 8) (\<lambda>p. read_u32 chk notes p le)) (\<lambda>ntype.
       pbind (of_opt (checked_add name_start (ucast namesz))) (\<lambda>name_end.
       pbind (usize_add chk name_start (align4 (ucast namesz))) (\<lambda>desc_start.
       pbind (of_opt (checked_add desc_start (ucast descsz))) (\<lambda>desc_end.
         if \<not> desc_end \<le> usize_len notes then Nothing
         else
           pbind (if ntype = NT_GNU_BUILD_ID
                  then pbind (of_opt (slice_get notes name_start name_end)) (\<lambda>name. Got (starts_with ''GNU'' name))
                  else Got False) (\<lambda>hit.
           if hit then pbind (slice_index notes desc_start desc_end) (\<lambda>d. Got (Inl (hex d)))
           else pbind (usize_add chk desc_start (align4 (ucast descsz))) (\<lambda>pos'. Got (Inr pos'))))))))))"

partial_function (option) scan_notes :: "bool \<Rightarrow> bytes \<Rightarrow> bool \<Rightarrow> usize \<Rightarrow> string parsed option" where
  "scan_notes chk notes le pos =
     (case note_step chk notes le pos of
        Panic \<Rightarrow> Some Panic
      | Nothing \<Rightarrow> Some Nothing
      | Got r \<Rightarrow> (case r of Inl i \<Rightarrow> Some (Got i) | Inr pos' \<Rightarrow> scan_notes chk notes le pos'))"

text \<open>
  One program header: \<open>None\<close> where the loop continues, else the bytes of its note segment.
\<close>

definition ph_notes :: "bool \<Rightarrow> bytes \<Rightarrow> bool \<Rightarrow> bool \<Rightarrow> u64 \<Rightarrow> u64 \<Rightarrow> u64 \<Rightarrow> bytes option parsed" where
  "ph_notes chk elf is64 le phoff phentsize i =
     pbind (of_opt (checked_mul i phentsize)) (\<lambda>m.
     pbind (of_opt (checked_add phoff m)) (\<lambda>off.
     pbind (read_u32 chk elf off le) (\<lambda>ptype.
     if ptype \<noteq> PT_NOTE then Got None
     else
       pbind (if is64
              then pbind (pbind (usize_add chk off 8) (\<lambda>p. read_u64 chk elf p le)) (\<lambda>p_offset.
                   pbind (pbind (usize_add chk off 32) (\<lambda>p. read_u64 chk elf p le)) (\<lambda>p_filesz.
                   Got (p_offset, p_filesz)))
              else pbind (pbind (usize_add chk off 4) (\<lambda>p. read_u32 chk elf p le)) (\<lambda>p_offset.
                   pbind (pbind (usize_add chk off 16) (\<lambda>p. read_u32 chk elf p le)) (\<lambda>p_filesz.
                   Got (ucast p_offset, ucast p_filesz)))) (\<lambda>(p_offset, p_filesz).
       pbind (of_opt (checked_add p_offset p_filesz)) (\<lambda>e.
       pbind (of_opt (slice_get elf p_offset e)) (\<lambda>notes. Got (Some notes)))))))"

fun ph_loop :: "bool \<Rightarrow> bytes \<Rightarrow> bool \<Rightarrow> bool \<Rightarrow> u64 \<Rightarrow> u64 \<Rightarrow> u64 list \<Rightarrow> string parsed option" where
  "ph_loop chk elf is64 le phoff phentsize [] = Some Nothing"
| "ph_loop chk elf is64 le phoff phentsize (i # is) =
     (case ph_notes chk elf is64 le phoff phentsize i of
        Panic \<Rightarrow> Some Panic
      | Nothing \<Rightarrow> Some Nothing
      | Got None \<Rightarrow> ph_loop chk elf is64 le phoff phentsize is
      | Got (Some notes) \<Rightarrow>
          (case scan_notes chk notes le 0 of
             None \<Rightarrow> None
           | Some Panic \<Rightarrow> Some Panic
           | Some (Got i) \<Rightarrow> Some (Got i)
           | Some Nothing \<Rightarrow> ph_loop chk elf is64 le phoff phentsize is))"

definition elf_magic :: bytes where "elf_magic = CHR 0x7F # ''ELF''"

definition ph_table :: "bool \<Rightarrow> bytes \<Rightarrow> bool \<Rightarrow> bool \<Rightarrow> (u64 \<times> u64 \<times> u64) parsed" where
  "ph_table chk elf is64 le =
     (if is64
      then pbind (read_u64 chk elf 0x20 le) (\<lambda>phoff.
           pbind (read_u16 chk elf 0x36 le) (\<lambda>phentsize.
           pbind (read_u16 chk elf 0x38 le) (\<lambda>phnum. Got (phoff, ucast phentsize, ucast phnum))))
      else pbind (read_u32 chk elf 0x1C le) (\<lambda>phoff.
           pbind (read_u16 chk elf 0x2A le) (\<lambda>phentsize.
           pbind (read_u16 chk elf 0x2C le) (\<lambda>phnum. Got (ucast phoff, ucast phentsize, ucast phnum)))))"

definition elf_class :: "bytes \<Rightarrow> (bool \<times> bool) parsed" where
  "elf_class elf =
     pbind (byte_index elf 4) (\<lambda>c.
     pbind (if byte_val c = 1 then Got False else if byte_val c = 2 then Got True else Nothing) (\<lambda>is64.
     pbind (byte_index elf 5) (\<lambda>d.
     pbind (if byte_val d = 1 then Got True else if byte_val d = 2 then Got False else Nothing) (\<lambda>le.
     Got (is64, le)))))"

definition build_id_from_bytes :: "bool \<Rightarrow> bytes \<Rightarrow> string parsed option" where
  "build_id_from_bytes chk elf =
     (if length elf < 64 then Some Nothing
      else (case slice_index elf 0 4 of
          Panic \<Rightarrow> Some Panic
        | Nothing \<Rightarrow> Some Nothing
        | Got m \<Rightarrow>
            if m \<noteq> elf_magic then Some Nothing
            else (case pbind (elf_class elf) (\<lambda>(is64, le).
                       pbind (ph_table chk elf is64 le) (\<lambda>t. Got (is64, le, t))) of
                Panic \<Rightarrow> Some Panic
              | Nothing \<Rightarrow> Some Nothing
              | Got (is64, le, phoff, phentsize, phnum) \<Rightarrow>
                  ph_loop chk elf is64 le phoff phentsize (map of_nat [0..<unat phnum]))))"

definition build_id_from_path :: "bool \<Rightarrow> io_env \<Rightarrow> fs \<Rightarrow> path \<Rightarrow> string parsed option" where
  "build_id_from_path chk io s p =
     (case fs_read io s p of
        Inl _ \<Rightarrow> Some Nothing
      | Inr c \<Rightarrow> build_id_from_bytes chk (take MAX_ELF_PREFIX c))"

section \<open>Reads\<close>

lemma usize_add_small: "unat a + unat b < 2 ^ 64 \<Longrightarrow> usize_add chk a b = Got (a + b) \<and> unat (a + b) = unat a + unat b"
  by (simp add: usize_add_def unat_word_ariths)

lemma usize_add_release [simp]: "usize_add False a b = Got (a + b)"
  by (simp add: usize_add_def)

lemma slice_get_Some:
  "slice_get b s e = Some x \<Longrightarrow> x = take (unat e - unat s) (drop (unat s) b) \<and> unat s \<le> unat e \<and> unat e \<le> length b"
  by (auto simp: slice_get_def word_le_nat_alt split: if_splits)

text \<open>What a read returns where it returns: the bytes of the image at that offset.\<close>

definition bytes_at :: "bytes \<Rightarrow> nat \<Rightarrow> nat \<Rightarrow> bytes" where
  "bytes_at b i n = take n (drop i b)"

lemma slice_get_add_small:
  assumes "unat i + k < 2 ^ 64" "unat w = k"
  shows "slice_get b i (i + w) = (if unat i + k \<le> length b then Some (bytes_at b (unat i) k) else None)"
proof -
  have "unat (i + w) = unat i + k" using assms by (simp add: unat_word_ariths)
  then show ?thesis by (simp add: slice_get_def word_le_nat_alt bytes_at_def)
qed

lemma slice_get_add_wrap:
  assumes "2 ^ 64 \<le> unat i + unat w" "0 < unat w"
  shows "slice_get b i (i + w) = None"
proof -
  have "unat i < 2 ^ LENGTH(64)" "unat w < 2 ^ LENGTH(64)" by (rule unsigned_less)+
  then have "unat (i + w) < unat i"
    using assms by (simp add: unat_word_ariths mod_if) linarith
  then show ?thesis by (simp add: slice_get_def word_le_nat_alt)
qed

lemma slice_get_add:
  assumes "0 < unat w"
  shows "slice_get b i (i + w) =
    (if unat i + unat w < 2 ^ 64 \<and> unat i + unat w \<le> length b then Some (bytes_at b (unat i) (unat w)) else None)"
  using slice_get_add_small [of i "unat w" w b] slice_get_add_wrap [of i w b] assms
  by (cases "unat i + unat w < 2 ^ 64") (auto simp: not_less)

lemma read_u32_Got:
  "read_u32 chk b i le = Got x \<longleftrightarrow>
    unat i + 4 < 2 ^ 64 \<and> unat i + 4 \<le> length b \<and> x = from_bytes le (bytes_at b (unat i) 4)"
  by (auto simp: read_u32_def pbind_Got usize_add_def slice_get_add split: if_splits)

lemma read_u32_Panic: "read_u32 chk b i le = Panic \<longleftrightarrow> chk \<and> 2 ^ 64 \<le> unat i + 4"
  by (auto simp: read_u32_def pbind_Panic usize_add_def split: if_splits)

lemma read_u64_Got:
  "read_u64 chk b i le = Got x \<longleftrightarrow>
    unat i + 8 < 2 ^ 64 \<and> unat i + 8 \<le> length b \<and> x = from_bytes le (bytes_at b (unat i) 8)"
  by (auto simp: read_u64_def pbind_Got usize_add_def slice_get_add split: if_splits)

lemma read_u64_Panic: "read_u64 chk b i le = Panic \<longleftrightarrow> chk \<and> 2 ^ 64 \<le> unat i + 8"
  by (auto simp: read_u64_def pbind_Panic usize_add_def split: if_splits)

lemma read_u16_Got:
  "read_u16 chk b i le = Got x \<longleftrightarrow>
    unat i + 2 < 2 ^ 64 \<and> unat i + 2 \<le> length b \<and> x = from_bytes le (bytes_at b (unat i) 2)"
  by (auto simp: read_u16_def pbind_Got usize_add_def slice_get_add split: if_splits)

lemma read_u16_Panic: "read_u16 chk b i le = Panic \<longleftrightarrow> chk \<and> 2 ^ 64 \<le> unat i + 2"
  by (auto simp: read_u16_def pbind_Panic usize_add_def split: if_splits)

lemmas reads_Got = read_u16_Got read_u32_Got read_u64_Got
lemmas reads_Panic = read_u16_Panic read_u32_Panic read_u64_Panic

lemma align4_minus: "align4 n = (n + 3) - take_bit 2 (n + 3)"
proof -
  let ?x = "n + 3"
  have m: "(3 :: usize) = mask 2" by (simp add: mask_eq_exp_minus_1)
  have "and (not ?x) (take_bit 2 ?x) = 0" by (auto simp: bit_eq_iff bit_simps)
  then have "?x - take_bit 2 ?x = and ?x (not (take_bit 2 ?x))" by (rule disjunctive_diff_eq_and_not)
  also have "\<dots> = and ?x (not (mask 2))" by (auto simp: bit_eq_iff bit_simps)
  finally show ?thesis by (simp add: align4_def m)
qed

lemma unat_align4:
  assumes "unat n < 2 ^ 32"
  shows "unat (align4 n) = (unat n + 3) div 4 * 4"
proof -
  have u: "unat (n + 3) = unat n + 3" using assms by (simp add: unat_word_ariths)
  have t: "unat (take_bit 2 (n + 3)) = (unat n + 3) mod 4"
    by (simp only: unsigned_take_bit_eq u) (simp add: take_bit_eq_mod)
  then have "take_bit 2 (n + 3) \<le> n + 3" by (simp add: word_le_nat_alt u)
  then have "unat (align4 n) = unat n + 3 - (unat n + 3) mod 4"
    by (simp add: align4_minus unat_sub u t)
  then show ?thesis by (simp add: minus_mod_eq_div_mult)
qed

section \<open>The note scanner on natural numbers\<close>

definition pad4 :: "nat \<Rightarrow> nat" where "pad4 n = (n + 3) div 4 * 4"

definition u32_at :: "bool \<Rightarrow> bytes \<Rightarrow> nat \<Rightarrow> nat" where
  "u32_at le b p = le_nat (if le then bytes_at b p 4 else rev (bytes_at b p 4))"

lemma pad4_ge: "n \<le> pad4 n" by (simp add: pad4_def)

lemma pad4_le: "pad4 n \<le> n + 3" by (simp add: pad4_def)

lemma le_nat_bound: "le_nat s < 256 ^ length s"
proof (induction s)
  case (Cons c s)
  have "byte_val c < 256" by simp
  then have "byte_val c + 256 * le_nat s < 256 * (le_nat s + 1)" by simp
  also have "\<dots> \<le> 256 * 256 ^ length s" using Cons by (intro mult_left_mono) auto
  finally show ?case by simp
qed simp

lemma u32_at_bound: "p + 4 \<le> length b \<Longrightarrow> u32_at le b p < 2 ^ 32"
  using le_nat_bound [of "if le then bytes_at b p 4 else rev (bytes_at b p 4)"]
  by (auto simp: u32_at_def bytes_at_def split: if_splits)

lemma unat_from_bytes_u32:
  "p + 4 \<le> length b \<Longrightarrow> unat (from_bytes le (bytes_at b p 4) :: u32) = u32_at le b p"
  using u32_at_bound [of p b le] by (simp add: from_bytes_def u32_at_def [symmetric] unat_of_nat)

text \<open>The start of the description of the note at \<open>p\<close>, the note after it, and whether it is a build-id.\<close>

definition desc_at :: "bool \<Rightarrow> bytes \<Rightarrow> nat \<Rightarrow> nat" where
  "desc_at le b p = p + 12 + pad4 (u32_at le b p)"

definition desc_size :: "bool \<Rightarrow> bytes \<Rightarrow> nat \<Rightarrow> nat" where
  "desc_size le b p = u32_at le b (p + 4)"

definition note_fits :: "bool \<Rightarrow> bytes \<Rightarrow> nat \<Rightarrow> bool" where
  "note_fits le b p \<longleftrightarrow> p + 12 \<le> length b \<and> desc_at le b p + desc_size le b p \<le> length b"

definition is_build_id_note :: "bool \<Rightarrow> bytes \<Rightarrow> nat \<Rightarrow> bool" where
  "is_build_id_note le b p \<longleftrightarrow>
     u32_at le b (p + 8) = 3 \<and> starts_with ''GNU'' (bytes_at b (p + 12) (u32_at le b p))"

definition note_desc :: "bool \<Rightarrow> bytes \<Rightarrow> nat \<Rightarrow> bytes" where
  "note_desc le b p = bytes_at b (desc_at le b p) (desc_size le b p)"

definition next_note :: "bool \<Rightarrow> bytes \<Rightarrow> nat \<Rightarrow> nat" where
  "next_note le b p = desc_at le b p + pad4 (desc_size le b p)"

lemma next_note_gt: "p < next_note le b p"
  by (simp add: next_note_def desc_at_def)

lemma next_note_le: "note_fits le b p \<Longrightarrow> next_note le b p \<le> length b + 3"
  using pad4_le [of "desc_size le b p"] by (simp add: note_fits_def next_note_def)

function find_build_id :: "bool \<Rightarrow> bytes \<Rightarrow> nat \<Rightarrow> bytes option" where
  "find_build_id le b p =
     (if \<not> note_fits le b p then None
      else if is_build_id_note le b p then Some (note_desc le b p)
      else find_build_id le b (next_note le b p))"
  by pat_completeness auto
termination
proof (relation "measure (\<lambda>(le, b, p). length b - p)")
  fix le b p
  assume "\<not> \<not> note_fits le b p"
  then have "p < length b" by (simp add: note_fits_def)
  then show "((le, b, next_note le b p), (le, b, p)) \<in> measure (\<lambda>(le, b, p). length b - p)"
    using next_note_gt [of p le b] by simp
qed simp

declare find_build_id.simps [simp del]

lemma usize_le_len: "length b < 2 ^ 63 \<Longrightarrow> i \<le> usize_len b \<longleftrightarrow> unat i \<le> length b"
  by (simp add: usize_len_def word_le_nat_alt unat_of_nat)

lemma unat_u32_lt: "unat x < 2 ^ 32" for x :: u32
proof -
  have "unat x < 2 ^ LENGTH(32)" by (rule unsigned_less)
  then show ?thesis by simp
qed

lemma unat_ucast_u32: "unat (ucast (x :: u32) :: usize) = unat x"
proof -
  have "unat x < 2 ^ LENGTH(32)" by (rule unsigned_less)
  then show ?thesis by (simp add: unsigned_ucast_eq take_bit_nat_eq_self)
qed

lemma pad4_ucast: "unat (align4 (ucast (x :: u32))) = pad4 (unat x)"
proof -
  have "unat x < 2 ^ LENGTH(32)" by (rule unsigned_less)
  then show ?thesis by (subst unat_align4) (simp_all add: unat_ucast_u32 pad4_def)
qed

text \<open>The header of a note that is inside the slice: three words, and the positions they give.\<close>

lemma note_header:
  assumes len: "length b < 2 ^ 63" and fit: "unat pos + 12 \<le> length b"
  obtains ns ds ty :: u32 where
    "read_u32 chk b pos le = Got ns" "read_u32 chk b (pos + 4) le = Got ds" "read_u32 chk b (pos + 8) le = Got ty"
    "unat ns = u32_at le b (unat pos)" "unat ds = desc_size le b (unat pos)" "unat ty = u32_at le b (unat pos + 8)"
proof -
  let ?p = "unat pos"
  have add: "unat (pos + w) = ?p + unat w" if "unat w \<le> 12" for w
    using usize_add_small [of pos w chk] len fit that by simp
  show thesis
  proof (rule that)
    show "read_u32 chk b pos le = Got (from_bytes le (bytes_at b ?p 4))"
      "read_u32 chk b (pos + 4) le = Got (from_bytes le (bytes_at b (?p + 4) 4))"
      "read_u32 chk b (pos + 8) le = Got (from_bytes le (bytes_at b (?p + 8) 4))"
      using fit len by (simp_all add: read_u32_Got add)
    show "unat (from_bytes le (bytes_at b ?p 4) :: u32) = u32_at le b ?p"
      "unat (from_bytes le (bytes_at b (?p + 4) 4) :: u32) = desc_size le b ?p"
      "unat (from_bytes le (bytes_at b (?p + 8) 4) :: u32) = u32_at le b (?p + 8)"
      using fit unat_from_bytes_u32 [of _ b le] by (simp_all add: desc_size_def)
  qed
qed

lemma note_positions:
  fixes ns ds :: u32
  assumes len: "length b < 2 ^ 63" and p: "unat pos \<le> length b + 3"
    and n: "unat ns = u32_at le b (unat pos)" "unat ds = desc_size le b (unat pos)"
  defines "d \<equiv> pos + 12 + align4 (ucast ns)"
  shows "checked_add (pos + 12) (ucast ns) = Some (pos + 12 + ucast ns)"
    and "unat (pos + 12 + ucast ns) = unat pos + 12 + u32_at le b (unat pos)"
    and "usize_add chk (pos + 12) (align4 (ucast ns)) = Got d" and "unat d = desc_at le b (unat pos)"
    and "checked_add d (ucast ds) = Some (d + ucast ds)" and "unat (d + ucast ds) = desc_at le b (unat pos) + desc_size le b (unat pos)"
    and "usize_add chk d (align4 (ucast ds)) = Got (of_nat (next_note le b (unat pos)))"
proof -
  let ?p = "unat pos"
  have lt: "unat ns < 2 ^ 32" "unat ds < 2 ^ 32" by (rule unat_u32_lt)+
  have pn: "pad4 (unat ns) \<le> unat ns + 3" "pad4 (unat ds) \<le> unat ds + 3" by (rule pad4_le)+
  have add: "unat (pos + 12) = ?p + 12" using usize_add_small [of pos 12 chk] len p by simp
  show "checked_add (pos + 12) (ucast ns) = Some (pos + 12 + ucast ns)" "unat (pos + 12 + ucast ns) = ?p + 12 + u32_at le b ?p"
    using lt len p n(1) by (simp_all add: checked_add_def add unat_ucast_u32 unat_add_exact)
  show dst: "usize_add chk (pos + 12) (align4 (ucast ns)) = Got d" "unat d = desc_at le b ?p"
    using usize_add_small [of "pos + 12" "align4 (ucast ns)" chk] lt len p pn
    by (simp_all add: d_def add pad4_ucast desc_at_def n(1) [symmetric])
  have da: "desc_at le b ?p \<le> ?p + 12 + unat ns + 3" using pn by (simp add: desc_at_def n)
  show "checked_add d (ucast ds) = Some (d + ucast ds)" "unat (d + ucast ds) = desc_at le b ?p + desc_size le b ?p"
    using lt len p da n by (simp_all add: checked_add_def dst unat_ucast_u32 unat_add_exact)
  have nx: "usize_add chk d (align4 (ucast ds)) = Got (d + align4 (ucast ds))" "unat (d + align4 (ucast ds)) = next_note le b ?p"
    using usize_add_small [of d "align4 (ucast ds)" chk] lt len p da pn
    by (simp_all add: dst pad4_ucast next_note_def n(2) [symmetric])
  moreover have "d + align4 (ucast ds) = of_nat (next_note le b ?p)" by (simp flip: nx(2))
  ultimately show "usize_add chk d (align4 (ucast ds)) = Got (of_nat (next_note le b ?p))" by simp
qed

text \<open>One turn of the loop, on positions a slice can have: no step overflows.\<close>

lemma note_step_ref:
  assumes len: "length b < 2 ^ 63" and p: "unat pos \<le> length b + 3"
  shows "note_step chk b le pos =
    (if \<not> note_fits le b (unat pos) then Nothing
     else if is_build_id_note le b (unat pos) then Got (Inl (hex (note_desc le b (unat pos))))
     else Got (Inr (of_nat (next_note le b (unat pos)))))"
proof -
  let ?p = "unat pos"
  have add: "usize_add chk pos w = Got (pos + w)" "unat (pos + w) = ?p + unat w" if "unat w \<le> 12" for w
    using usize_add_small [of pos w chk] len p that by simp_all
  have le12: "pos + 12 \<le> usize_len b \<longleftrightarrow> ?p + 12 \<le> length b" using usize_le_len [OF len] add [of 12] by simp
  show ?thesis
  proof (cases "?p + 12 \<le> length b")
    case False
    with le12 show ?thesis by (simp add: note_step_def note_fits_def add)
  next
    case True
    from len True obtain ns ds ty :: u32 where
      r: "read_u32 chk b pos le = Got ns" "read_u32 chk b (pos + 4) le = Got ds" "read_u32 chk b (pos + 8) le = Got ty"
      and n: "unat ns = u32_at le b ?p" "unat ds = desc_size le b ?p" "unat ty = u32_at le b (?p + 8)"
      by (rule note_header)
    note pos = note_positions [OF len p n(1,2)]
    let ?d = "pos + 12 + align4 (ucast ns)"
    have fit: "?d + ucast ds \<le> usize_len b \<longleftrightarrow> note_fits le b ?p"
      using usize_le_len [OF len] pos(6) True by (simp add: note_fits_def)
    have nm: "slice_get b (pos + 12) (pos + 12 + ucast ns) = Some (bytes_at b (?p + 12) (u32_at le b ?p))"
      if "note_fits le b ?p"
      using that pad4_ge [of "unat ns"] pos(2) n
      by (simp add: slice_get_def word_le_nat_alt add note_fits_def desc_at_def bytes_at_def)
    have sd: "slice_index b ?d (?d + ucast ds) = Got (note_desc le b ?p)" if "note_fits le b ?p"
      using that pos(4,6)
      by (simp add: slice_index_def slice_get_def word_le_nat_alt note_fits_def note_desc_def bytes_at_def)
    have ty: "ty = NT_GNU_BUILD_ID \<longleftrightarrow> u32_at le b (?p + 8) = 3"
      using n(3) by (simp add: NT_GNU_BUILD_ID_def word_unat_eq_iff)
    show ?thesis
      unfolding note_step_def using le12 True pos(1,3,5,7) fit nm sd ty
      by (simp add: add r is_build_id_note_def)
  qed
qed

text \<open>The loop ends, never panics, and finds what the reference finds.\<close>

lemma scan_notes_ref:
  assumes "length b < 2 ^ 63"
  shows "unat pos \<le> length b + 3 \<Longrightarrow>
    scan_notes chk b le pos = Some (of_opt (map_option hex (find_build_id le b (unat pos))))"
proof (induction "length b + 3 - unat pos" arbitrary: pos rule: less_induct)
  case less
  let ?p = "unat pos"
  note st = note_step_ref [OF assms less.prems, of chk le]
  show ?case
  proof (cases "note_fits le b ?p \<and> \<not> is_build_id_note le b ?p")
    case True
    have le: "next_note le b ?p \<le> length b + 3" using True next_note_le by blast
    then have u: "unat (of_nat (next_note le b ?p) :: usize) = next_note le b ?p"
      using assms by (simp add: unat_of_nat)
    have "scan_notes chk b le pos = scan_notes chk b le (of_nat (next_note le b ?p))"
      using True st by (subst scan_notes.simps) simp
    also have "\<dots> = Some (of_opt (map_option hex (find_build_id le b (next_note le b ?p))))"
      using less.hyps [of "of_nat (next_note le b ?p)"] u le next_note_gt [of ?p le b] by simp
    also have "find_build_id le b (next_note le b ?p) = find_build_id le b ?p"
      using True by (simp add: find_build_id.simps [of le b ?p])
    finally show ?thesis .
  next
    case False
    then show ?thesis
      using st by (subst scan_notes.simps) (auto simp: find_build_id.simps [of le b ?p])
  qed
qed

section \<open>Program headers\<close>

lemma ph_notes_Got:
  assumes "ph_notes chk elf is64 le phoff phentsize i = Got (Some notes)"
  shows "\<exists>start n. start + n \<le> length elf \<and> notes = bytes_at elf start n"
proof -
  from assms obtain x e where "slice_get elf x e = Some notes"
    by (auto simp: ph_notes_def pbind_Got split: if_splits)
  from slice_get_Some [OF this] show ?thesis
    by (intro exI [of _ "unat x"] exI [of _ "unat e - unat x"]) (simp add: bytes_at_def)
qed

lemma ph_notes_no_panic: "ph_notes False elf is64 le phoff phentsize i \<noteq> Panic"
  by (auto simp: ph_notes_def pbind_Panic reads_Panic split: if_splits)

lemma ph_loop_returns:
  assumes "length elf < 2 ^ 63"
  shows "\<exists>r. ph_loop False elf is64 le phoff phentsize is = Some r \<and> r \<noteq> Panic"
proof (induction "is")
  case (Cons i "is")
  show ?case
  proof (cases "ph_notes False elf is64 le phoff phentsize i")
    case (Got n)
    show ?thesis
    proof (cases n)
      case (Some nts)
      with Got ph_notes_Got have "length nts \<le> length elf" by (fastforce simp: bytes_at_def)
      then have "scan_notes False nts le 0 = Some (of_opt (map_option hex (find_build_id le nts 0)))"
        using scan_notes_ref [of nts 0 False le] assms by simp
      then show ?thesis using Got Some Cons by (cases "find_build_id le nts 0") auto
    qed (use Got Cons in auto)
  qed (use ph_notes_no_panic in auto)
qed simp

lemma ph_loop_sound:
  assumes "length elf < 2 ^ 63" "ph_loop chk elf is64 le phoff phentsize is = Some (Got i)"
  shows "\<exists>start n d. start + n \<le> length elf \<and> find_build_id le (bytes_at elf start n) 0 = Some d \<and> i = hex d"
  using assms(2)
proof (induction "is")
  case (Cons k "is")
  show ?case
  proof (cases "\<exists>nts. ph_notes chk elf is64 le phoff phentsize k = Got (Some nts)")
    case True
    then obtain nts start n where nt: "ph_notes chk elf is64 le phoff phentsize k = Got (Some nts)"
      "start + n \<le> length elf" "nts = bytes_at elf start n" using ph_notes_Got by metis
    then have "length nts < 2 ^ 63" using assms(1) by (simp add: bytes_at_def)
    then have sc: "scan_notes chk nts le 0 = Some (of_opt (map_option hex (find_build_id le nts 0)))"
      using scan_notes_ref [of nts 0 chk le] by simp
    show ?thesis
    proof (cases "find_build_id le nts 0")
      case None
      with nt(1) sc Cons show ?thesis by simp
    next
      case (Some d)
      with nt sc Cons.prems have "i = hex d" by simp
      with nt Some show ?thesis by blast
    qed
  next
    case False
    then show ?thesis using Cons by (auto split: parsed.splits option.splits)
  qed
qed simp

lemma find_build_id_sound:
  "find_build_id le b p = Some d \<Longrightarrow>
    \<exists>q\<ge>p. note_fits le b q \<and> is_build_id_note le b q \<and> d = note_desc le b q"
proof (induction le b p rule: find_build_id.induct)
  case (1 le b p)
  show ?case
  proof (cases "note_fits le b p \<and> \<not> is_build_id_note le b p")
    case True
    with 1 obtain q where "next_note le b p \<le> q" "note_fits le b q \<and> is_build_id_note le b q \<and> d = note_desc le b q"
      by (auto simp: find_build_id.simps [of le b p])
    then show ?thesis using next_note_gt [of p le b] by (intro exI [of _ q]) simp
  next
    case False
    with 1(2) show ?thesis by (auto simp: find_build_id.simps [of le b p] split: if_splits)
  qed
qed

lemma build_id_header:
  assumes "build_id_from_bytes chk elf = Some (Got i)"
  obtains is64 le phoff phentsize and phnum :: u64 where "64 \<le> length elf" "starts_with elf_magic elf"
    "ph_loop chk elf is64 le phoff phentsize (map of_nat [0..<unat phnum]) = Some (Got i)"
proof -
  from assms have 1: "64 \<le> length elf" by (simp add: build_id_from_bytes_def split: if_splits)
  then have "slice_index elf 0 4 = Got (take 4 elf)"
    by (simp add: slice_index_def slice_get_def)
  with assms 1 obtain is64 le phoff phentsize phnum where 2: "take 4 elf = elf_magic" and
    3: "ph_loop chk elf is64 le phoff phentsize (map of_nat [0..<unat (phnum :: u64)]) = Some (Got i)"
    by (auto simp: build_id_from_bytes_def split: if_splits parsed.splits)
  from 2 have "starts_with elf_magic elf" by (simp add: starts_with_def elf_magic_def numeral_eq_Suc)
  with 1 3 that show ?thesis by blast
qed

section \<open>The test images\<close>

text \<open>
  The images the source's tests build: one note segment with one build-id note, in the 32-bit
  and the 64-bit layout. \<open>copy_from_slice\<close> into a range is \<open>splice\<close>.
\<close>

datatype elf_class_kind = Elf32 | Elf64

fun le_bytes :: "nat \<Rightarrow> nat \<Rightarrow> bytes" where
  "le_bytes 0 n = []"
| "le_bytes (Suc k) n = char_of (n mod 256) # le_bytes k (n div 256)"

definition splice :: "nat \<Rightarrow> bytes \<Rightarrow> bytes \<Rightarrow> bytes" where
  "splice i bs xs = take i xs @ bs @ drop (i + length bs) xs"

definition build_id_note :: "bytes \<Rightarrow> bytes" where
  "build_id_note desc =
     (let note = le_bytes 4 4 @ le_bytes 4 (length desc) @ le_bytes 4 (unat NT_GNU_BUILD_ID) @ ''GNU'' @ [CHR 0x00] @ desc
      in note @ replicate (pad4 (length note) - length note) (CHR 0x00))"

text \<open>A sequence of such copies, in the order of the statements.\<close>

definition splices :: "(nat \<times> bytes) list \<Rightarrow> bytes \<Rightarrow> bytes" where
  "splices ps xs = fold (\<lambda>(i, bs). splice i bs) ps xs"

definition elf_ident :: "elf_class_kind \<Rightarrow> (nat \<times> bytes) list" where
  "elf_ident class =
     [(0, elf_magic), (4, [case class of Elf32 \<Rightarrow> CHR 0x01 | Elf64 \<Rightarrow> CHR 0x02]), (5, [CHR 0x01]), (6, [CHR 0x01]),
      (16, le_bytes 2 2), (18, le_bytes 2 62), (20, le_bytes 4 1)]"

definition elf_headers :: "elf_class_kind \<Rightarrow> nat \<Rightarrow> nat \<Rightarrow> nat \<Rightarrow> nat \<Rightarrow> (nat \<times> bytes) list" where
  "elf_headers class ehdr_size phdr_size note_off note_len =
     (let p = ehdr_size
      in case class of
           Elf32 \<Rightarrow>
             [(0x1C, le_bytes 4 ehdr_size), (0x28, le_bytes 2 ehdr_size), (0x2A, le_bytes 2 phdr_size), (0x2C, le_bytes 2 1),
              (p, le_bytes 4 (unat PT_NOTE)), (p + 4, le_bytes 4 note_off), (p + 16, le_bytes 4 note_len)]
         | Elf64 \<Rightarrow>
             [(0x20, le_bytes 8 ehdr_size), (52, le_bytes 2 ehdr_size), (0x36, le_bytes 2 phdr_size), (0x38, le_bytes 2 1),
              (p, le_bytes 4 (unat PT_NOTE)), (p + 4, le_bytes 4 4), (p + 8, le_bytes 8 note_off),
              (p + 32, le_bytes 8 note_len)])"

definition synthetic_elf :: "elf_class_kind \<Rightarrow> bytes \<Rightarrow> bytes" where
  "synthetic_elf class desc =
     (let note = build_id_note desc;
          (ehdr_size, phdr_size) = (case class of Elf32 \<Rightarrow> (52, 32) | Elf64 \<Rightarrow> (64, 56));
          note_off = ehdr_size + phdr_size
      in splices (elf_ident class @ elf_headers class ehdr_size phdr_size note_off (length note))
           (replicate note_off (CHR 0x00)) @ note)"

lemma length_le_bytes [simp]: "length (le_bytes k n) = k"
  by (induction k arbitrary: n) auto

lemma le_nat_le_bytes: "le_nat (le_bytes k n) = n mod 256 ^ k"
  by (induction k arbitrary: n) (simp_all add: mod_mult2_eq)

lemma length_splice [simp]: "i + length bs \<le> length xs \<Longrightarrow> length (splice i bs xs) = length xs"
  by (simp add: splice_def)

lemma bytes_at_append: "i + n \<le> length xs \<Longrightarrow> bytes_at (xs @ ys) i n = bytes_at xs i n"
  by (simp add: bytes_at_def)

lemma bytes_at_splice:
  "i + length bs \<le> length xs \<Longrightarrow> bytes_at (splice i bs xs) i (length bs) = bs"
  by (simp add: bytes_at_def splice_def)

lemma bytes_at_splice_below: "j + n \<le> i \<Longrightarrow> i \<le> length xs \<Longrightarrow> bytes_at (splice i bs xs) j n = bytes_at xs j n"
  unfolding splice_def by (subst bytes_at_append) (simp, metis append_take_drop_id bytes_at_append length_take min.absorb2)

lemma bytes_at_splice_above:
  "i + length bs \<le> j \<Longrightarrow> i + length bs \<le> length xs \<Longrightarrow> bytes_at (splice i bs xs) j n = bytes_at xs j n"
  by (simp add: bytes_at_def splice_def)

text \<open>The last copy into a range, looked up from the end.\<close>

fun copied :: "(nat \<times> bytes) list \<Rightarrow> nat \<Rightarrow> nat \<Rightarrow> bytes option" where
  "copied [] j n = None"
| "copied ((i, bs) # ps) j n =
     (if i = j \<and> length bs = n then Some bs
      else if j + n \<le> i \<or> i + length bs \<le> j then copied ps j n else None)"

lemma splices_copied:
  assumes "list_all (\<lambda>(i, bs). i + length bs \<le> length xs) ps"
  shows "length (splices ps xs) = length xs \<and> (copied (rev ps) j n = Some bs \<longrightarrow> bytes_at (splices ps xs) j n = bs)"
  using assms
proof (induction ps rule: rev_induct)
  case (snoc q ps)
  obtain i cs where q: "q = (i, cs)" by fastforce
  from snoc.prems have ok: "list_all (\<lambda>(i, bs). i + length bs \<le> length xs) ps" "i + length cs \<le> length xs"
    by (auto simp: q)
  from snoc.IH [OF ok(1)] have len: "length (splices ps xs) = length xs"
    and IH: "copied (rev ps) j n = Some bs \<longrightarrow> bytes_at (splices ps xs) j n = bs" by auto
  have sp: "splices (ps @ [q]) xs = splice i cs (splices ps xs)" by (simp add: splices_def q)
  have "bytes_at (splices (ps @ [q]) xs) j n = bs" if "copied (rev (ps @ [q])) j n = Some bs"
  proof (cases "i = j \<and> length cs = n")
    case True
    with that have "cs = bs" by (simp add: q)
    with True ok(2) len show ?thesis using bytes_at_splice [of i cs "splices ps xs"] by (simp add: sp)
  next
    case False
    with that have c: "copied (rev ps) j n = Some bs" "j + n \<le> i \<or> i + length cs \<le> j"
      by (auto simp: q split: if_splits)
    from c(2) have "bytes_at (splices (ps @ [q]) xs) j n = bytes_at (splices ps xs) j n"
      unfolding sp using ok(2) len bytes_at_splice_below [of j n i "splices ps xs" cs]
        bytes_at_splice_above [of i cs j "splices ps xs" n] by auto
    with IH c(1) show ?thesis by simp
  qed
  then show ?case using len ok(2) by (simp add: sp)
qed (simp add: splices_def)

lemma length_elf_magic [simp]: "length elf_magic = 4"
  by (simp add: elf_magic_def)

text \<open>A field of a header that a list of copies made, read back from the whole image.\<close>

lemma header_field:
  assumes "list_all (\<lambda>(i, bs). i + length bs \<le> N) ps" "copied (rev ps) j n = Some bs" "j + n \<le> N"
  shows "bytes_at (splices ps (replicate N c) @ body) j n = bs"
  using splices_copied [of "replicate N c" ps j n bs] assms by (simp add: bytes_at_append)

lemma header_length:
  "list_all (\<lambda>(i, bs). i + length bs \<le> N) ps \<Longrightarrow> length (splices ps (replicate N c)) = N"
  using splices_copied [of "replicate N c" ps 0 0 "[]"] by simp

lemma build_id_note_parts:
  assumes "length desc < 2 ^ 32"
  shows "4 \<le> length (build_id_note desc)" "find_build_id True (build_id_note desc) 0 = Some desc"
    "length (build_id_note desc) = 16 + pad4 (length desc)"
proof -
  let ?n = "le_bytes 4 4 @ le_bytes 4 (length desc) @ le_bytes 4 3 @ ''GNU'' @ [CHR 0x00] @ desc"
  let ?b = "build_id_note desc"
  have b: "?b = ?n @ replicate (pad4 (length desc) - length desc) (CHR 0x00)"
    by (simp add: build_id_note_def Let_def NT_GNU_BUILD_ID_def pad4_def) presburger
  show len: "length ?b = 16 + pad4 (length desc)" using pad4_ge [of "length desc"] by (simp add: b)
  then show "4 \<le> length ?b" by simp
  have "bytes_at ?b 0 4 = le_bytes 4 4" "bytes_at ?b 4 4 = le_bytes 4 (length desc)" "bytes_at ?b 8 4 = le_bytes 4 3"
    "bytes_at ?b 12 4 = ''GNU'' @ [CHR 0x00]" "bytes_at ?b 16 (length desc) = desc"
    by (simp_all add: b bytes_at_def)
  then have f: "u32_at True ?b 0 = 4" "u32_at True ?b 4 = length desc" "u32_at True ?b 8 = 3"
      "bytes_at ?b 12 (u32_at True ?b 0) = ''GNU'' @ [CHR 0x00]" "bytes_at ?b 16 (length desc) = desc"
    using assms by (simp_all add: u32_at_def le_nat_le_bytes)
  have "note_fits True ?b 0"
    using f len pad4_ge [of "length desc"] by (simp add: note_fits_def desc_at_def desc_size_def pad4_def)
  moreover have "is_build_id_note True ?b 0" using f by (simp add: is_build_id_note_def)
  moreover have "note_desc True ?b 0 = desc" using f by (simp add: note_desc_def desc_at_def desc_size_def pad4_def)
  ultimately show "find_build_id True ?b 0 = Some desc" by (simp add: find_build_id.simps)
qed

lemma hd_bytes_at: "i < length xs \<Longrightarrow> xs ! i = hd (bytes_at xs i 1)"
  by (simp add: bytes_at_def hd_drop_conv_nth take_Suc hd_conv_nth)

lemma from_le_bytes [simp]: "n < 256 ^ k \<Longrightarrow> from_bytes True (le_bytes k n) = of_nat n"
  by (simp add: from_bytes_def le_nat_le_bytes)

lemma synthetic_elf64_fields:
  fixes desc :: bytes
  defines "elf \<equiv> synthetic_elf Elf64 desc" and "note \<equiv> build_id_note desc"
  shows "length elf = 120 + length note" "bytes_at elf 0 4 = elf_magic" "bytes_at elf 4 1 = [CHR 0x02]"
    "bytes_at elf 5 1 = [CHR 0x01]" "bytes_at elf 32 8 = le_bytes 8 64" "bytes_at elf 54 2 = le_bytes 2 56"
    "bytes_at elf 56 2 = le_bytes 2 1" "bytes_at elf 64 4 = le_bytes 4 4" "bytes_at elf 72 8 = le_bytes 8 120"
    "bytes_at elf 96 8 = le_bytes 8 (length note)" "bytes_at elf 120 (length note) = note"
proof -
  let ?ps = "elf_ident Elf64 @ elf_headers Elf64 64 56 120 (length note)"
  have e: "elf = splices ?ps (replicate 120 (CHR 0x00)) @ note"
    by (simp add: elf_def note_def synthetic_elf_def Let_def)
  have ok: "list_all (\<lambda>(i, bs). i + length bs \<le> 120) ?ps" by (simp add: elf_ident_def elf_headers_def)
  have len: "length (splices ?ps (replicate 120 (CHR 0x00))) = 120" using header_length [OF ok] .
  then show "length elf = 120 + length note" "bytes_at elf 120 (length note) = note"
    by (simp_all add: e bytes_at_def)
  show "bytes_at elf 0 4 = elf_magic" "bytes_at elf 4 1 = [CHR 0x02]"
    "bytes_at elf 5 1 = [CHR 0x01]" "bytes_at elf 32 8 = le_bytes 8 64" "bytes_at elf 54 2 = le_bytes 2 56"
    "bytes_at elf 56 2 = le_bytes 2 1" "bytes_at elf 64 4 = le_bytes 4 4" "bytes_at elf 72 8 = le_bytes 8 120"
    "bytes_at elf 96 8 = le_bytes 8 (length note)"
    unfolding e by (rule header_field [OF ok]; simp add: elf_ident_def elf_headers_def PT_NOTE_def)+
qed

lemma synthetic_elf32_fields:
  fixes desc :: bytes
  defines "elf \<equiv> synthetic_elf Elf32 desc" and "note \<equiv> build_id_note desc"
  shows "length elf = 84 + length note" "bytes_at elf 0 4 = elf_magic" "bytes_at elf 4 1 = [CHR 0x01]"
    "bytes_at elf 5 1 = [CHR 0x01]" "bytes_at elf 28 4 = le_bytes 4 52" "bytes_at elf 42 2 = le_bytes 2 32"
    "bytes_at elf 44 2 = le_bytes 2 1" "bytes_at elf 52 4 = le_bytes 4 4" "bytes_at elf 56 4 = le_bytes 4 84"
    "bytes_at elf 68 4 = le_bytes 4 (length note)" "bytes_at elf 84 (length note) = note"
proof -
  let ?ps = "elf_ident Elf32 @ elf_headers Elf32 52 32 84 (length note)"
  have e: "elf = splices ?ps (replicate 84 (CHR 0x00)) @ note"
    by (simp add: elf_def note_def synthetic_elf_def Let_def)
  have ok: "list_all (\<lambda>(i, bs). i + length bs \<le> 84) ?ps" by (simp add: elf_ident_def elf_headers_def)
  have len: "length (splices ?ps (replicate 84 (CHR 0x00))) = 84" using header_length [OF ok] .
  then show "length elf = 84 + length note" "bytes_at elf 84 (length note) = note"
    by (simp_all add: e bytes_at_def)
  show "bytes_at elf 0 4 = elf_magic" "bytes_at elf 4 1 = [CHR 0x01]"
    "bytes_at elf 5 1 = [CHR 0x01]" "bytes_at elf 28 4 = le_bytes 4 52" "bytes_at elf 42 2 = le_bytes 2 32"
    "bytes_at elf 44 2 = le_bytes 2 1" "bytes_at elf 52 4 = le_bytes 4 4" "bytes_at elf 56 4 = le_bytes 4 84"
    "bytes_at elf 68 4 = le_bytes 4 (length note)"
    unfolding e by (rule header_field [OF ok]; simp add: elf_ident_def elf_headers_def PT_NOTE_def)+
qed

text \<open>Reading a note segment named by a program header, and its scan.\<close>

lemma build_id_one_segment:
  assumes len: "64 \<le> length elf" "length elf < 2 ^ 63" and magic: "bytes_at elf 0 4 = elf_magic"
    and cls: "elf_class elf = Got (is64, True)"
    and tab: "ph_table chk elf is64 True = Got (phoff, phentsize, 1)"
    and ph: "ph_notes chk elf is64 True phoff phentsize 0 = Got (Some nts)"
    and found: "find_build_id True nts 0 = Some d"
  shows "build_id_from_bytes chk elf = Some (Got (hex d))"
proof -
  have "slice_index elf 0 4 = Got elf_magic"
    using len magic by (simp add: slice_index_def slice_get_def bytes_at_def)
  moreover obtain start n where "start + n \<le> length elf" "nts = bytes_at elf start n"
    using ph_notes_Got [OF ph] by blast
  then have "length nts < 2 ^ 63" using len(2) by (simp add: bytes_at_def)
  then have "scan_notes chk nts True 0 = Some (Got (hex d))"
    using scan_notes_ref [of nts 0 chk True] found by simp
  ultimately show ?thesis
    using len cls tab ph by (simp add: build_id_from_bytes_def)
qed

lemma build_id_synthetic64:
  assumes "length desc < 2 ^ 32"
  shows "build_id_from_bytes chk (synthetic_elf Elf64 desc) = Some (Got (hex desc))"
proof -
  let ?elf = "synthetic_elf Elf64 desc" and ?n = "build_id_note desc"
  note f = synthetic_elf64_fields [of desc]
  have n: "length ?n < 2 ^ 33" "4 \<le> length ?n"
    using build_id_note_parts [OF assms] assms pad4_le [of "length desc"] by auto
  then have ne: "?n \<noteq> []" by auto
  have c: "elf_class ?elf = Got (True, True)"
    using f(1) f(3,4) hd_bytes_at [of 4 ?elf] hd_bytes_at [of 5 ?elf] by (simp add: elf_class_def byte_index_def)
  have t: "ph_table chk ?elf True True = Got (64, 56, 1)"
    using f n by (simp add: ph_table_def pbind_Got reads_Got)
  have w: "unat (of_nat (length ?n) :: usize) = length ?n" using n by (simp add: unat_of_nat)
  have "slice_get ?elf 120 (120 + of_nat (length ?n)) = Some ?n"
    using slice_get_add [of "of_nat (length ?n)" ?elf 120] w n f ne by (simp add: unat_of_nat)
  then have p: "ph_notes chk ?elf True True 64 56 0 = Got (Some ?n)"
    using f n w by (simp add: ph_notes_def pbind_Got reads_Got checked_mul_def checked_add_def PT_NOTE_def usize_add_def)
  show ?thesis
    by (rule build_id_one_segment [OF _ _ _ c t p]) (use f n build_id_note_parts [OF assms] in auto)
qed

lemma build_id_synthetic32:
  assumes "length desc < 2 ^ 31"
  shows "build_id_from_bytes chk (synthetic_elf Elf32 desc) = Some (Got (hex desc))"
proof -
  let ?elf = "synthetic_elf Elf32 desc" and ?n = "build_id_note desc"
  note f = synthetic_elf32_fields [of desc]
  have n: "length ?n < 2 ^ 32" "4 \<le> length ?n"
    using build_id_note_parts [of desc] assms pad4_le [of "length desc"] by auto
  then have ne: "?n \<noteq> []" by auto
  have c: "elf_class ?elf = Got (False, True)"
    using f(1) f(3,4) hd_bytes_at [of 4 ?elf] hd_bytes_at [of 5 ?elf] by (simp add: elf_class_def byte_index_def)
  have t: "ph_table chk ?elf False True = Got (52, 32, 1)"
    using f n by (simp add: ph_table_def pbind_Got reads_Got)
  have w: "unat (of_nat (length ?n) :: u32) = length ?n" "unat (of_nat (length ?n) :: usize) = length ?n"
    using n by (simp_all add: unat_of_nat)
  have u: "(ucast (of_nat (length ?n) :: u32) :: usize) = of_nat (length ?n)"
    by (simp add: word_unat_eq_iff unat_ucast_u32 w)
  have "slice_get ?elf 84 (84 + of_nat (length ?n)) = Some ?n"
    using slice_get_add [of "of_nat (length ?n)" ?elf 84] w n f ne by (simp add: unat_of_nat)
  then have p: "ph_notes chk ?elf False True 52 32 0 = Got (Some ?n)"
    using f n w by (simp add: ph_notes_def pbind_Got reads_Got checked_mul_def checked_add_def PT_NOTE_def usize_add_def u)
  show ?thesis
    by (rule build_id_one_segment [OF _ _ _ c t p]) (use f n build_id_note_parts [of desc] assms in auto)
qed

section \<open>ELF images in general\<close>

text \<open>
  An encoder of ELF images, from the ELF specification and not from the parser: both classes
  and both byte orders, anything between the header and the program header table, any number of
  program headers, one for each segment, and note segments of any number of notes, each padded to four bytes.
\<close>

definition put :: "bool \<Rightarrow> nat \<Rightarrow> nat \<Rightarrow> bytes" where
  "put le k n = (if le then le_bytes k n else rev (le_bytes k n))"

definition zeros :: "nat \<Rightarrow> bytes" where
  "zeros n = replicate n (CHR 0x00)"

definition padded :: "bytes \<Rightarrow> bytes" where
  "padded x = x @ zeros (pad4 (length x) - length x)"

record elf_note =
  en_name :: bytes
  en_type :: nat
  en_desc :: bytes

definition encode_note :: "bool \<Rightarrow> elf_note \<Rightarrow> bytes" where
  "encode_note le n =
     put le 4 (length (en_name n)) @ put le 4 (length (en_desc n)) @ put le 4 (en_type n) @ padded (en_name n) @ padded (en_desc n)"

definition encode_notes :: "bool \<Rightarrow> elf_note list \<Rightarrow> bytes" where
  "encode_notes le ns = concat (map (encode_note le) ns)"

definition names_build_id :: "elf_note \<Rightarrow> bool" where
  "names_build_id n \<longleftrightarrow> en_type n = 3 \<and> take 3 (en_name n) = ''GNU''"

definition phdr_size :: "elf_class_kind \<Rightarrow> nat" where
  "phdr_size c = (case c of Elf32 \<Rightarrow> 32 | Elf64 \<Rightarrow> 56)"

definition encode_phdr :: "elf_class_kind \<Rightarrow> bool \<Rightarrow> nat \<times> nat \<times> nat \<Rightarrow> bytes" where
  "encode_phdr c le = (\<lambda>(t, off, sz). case c of
     Elf32 \<Rightarrow> put le 4 t @ put le 4 off @ zeros 8 @ put le 4 sz @ zeros 12
   | Elf64 \<Rightarrow> put le 4 t @ zeros 4 @ put le 8 off @ zeros 16 @ put le 8 sz @ zeros 16)"

definition ehdr_size :: "elf_class_kind \<Rightarrow> nat" where
  "ehdr_size c = (case c of Elf32 \<Rightarrow> 52 | Elf64 \<Rightarrow> 64)"

definition encode_ehdr :: "elf_class_kind \<Rightarrow> bool \<Rightarrow> nat \<Rightarrow> nat \<Rightarrow> bytes" where
  "encode_ehdr c le phoff phnum = elf_magic @
     (case c of
        Elf32 \<Rightarrow> [CHR 0x01, if le then CHR 0x01 else CHR 0x02] @ zeros 22 @ put le 4 phoff @ zeros 10 @ put le 2 (phdr_size c) @ put le 2 phnum @ zeros 6
      | Elf64 \<Rightarrow> [CHR 0x02, if le then CHR 0x01 else CHR 0x02] @ zeros 26 @ put le 8 phoff @ zeros 14 @ put le 2 (phdr_size c) @ put le 2 phnum @ zeros 6)"

text \<open>A segment is a type and its bytes; the segments lie one after the other behind the table.\<close>

fun place :: "nat \<Rightarrow> (nat \<times> bytes) list \<Rightarrow> (nat \<times> nat \<times> nat) list" where
  "place off [] = []"
| "place off ((t, b) # segs) = (t, off, length b) # place (off + length b) segs"

definition elf_image :: "elf_class_kind \<Rightarrow> bool \<Rightarrow> bytes \<Rightarrow> (nat \<times> bytes) list \<Rightarrow> bytes" where
  "elf_image c le gap segs =
     (let phoff = ehdr_size c + length gap
      in encode_ehdr c le phoff (length segs) @ gap @
         concat (map (encode_phdr c le) (place (phoff + length segs * phdr_size c) segs)) @ concat (map snd segs))"

lemma put_simps [simp]: "length (put le k n) = k" "length (zeros n) = n"
  by (simp_all add: put_def zeros_def)

lemma from_bytes_put [simp]: "n < 256 ^ k \<Longrightarrow> from_bytes le (put le k n) = of_nat n"
  by (simp add: put_def from_bytes_def le_nat_le_bytes)

lemma length_encodings [simp]:
  "length (padded x) = pad4 (length x)" "length (encode_phdr c le e) = phdr_size c"
  "length (encode_ehdr c le phoff phnum) = ehdr_size c" "length (place off segs) = length segs"
proof -
  show "length (padded x) = pad4 (length x)" using pad4_ge [of "length x"] by (simp add: padded_def)
  show "length (encode_phdr c le e) = phdr_size c" by (cases e) (simp add: encode_phdr_def phdr_size_def split: elf_class_kind.split)
  show "length (encode_ehdr c le phoff phnum) = ehdr_size c" by (simp add: encode_ehdr_def ehdr_size_def split: elf_class_kind.split)
  show "length (place off segs) = length segs" by (induction off segs rule: place.induct) auto
qed

lemma bytes_at_inner: "i = length a + j \<Longrightarrow> j + n \<le> length x \<Longrightarrow> bytes_at (a @ x @ z) i n = bytes_at x j n"
  by (simp add: bytes_at_def)

lemma bytes_at_first: "n = length x \<Longrightarrow> bytes_at (x @ z) 0 n = x"
  by (simp add: bytes_at_def)

lemma bytes_at_skip: "length x \<le> i \<Longrightarrow> bytes_at (x @ z) i n = bytes_at z (i - length x) n"
  by (simp add: bytes_at_def)

lemma bytes_at_Cons: "0 < i \<Longrightarrow> bytes_at (x # z) i n = bytes_at z (i - 1) n"
  by (cases i) (simp_all add: bytes_at_def)

lemma bytes_at_twice: "j + m \<le> n \<Longrightarrow> bytes_at b (i + j) m = bytes_at (bytes_at b i n) j m"
  by (simp add: bytes_at_def take_drop min.absorb1 add.commute)

subsection \<open>Notes\<close>

lemma encode_note_at:
  fixes pre post :: bytes
  defines "p \<equiv> length pre"
  assumes b: "b = pre @ encode_note le n @ post" and len: "length b < 2 ^ 32" "en_type n < 2 ^ 32"
  shows "note_fits le b p" "is_build_id_note le b p \<longleftrightarrow> names_build_id n" "note_desc le b p = en_desc n"
    "next_note le b p = p + length (encode_note le n)"
proof -
  let ?nm = "length (en_name n)" and ?ds = "length (en_desc n)"
  have ln: "length (encode_note le n) = 12 + pad4 ?nm + pad4 ?ds" by (simp add: encode_note_def)
  have small: "?nm < 2 ^ 32" "?ds < 2 ^ 32"
    using len(1) pad4_ge [of ?nm] pad4_ge [of ?ds] by (simp_all add: b ln)
  have at: "bytes_at b (p + j) k = bytes_at (encode_note le n) j k" if "j + k \<le> length (encode_note le n)" for j k
    unfolding b p_def using that by (intro bytes_at_inner) simp_all
  have f: "bytes_at b p 4 = put le 4 ?nm" "bytes_at b (p + 4) 4 = put le 4 ?ds" "bytes_at b (p + 8) 4 = put le 4 (en_type n)"
    using at [of 0 4] at [of 4 4] at [of 8 4] by (simp_all add: ln encode_note_def bytes_at_skip bytes_at_first)
  have word: "u32_at le b q = v" if "bytes_at b q 4 = put le 4 v" "v < 2 ^ 32" for q v
    using that by (simp add: u32_at_def put_def le_nat_le_bytes)
  have u: "u32_at le b p = ?nm" "desc_size le b p = ?ds" "u32_at le b (p + 8) = en_type n"
    unfolding desc_size_def by (rule word [OF f(1) small(1)] word [OF f(2) small(2)] word [OF f(3) len(2)])+
  have d: "desc_at le b p = p + 12 + pad4 ?nm" by (simp add: desc_at_def u)
  show "note_fits le b p" using pad4_ge [of ?ds] by (simp add: note_fits_def d u) (simp add: b p_def ln)
  have "bytes_at b (p + 12) ?nm = en_name n"
    using at [of 12 ?nm] pad4_ge [of ?nm] by (simp add: ln encode_note_def bytes_at_skip) (simp add: padded_def bytes_at_def)
  moreover have "starts_with ''GNU'' x \<longleftrightarrow> take 3 x = ''GNU''" for x by (auto simp: starts_with_def numeral_eq_Suc)
  ultimately show "is_build_id_note le b p \<longleftrightarrow> names_build_id n" by (simp add: is_build_id_note_def names_build_id_def u)
  have "bytes_at b (p + (12 + pad4 ?nm)) ?ds = en_desc n"
    using at [of "12 + pad4 ?nm" ?ds] pad4_ge [of ?ds] by (simp add: ln encode_note_def bytes_at_skip) (simp add: padded_def bytes_at_def)
  then show "note_desc le b p = en_desc n" by (simp add: note_desc_def d u add.assoc)
  show "next_note le b p = p + length (encode_note le n)" by (simp add: next_note_def d u ln)
qed

text \<open>The first note of the segment that is a build-id gives the result, wherever it is.\<close>

lemma find_build_id_encoded:
  assumes "length (pre @ encode_notes le ns) < 2 ^ 32" "\<forall>n\<in>set ns. en_type n < 2 ^ 32"
  shows "find_build_id le (pre @ encode_notes le ns) (length pre) = map_option en_desc (find names_build_id ns)"
  using assms
proof (induction ns arbitrary: pre)
  case Nil
  then show ?case by (simp add: find_build_id.simps encode_notes_def note_fits_def)
next
  case (Cons n ns)
  let ?b = "pre @ encode_notes le (n # ns)"
  have b: "?b = pre @ encode_note le n @ encode_notes le ns" by (simp add: encode_notes_def)
  note at = encode_note_at [OF b Cons.prems(1)]
  have "find_build_id le ?b (length pre + length (encode_note le n)) = map_option en_desc (find names_build_id ns)"
    using Cons.IH [of "pre @ encode_note le n"] Cons.prems by (simp add: b)
  then show ?case using at Cons.prems(2) by (subst find_build_id.simps) simp
qed

subsection \<open>Program headers\<close>

lemma bytes_at_length: "bytes_at b i n = x \<Longrightarrow> length x = n \<Longrightarrow> 0 < n \<Longrightarrow> i + n \<le> length b"
  by (auto simp: bytes_at_def min_def split: if_splits)

lemma read_put:
  assumes "length b < 2 ^ 63" "unat i = p"
  shows "bytes_at b p 2 = put le 2 v \<Longrightarrow> v < 2 ^ 16 \<Longrightarrow> read_u16 chk b i le = Got (of_nat v)"
    and "bytes_at b p 4 = put le 4 v \<Longrightarrow> v < 2 ^ 32 \<Longrightarrow> read_u32 chk b i le = Got (of_nat v)"
    and "bytes_at b p 8 = put le 8 v \<Longrightarrow> v < 2 ^ 64 \<Longrightarrow> read_u64 chk b i le = Got (of_nat v)"
  using assms bytes_at_length [of b p] by (fastforce simp: reads_Got)+

lemma ucast_small: "v < 2 ^ 32 \<Longrightarrow> (ucast (of_nat v :: u32) :: usize) = of_nat v"
  by (simp add: word_unat_eq_iff unat_ucast_u32 unat_of_nat)

lemma ph_notes_encoded:
  assumes len: "length elf < 2 ^ 31" and off: "checked_mul i es = Some m" "checked_add phoff m = Some off"
    and ph: "bytes_at elf (unat off) (phdr_size c) = encode_phdr c le (t, o', length b)" "t < 2 ^ 32"
    and seg: "bytes_at elf o' (length b) = b" "o' + length b \<le> length elf"
  shows "ph_notes chk elf (c = Elf64) le phoff es i = Got (if t = 4 then Some b else None)"
proof -
  let ?p = "unat off"
  have fits: "?p + phdr_size c \<le> length elf" using bytes_at_length [OF ph(1)] by (simp add: phdr_size_def split: elf_class_kind.splits)
  have sz: "phdr_size c \<le> 56" by (simp add: phdr_size_def split: elf_class_kind.split)
  have add: "usize_add chk off w = Got (off + w)" "unat (off + w) = ?p + unat w" if "unat w \<le> 40" for w
    using usize_add_small [of off w chk] fits len that by simp_all
  have field: "bytes_at elf (?p + j) k = bytes_at (encode_phdr c le (t, o', length b)) j k" if "j + k \<le> phdr_size c" for j k
    using bytes_at_twice [OF that, of elf ?p] ph(1) by simp
  have len': "length elf < 2 ^ 63" and small: "o' < 2 ^ 32" "length b < 2 ^ 32" using len seg(2) by simp_all
  have ty: "read_u32 chk elf off le = Got (of_nat t)"
    using field [of 0 4] ph(2) by (intro read_put(2) [OF len' refl]) (simp_all add: encode_phdr_def bytes_at_first phdr_size_def split: elf_class_kind.splits)
  have note_type: "(of_nat t :: u32) = PT_NOTE \<longleftrightarrow> t = 4" using ph(2) by (simp add: PT_NOTE_def word_unat_eq_iff unat_of_nat)
  have w: "unat (of_nat o' :: usize) = o'" "unat (of_nat (length b) :: usize) = length b" using small by (simp_all add: unat_of_nat)
  have sl: "slice_get elf (of_nat o') (of_nat o' + of_nat (length b)) = Some b" "checked_add (of_nat o') (of_nat (length b) :: usize) = Some (of_nat o' + of_nat (length b))"
    using slice_get_add_small [of "of_nat o'" "length b" "of_nat (length b)" elf] w small seg by (simp_all add: checked_add_def)
  show ?thesis
  proof (cases c)
    case Elf64
    have "read_u64 chk elf (off + 8) le = Got (of_nat o')" "read_u64 chk elf (off + 32) le = Got (of_nat (length b))"
      using field [of 8 8] field [of 32 8] small
      by (auto intro!: read_put(3) [OF len' add(2)] simp: Elf64 encode_phdr_def phdr_size_def bytes_at_skip bytes_at_first)
    then show ?thesis using off ty note_type sl by (simp add: ph_notes_def Elf64 add)
  next
    case Elf32
    have "read_u32 chk elf (off + 4) le = Got (of_nat o')" "read_u32 chk elf (off + 16) le = Got (of_nat (length b))"
      using field [of 4 4] field [of 16 4] small
      by (auto intro!: read_put(2) [OF len' add(2)] simp: Elf32 encode_phdr_def phdr_size_def bytes_at_skip bytes_at_first)
    then show ?thesis using off ty note_type sl small by (simp add: ph_notes_def Elf32 add ucast_small)
  qed
qed

subsection \<open>Whole images\<close>

datatype segment = NoteSegment "elf_note list" | OtherSegment nat bytes

fun encode_segment :: "bool \<Rightarrow> segment \<Rightarrow> nat \<times> bytes" where
  "encode_segment le (NoteSegment ns) = (4, encode_notes le ns)"
| "encode_segment le (OtherSegment t b) = (t, b)"

fun seg_notes :: "segment \<Rightarrow> elf_note list" where
  "seg_notes (NoteSegment ns) = ns"
| "seg_notes (OtherSegment t b) = []"

text \<open>The numbers fit their fields, and only a note segment has the type of one.\<close>

fun segment_ok :: "segment \<Rightarrow> bool" where
  "segment_ok (NoteSegment ns) \<longleftrightarrow> list_all (\<lambda>n. en_type n < 2 ^ 32) ns"
| "segment_ok (OtherSegment t b) \<longleftrightarrow> t < 2 ^ 32 \<and> t \<noteq> 4"

lemma find_append: "find P (xs @ ys) = (case find P xs of None \<Rightarrow> find P ys | Some x \<Rightarrow> Some x)"
  by (induction xs) auto

lemma ph_loop_segments:
  assumes "list_all2 (\<lambda>i sg. ph_notes chk elf is64 le phoff es i =
      Got (case sg of NoteSegment ns \<Rightarrow> Some (encode_notes le ns) | OtherSegment _ _ \<Rightarrow> None)) is segs"
    and "list_all segment_ok segs" "\<forall>sg\<in>set segs. length (snd (encode_segment le sg)) < 2 ^ 32"
  shows "ph_loop chk elf is64 le phoff es is =
    Some (of_opt (map_option (\<lambda>n. hex (en_desc n)) (find names_build_id (concat (map seg_notes segs)))))"
  using assms
proof (induction rule: list_all2_induct)
  case (Cons i "is" sg segs)
  show ?case
  proof (cases sg)
    case (NoteSegment ns)
    then have "scan_notes chk (encode_notes le ns) le 0 = Some (of_opt (map_option hex (map_option en_desc (find names_build_id ns))))"
      using scan_notes_ref [of "encode_notes le ns" 0 chk le] find_build_id_encoded [of "[]" le ns] Cons.prems
      by (simp add: list_all_iff)
    then show ?thesis using Cons NoteSegment by (cases "find names_build_id ns") (auto simp: find_append)
  next
    case (OtherSegment t b)
    then show ?thesis using Cons by (simp add: find_append)
  qed
qed simp

lemma concat_block:
  assumes "k < length xs"
  shows "concat (map f xs) = concat (map f (take k xs)) @ f (xs ! k) @ concat (map f (drop (Suc k) xs))"
  by (subst id_take_nth_drop [OF assms]) simp

lemma place_nth:
  "k < length segs \<Longrightarrow> place off segs ! k = (fst (segs ! k), off + length (concat (map snd (take k segs))), length (snd (segs ! k)))"
proof (induction off segs arbitrary: k rule: place.induct)
  case (2 off t b segs)
  then show ?case by (cases k) (simp_all add: add.assoc)
qed simp

lemma length_table: "length (concat (map (encode_phdr c le) es)) = length es * phdr_size c"
  by (induction es) simp_all

text \<open>Where the parts of an image are.\<close>

lemma elf_image_parts:
  fixes c :: elf_class_kind and le :: bool and gap :: bytes and segs :: "(nat \<times> bytes) list"
  defines "elf \<equiv> elf_image c le gap segs" and "phoff \<equiv> ehdr_size c + length gap"
  defines "at k \<equiv> phoff + length segs * phdr_size c + length (concat (map snd (take k segs)))"
  shows "bytes_at elf 0 (ehdr_size c) = encode_ehdr c le phoff (length segs)"
    and "k < length segs \<Longrightarrow> bytes_at elf (phoff + k * phdr_size c) (phdr_size c) =
      encode_phdr c le (fst (segs ! k), at k, length (snd (segs ! k)))"
    and "k < length segs \<Longrightarrow> bytes_at elf (at k) (length (snd (segs ! k))) = snd (segs ! k)"
    and "k < length segs \<Longrightarrow> at k + length (snd (segs ! k)) \<le> length elf"
    and "phoff + length segs * phdr_size c \<le> length elf"
proof -
  let ?h = "encode_ehdr c le phoff (length segs)" and ?es = "place (phoff + length segs * phdr_size c) segs"
  let ?tab = "concat (map (encode_phdr c le) ?es)" and ?body = "concat (map snd segs)"
  have e: "elf = ?h @ gap @ ?tab @ ?body" by (simp add: elf_def elf_image_def Let_def phoff_def)
  have l: "length (?h @ gap) = phoff" "length (?h @ gap @ ?tab) = phoff + length segs * phdr_size c"
    by (simp_all add: phoff_def length_table)
  show "bytes_at elf 0 (ehdr_size c) = ?h" by (simp add: e bytes_at_first)
  show "phoff + length segs * phdr_size c \<le> length elf" using l(2) by (simp add: e)
  assume k: "k < length segs"
  have "bytes_at elf (phoff + k * phdr_size c) (phdr_size c) = bytes_at ?tab (k * phdr_size c) (phdr_size c)"
    using bytes_at_inner [of "phoff + k * phdr_size c" "?h @ gap" "k * phdr_size c" "phdr_size c" ?tab ?body] k l
      mult_le_mono1 [of "Suc k" "length segs" "phdr_size c"] by (simp add: e length_table add.commute)
  also have "\<dots> = encode_phdr c le (?es ! k)"
  proof -
    have "bytes_at ?tab (k * phdr_size c) (phdr_size c) = bytes_at (encode_phdr c le (?es ! k)) 0 (phdr_size c)"
      using k by (subst concat_block [of k]) (simp, rule bytes_at_inner, simp_all add: length_table)
    then show ?thesis by (simp add: bytes_at_def)
  qed
  finally show "bytes_at elf (phoff + k * phdr_size c) (phdr_size c) = encode_phdr c le (fst (segs ! k), at k, length (snd (segs ! k)))"
    using k by (simp add: place_nth at_def)
  have body: "?body = concat (map snd (take k segs)) @ snd (segs ! k) @ concat (map snd (drop (Suc k) segs))"
    by (rule concat_block [OF k])
  then have split: "elf = (?h @ gap @ ?tab @ concat (map snd (take k segs))) @ snd (segs ! k) @ concat (map snd (drop (Suc k) segs))"
    unfolding e by (simp only: append_assoc)
  have "at k = length (?h @ gap @ ?tab @ concat (map snd (take k segs)))"
    by (simp add: at_def phoff_def length_table)
  then show "bytes_at elf (at k) (length (snd (segs ! k))) = snd (segs ! k)" "at k + length (snd (segs ! k)) \<le> length elf"
    unfolding split by (simp_all add: bytes_at_def)
qed

lemma checked_of_nat:
  "a + b < 2 ^ 64 \<Longrightarrow> checked_add (of_nat a) (of_nat b) = Some (of_nat (a + b) :: u64)"
  "a * b < 2 ^ 64 \<Longrightarrow> a < 2 ^ 64 \<Longrightarrow> b < 2 ^ 64 \<Longrightarrow> checked_mul (of_nat a) (of_nat b) = Some (of_nat (a * b) :: u64)"
  by (simp_all add: checked_add_def checked_mul_def unat_of_nat)

lemma ucast_u16: "v < 2 ^ 16 \<Longrightarrow> (ucast (of_nat v :: u16) :: u64) = of_nat v"
  by (simp add: word_unat_eq_iff unsigned_ucast_eq unat_of_nat take_bit_nat_eq_self)

lemma elf_image_header:
  fixes c :: elf_class_kind and le :: bool and gap :: bytes and segs :: "(nat \<times> bytes) list"
  defines "elf \<equiv> elf_image c le gap segs" and "phoff \<equiv> ehdr_size c + length gap"
  assumes "length elf < 2 ^ 31" "length segs < 2 ^ 16" and len: "64 \<le> length elf"
  shows "slice_index elf 0 4 = Got elf_magic" "elf_class elf = Got (c = Elf64, le)"
    "ph_table chk elf (c = Elf64) le = Got (of_nat phoff, of_nat (phdr_size c), of_nat (length segs))"
proof -
  let ?h = "encode_ehdr c le phoff (length segs)"
  note parts = elf_image_parts [where c = c and le = le and gap = gap and segs = segs, folded elf_def phoff_def]
  have field: "bytes_at elf j n = bytes_at ?h j n" if "j + n \<le> ehdr_size c" for j n
    using bytes_at_twice [OF that, of elf 0] parts(1) by simp
  have sz: "52 \<le> ehdr_size c" by (simp add: ehdr_size_def split: elf_class_kind.split)
  have magic: "bytes_at elf 0 4 = elf_magic" using field [of 0 4] sz by (simp add: encode_ehdr_def bytes_at_first)
  then show "slice_index elf 0 4 = Got elf_magic" using len by (simp add: slice_index_def slice_get_def bytes_at_def)
  have byte: "bytes_at elf 4 1 = [case c of Elf32 \<Rightarrow> CHR 0x01 | Elf64 \<Rightarrow> CHR 0x02]" "bytes_at elf 5 1 = [if le then CHR 0x01 else CHR 0x02]"
    using field [of 4 1] field [of 5 1] sz by (auto simp: encode_ehdr_def elf_magic_def bytes_at_def split: elf_class_kind.split)
  then show "elf_class elf = Got (c = Elf64, le)"
    using len hd_bytes_at [of 4 elf] hd_bytes_at [of 5 elf] by (simp add: elf_class_def byte_index_def split: elf_class_kind.split)
  have len': "length elf < 2 ^ 63" and po: "phoff < 2 ^ 31" using assms(3) parts(5) by simp_all
  have ps: "phdr_size c < 2 ^ 16" by (simp add: phdr_size_def split: elf_class_kind.split)
  note rd = read_put [OF len']
  show "ph_table chk elf (c = Elf64) le = Got (of_nat phoff, of_nat (phdr_size c), of_nat (length segs))"
  proof (cases c)
    case Elf64
    have "bytes_at elf 32 8 = put le 8 phoff" "bytes_at elf 54 2 = put le 2 (phdr_size c)" "bytes_at elf 56 2 = put le 2 (length segs)"
      using field [of 32 8] field [of 54 2] field [of 56 2]
      by (simp_all add: Elf64 ehdr_size_def encode_ehdr_def phdr_size_def bytes_at_skip bytes_at_Cons bytes_at_first)
    then have "read_u64 chk elf 0x20 le = Got (of_nat phoff)" "read_u16 chk elf 0x36 le = Got (of_nat (phdr_size c))"
      "read_u16 chk elf 0x38 le = Got (of_nat (length segs))"
      using po assms(4) ps rd(1) [where i = "0x36" and p = 54] rd(1) [where i = "0x38" and p = 56] rd(3) [where i = "0x20" and p = 32] by simp_all
    then show ?thesis using assms(4) ps by (simp add: ph_table_def Elf64 ucast_u16)
  next
    case Elf32
    have "bytes_at elf 28 4 = put le 4 phoff" "bytes_at elf 42 2 = put le 2 (phdr_size c)" "bytes_at elf 44 2 = put le 2 (length segs)"
      using field [of 28 4] field [of 42 2] field [of 44 2]
      by (simp_all add: Elf32 ehdr_size_def encode_ehdr_def phdr_size_def bytes_at_skip bytes_at_Cons bytes_at_first)
    then have "read_u32 chk elf 0x1C le = Got (of_nat phoff)" "read_u16 chk elf 0x2A le = Got (of_nat (phdr_size c))"
      "read_u16 chk elf 0x2C le = Got (of_nat (length segs))"
      using po assms(4) ps rd(1) [where i = "0x2A" and p = 42] rd(1) [where i = "0x2C" and p = 44] rd(2) [where i = "0x1C" and p = 28] by simp_all
    then show ?thesis using assms(4) po ps by (simp add: ph_table_def Elf32 ucast_u16 ucast_small)
  qed
qed

lemma build_id_image:
  fixes c :: elf_class_kind and le :: bool and gap :: bytes and segs :: "segment list"
  defines "elf \<equiv> elf_image c le gap (map (encode_segment le) segs)"
  assumes "length elf < 2 ^ 31" "length segs < 2 ^ 16" "list_all segment_ok segs"
  shows "build_id_from_bytes chk elf =
    Some (of_opt (map_option (\<lambda>n. hex (en_desc n)) (find names_build_id (concat (map seg_notes segs)))))"
proof (cases "64 \<le> length elf")
  case False
  have "segs = []"
  proof (rule ccontr)
    assume "segs \<noteq> []"
    then have "1 * phdr_size c \<le> length segs * phdr_size c" by (intro mult_le_mono1) (simp add: Suc_le_eq)
    with elf_image_parts(5) [where c = c and le = le and gap = gap and segs = "map (encode_segment le) segs"] False show False
      by (simp add: elf_def ehdr_size_def phdr_size_def split: elf_class_kind.splits)
  qed
  with False show ?thesis by (simp add: build_id_from_bytes_def)
next
  case True
  let ?segs = "map (encode_segment le) segs" and ?phoff = "ehdr_size c + length gap"
  note parts = elf_image_parts [where c = c and le = le and gap = gap and segs = ?segs, folded elf_def]
  note h = elf_image_header [where c = c and le = le and gap = gap and segs = ?segs, folded elf_def]
  have "ph_notes chk elf (c = Elf64) le (of_nat ?phoff) (of_nat (phdr_size c)) (of_nat k) =
      Got (case segs ! k of NoteSegment ns \<Rightarrow> Some (encode_notes le ns) | OtherSegment _ _ \<Rightarrow> None)" if k: "k < length segs" for k
  proof -
    have "(Suc k) * phdr_size c \<le> length segs * phdr_size c" using k by (intro mult_le_mono1) simp
    then have b: "?phoff + k * phdr_size c < 2 ^ 31" "k * phdr_size c < 2 ^ 31" "phdr_size c < 2 ^ 31" "k < 2 ^ 31"
      using parts(5) assms(2,3) k by (simp_all add: phdr_size_def split: elf_class_kind.splits)
    have ua: "unat (of_nat (?phoff + k * phdr_size c) :: usize) = ?phoff + k * phdr_size c"
      using b by (simp add: unat_of_nat del: of_nat_add of_nat_mult)
    have "ph_notes chk elf (c = Elf64) le (of_nat ?phoff) (of_nat (phdr_size c)) (of_nat k) =
      Got (if fst (encode_segment le (segs ! k)) = 4 then Some (snd (encode_segment le (segs ! k))) else None)"
    proof (rule ph_notes_encoded [where off = "of_nat (?phoff + k * phdr_size c)" and m = "of_nat (k * phdr_size c)"])
      show "length elf < 2 ^ 31" by (rule assms)
      show "checked_mul (of_nat k) (of_nat (phdr_size c)) = Some (of_nat (k * phdr_size c) :: u64)"
        using b by (intro checked_of_nat) simp_all
      show "checked_add (of_nat ?phoff) (of_nat (k * phdr_size c)) = Some (of_nat (?phoff + k * phdr_size c) :: u64)"
        using b by (intro checked_of_nat) simp
      show "fst (encode_segment le (segs ! k)) < 2 ^ 32" using assms(4) k by (cases "segs ! k") (auto simp: list_all_length)
    qed (use parts k ua in \<open>simp_all del: of_nat_add of_nat_mult\<close>)
    then show ?thesis using assms(4) k by (cases "segs ! k") (auto simp: list_all_length)
  qed
  then have "list_all2 (\<lambda>i sg. ph_notes chk elf (c = Elf64) le (of_nat ?phoff) (of_nat (phdr_size c)) i =
      Got (case sg of NoteSegment ns \<Rightarrow> Some (encode_notes le ns) | OtherSegment _ _ \<Rightarrow> None)) (map of_nat [0..<length segs]) segs"
    by (simp add: list_all2_conv_all_nth)
  moreover have "length (snd (encode_segment le sg)) < 2 ^ 32" if "sg \<in> set segs" for sg
    using that parts(4) assms(2) by (fastforce simp: in_set_conv_nth)
  ultimately have "ph_loop chk elf (c = Elf64) le (of_nat ?phoff) (of_nat (phdr_size c)) (map of_nat [0..<length segs]) =
    Some (of_opt (map_option (\<lambda>n. hex (en_desc n)) (find names_build_id (concat (map seg_notes segs)))))"
    using assms(4) by (intro ph_loop_segments) auto
  moreover have "unat (of_nat (length segs) :: u64) = length segs" using assms(3) by (simp add: unat_of_nat)
  ultimately show ?thesis using h assms(2,3) True by (simp add: build_id_from_bytes_def)
qed

section \<open>Hexadecimal is faithful\<close>

lemma length_HEX: "length HEX = 16"
  by (simp add: HEX_def)

lemma nibble_lt: "byte_val c div 16 < 16" "byte_val c mod 16 < 16"
  by (rule less_mult_imp_div_less) simp_all

lemma HEX_inj: "i < 16 \<Longrightarrow> j < 16 \<Longrightarrow> HEX ! i = HEX ! j \<Longrightarrow> i = j"
  by (rule nth_eq_iff_index_eq [THEN iffD1, of HEX]) (simp_all add: HEX_def)

lemma hex_digits_inj:
  assumes "HEX ! (byte_val a div 16) = HEX ! (byte_val b div 16)" "HEX ! (byte_val a mod 16) = HEX ! (byte_val b mod 16)"
  shows "a = b"
proof -
  from assms have "byte_val a div 16 = byte_val b div 16" "byte_val a mod 16 = byte_val b mod 16"
    using HEX_inj nibble_lt by blast+
  then have "byte_val a = byte_val b" by (metis div_mult_mod_eq)
  then show ?thesis by simp
qed

lemma hex_inj: "hex a = hex b \<Longrightarrow> a = b"
proof (induction a arbitrary: b)
  case Nil
  then show ?case by (cases b) auto
next
  case (Cons x a)
  then show ?case by (cases b) (auto intro: hex_digits_inj)
qed

lemma length_hex [simp]: "length (hex a) = 2 * length a"
  by (induction a) auto

lemma set_hex: "set (hex a) \<subseteq> set HEX"
proof (induction a)
  case (Cons x a)
  have "byte_val x div 16 < length HEX" "byte_val x mod 16 < length HEX"
    unfolding length_HEX by (rule nibble_lt)+
  then have "HEX ! (byte_val x div 16) \<in> set HEX" "HEX ! (byte_val x mod 16) \<in> set HEX" by (simp_all only: nth_mem)
  with Cons show ?case by simp
qed simp

text \<open>The release build ends on every image and does not panic.\<close>

lemma build_id_returns:
  assumes "length elf < 2 ^ 63"
  shows "\<exists>r. build_id_from_bytes False elf = Some r \<and> r \<noteq> Panic"
proof (cases "64 \<le> length elf")
  case True
  then have sl: "slice_index elf 0 4 = Got (take 4 elf)" by (simp add: slice_index_def slice_get_def)
  have "elf_class elf \<noteq> Panic" using True by (auto simp: elf_class_def byte_index_def pbind_Panic split: if_splits)
  moreover have "ph_table False elf is64 le \<noteq> Panic" for is64 le
    by (auto simp: ph_table_def pbind_Panic reads_Panic split: if_splits)
  ultimately have "pbind (elf_class elf) (\<lambda>(is64, le). pbind (ph_table False elf is64 le) (\<lambda>t. Got (is64, le, t))) \<noteq> Panic"
    by (auto simp: pbind_Panic)
  then show ?thesis
    using True sl ph_loop_returns [OF assms]
    by (auto simp: build_id_from_bytes_def split: parsed.splits)
qed (simp add: build_id_from_bytes_def)

lemma build_id_from_path_returns: "\<exists>r. build_id_from_path False io s p = Some r \<and> r \<noteq> Panic"
proof (cases "fs_read io s p")
  case (Inr c)
  have "length (take MAX_ELF_PREFIX c) \<le> MAX_ELF_PREFIX" by simp
  also have "\<dots> < 2 ^ 63" by (simp add: MAX_ELF_PREFIX_def)
  finally show ?thesis using build_id_returns Inr by (simp add: build_id_from_path_def)
qed (simp add: build_id_from_path_def)

section \<open>Properties\<close>

text \<open>
  C38. Build-id extraction never blocks or kills a capture: whatever the headers and notes of
  an image of a length a slice can have say, the parser of the release build ends and does
  not panic; and so does reading the build-id of a path, whatever is there.
\<close>

theorem build_id_total:
  "(length elf < 2 ^ 63 \<longrightarrow> (\<exists>r. build_id_from_bytes False elf = Some r \<and> r \<noteq> Panic)) \<and>
   (\<exists>r. build_id_from_path False io s p = Some r \<and> r \<noteq> Panic)"
  using build_id_returns build_id_from_path_returns by blast

theorem build_id_total_witness:
  "\<exists>r. build_id_from_bytes False (elf_magic @ replicate 100 (CHR 0x02)) = Some r \<and> r \<noteq> Panic"
  using build_id_total [of "elf_magic @ replicate 100 (CHR 0x02)"] by simp

text \<open>
  C39. A reported build-id is one: it is the hexadecimal description of a note of type
  \<open>NT_GNU_BUILD_ID\<close> and name \<open>GNU\<close> that lies, header, name and description, inside a segment of the image,
  and the image is an ELF file.
\<close>

theorem build_id_sound:
  assumes "length elf < 2 ^ 63" "build_id_from_bytes chk elf = Some (Got i)"
  shows "starts_with elf_magic elf \<and>
    (\<exists>le start n q. start + n \<le> length elf \<and>
      note_fits le (bytes_at elf start n) q \<and> is_build_id_note le (bytes_at elf start n) q \<and>
      i = hex (note_desc le (bytes_at elf start n) q))"
proof -
  from assms(2) obtain is64 le phoff phentsize and phnum :: u64 where
    h: "starts_with elf_magic elf" and
    l: "ph_loop chk elf is64 le phoff phentsize (map of_nat [0..<unat phnum]) = Some (Got i)"
    by (rule build_id_header)
  from ph_loop_sound [OF assms(1) l] obtain start n d where
    s: "start + n \<le> length elf" "find_build_id le (bytes_at elf start n) 0 = Some d" "i = hex d" by blast
  from find_build_id_sound [OF s(2)] s(1,3) h show ?thesis by blast
qed

theorem build_id_sound_witness:
  "starts_with elf_magic (synthetic_elf Elf64 [CHR 0xDE, CHR 0xAD])"
proof -
  have "build_id_from_bytes False (synthetic_elf Elf64 [CHR 0xDE, CHR 0xAD]) = Some (Got (hex [CHR 0xDE, CHR 0xAD]))"
    by (rule build_id_synthetic64) simp
  moreover have "length (synthetic_elf Elf64 [CHR 0xDE, CHR 0xAD]) < 2 ^ 63"
    using synthetic_elf64_fields(1) build_id_note_parts(3) [of "[CHR 0xDE, CHR 0xAD]"] by (simp add: pad4_def)
  ultimately show ?thesis using build_id_sound by blast
qed

text \<open>
  C40. Round trip: from any image that the general encoder makes, 32-bit or 64-bit, of either
  byte order, with any bytes before the program header table, any number of program headers and any number of
  notes, exactly the description of the first build-id note comes back, in the order of the program
  headers and of the notes in a segment, and nothing when there is no such note. The id has two
  lower-case hexadecimal digits per byte, and different descriptions give different ids. No addition
  overflows on the way, so the result is the same with and without overflow checks. The images are
  those below 2 GiB with fewer than 65536 program headers whose note segments are whole; a note
  segment that reaches out of the image ends the search.
\<close>

theorem build_id_roundtrip:
  assumes "length (elf_image c le gap (map (encode_segment le) segs)) < 2 ^ 31" "length segs < 2 ^ 16"
    and "list_all segment_ok segs"
  shows "build_id_from_bytes chk (elf_image c le gap (map (encode_segment le) segs)) =
      Some (of_opt (map_option (\<lambda>n. hex (en_desc n)) (find names_build_id (concat (map seg_notes segs))))) \<and>
    length (hex desc) = 2 * length desc \<and> set (hex desc) \<subseteq> set ''0123456789abcdef'' \<and> (hex desc = hex desc' \<longrightarrow> desc = desc')"
  using build_id_image [OF assms, of chk] set_hex [of desc] hex_inj [of desc desc'] by (simp add: HEX_def)

theorem build_id_roundtrip_witness:
  "build_id_from_bytes False (elf_image Elf32 False ''gap'' (map (encode_segment False)
      [OtherSegment 1 ''code'', NoteSegment [\<lparr>en_name = ''GNU'' @ [CHR 0x00], en_type = 1, en_desc = ''abi''\<rparr>],
       NoteSegment [\<lparr>en_name = ''Go'' @ [CHR 0x00], en_type = 4, en_desc = ''x''\<rparr>,
         \<lparr>en_name = ''GNU'' @ [CHR 0x00], en_type = 3, en_desc = [CHR 0xDE, CHR 0xAD, CHR 0xBE, CHR 0xEF, CHR 0x01]\<rparr>]])) =
    Some (Got ''deadbeef01'')"
proof -
  let ?segs = "[OtherSegment 1 ''code'', NoteSegment [\<lparr>en_name = ''GNU'' @ [CHR 0x00], en_type = 1, en_desc = ''abi''\<rparr>],
       NoteSegment [\<lparr>en_name = ''Go'' @ [CHR 0x00], en_type = 4, en_desc = ''x''\<rparr>,
         \<lparr>en_name = ''GNU'' @ [CHR 0x00], en_type = 3, en_desc = [CHR 0xDE, CHR 0xAD, CHR 0xBE, CHR 0xEF, CHR 0x01]\<rparr>]]"
  have "length (elf_image Elf32 False ''gap'' (map (encode_segment False) ?segs)) < 2 ^ 31"
    by (simp add: elf_image_def Let_def ehdr_size_def phdr_size_def encode_notes_def encode_note_def pad4_def)
  moreover have "find names_build_id (concat (map seg_notes ?segs)) =
      Some \<lparr>en_name = ''GNU'' @ [CHR 0x00], en_type = 3, en_desc = [CHR 0xDE, CHR 0xAD, CHR 0xBE, CHR 0xEF, CHR 0x01]\<rparr>"
    by (simp add: names_build_id_def)
  moreover have "hex [CHR 0xDE, CHR 0xAD, CHR 0xBE, CHR 0xEF, CHR 0x01] = ''deadbeef01''" by (simp add: HEX_def)
  ultimately show ?thesis using build_id_roundtrip [of Elf32 False "''gap''" ?segs False] by simp
qed

text \<open>
  The word-level scan of a note segment is the scan over natural numbers that never wraps:
  it ends, does not panic, and returns the description that the reference search finds, for any
  segment and with or without overflow checks.
\<close>

theorem scan_notes_exact:
  assumes "length b < 2 ^ 63"
  shows "scan_notes chk b le 0 = Some (of_opt (map_option hex (find_build_id le b 0)))"
  using scan_notes_ref [OF assms, of 0 chk le] by simp

theorem scan_notes_exact_witness:
  "scan_notes True (build_id_note ''ab'') True 0 = Some (Got ''6162'')"
proof -
  have f: "find_build_id True (build_id_note ''ab'') 0 = Some ''ab''" and "length (build_id_note ''ab'') < 2 ^ 63"
    using build_id_note_parts [of "''ab''"] by (simp_all add: pad4_def)
  from scan_notes_exact [OF this(2), of True True] f show ?thesis by (simp add: HEX_def)
qed

text \<open>
  With overflow checks the parser can be made to panic: a 64-bit image whose program
  header offset is one of the last four addresses panics in \<open>read_u32\<close> (the release build
  returns nothing for it).
\<close>

theorem build_id_debug_overflow:
  assumes "64 \<le> length elf" "length elf < 2 ^ 63" "bytes_at elf 0 4 = elf_magic" "elf_class elf = Got (True, le)"
    and "ph_table True elf True le = Got (phoff, phentsize, phnum)" "2 ^ 64 - 4 \<le> unat phoff" "phnum \<noteq> 0"
  shows "build_id_from_bytes True elf = Some Panic \<and> build_id_from_bytes False elf = Some Nothing"
proof -
  have s: "slice_index elf 0 4 = Got elf_magic"
    using assms(1,3) by (simp add: slice_index_def slice_get_def bytes_at_def)
  have t: "ph_table False elf True le = Got (phoff, phentsize, phnum)"
    using assms(5) by (auto simp: ph_table_def pbind_Got reads_Got)
  have "unat phoff < 2 ^ LENGTH(64)" by (rule unsigned_less)
  then have h: "ph_notes chk elf True le phoff phentsize 0 = (if chk then Panic else Nothing)" for chk
    using assms(2,6) read_u32_Panic [of chk elf phoff le] read_u32_Got [of chk elf phoff le]
    by (cases "read_u32 chk elf phoff le") (auto simp: ph_notes_def checked_mul_def checked_add_def)
  have "[0..<unat phnum] = 0 # [1..<unat phnum]" using assms(7) by (simp add: upt_conv_Cons unat_gt_0)
  then show ?thesis using assms(1,4,5) s t h by (simp add: build_id_from_bytes_def)
qed

theorem build_id_debug_overflow_witness:
  "build_id_from_bytes True (splices [(0, elf_magic), (4, [CHR 0x02]), (5, [CHR 0x01]), (32, le_bytes 8 (2 ^ 64 - 1)),
      (54, le_bytes 2 56), (56, le_bytes 2 1)] (replicate 64 (CHR 0x00))) = Some Panic"
proof -
  let ?ps = "[(0, elf_magic), (4, [CHR 0x02]), (5, [CHR 0x01]), (32, le_bytes 8 (2 ^ 64 - 1)),
      (54, le_bytes 2 56), (56, le_bytes 2 1)]"
  let ?e = "splices ?ps (replicate 64 (CHR 0x00))"
  have ok: "list_all (\<lambda>(i, bs). i + length bs \<le> 64) ?ps" by simp
  have len: "length ?e = 64" by (rule header_length [OF ok])
  note hf = header_field [OF ok, where c = "CHR 0x00" and body = "[]", unfolded append_Nil2]
  have b: "bytes_at ?e 0 4 = elf_magic" "bytes_at ?e 4 1 = [CHR 0x02]" "bytes_at ?e 5 1 = [CHR 0x01]"
    "bytes_at ?e 32 8 = le_bytes 8 (2 ^ 64 - 1)" "bytes_at ?e 54 2 = le_bytes 2 56" "bytes_at ?e 56 2 = le_bytes 2 1"
    by (rule hf; simp)+
  have c: "elf_class ?e = Got (True, True)"
    using b(2,3) len hd_bytes_at [of 4 ?e] hd_bytes_at [of 5 ?e] by (simp add: elf_class_def byte_index_def)
  have "(of_nat (2 ^ 64 - 1) :: u64) = - 1" by simp
  then have "ph_table True ?e True True = Got (- 1, 56, 1)"
    using b(4,5,6) len by (simp add: ph_table_def pbind_Got reads_Got)
  then show ?thesis using build_id_debug_overflow [OF _ _ b(1) c] len by (simp add: unsigned_minus_1_eq_mask mask_eq_exp_minus_1)
qed

end
