(* ===== verification/Backend.thy ===== *)
theory Backend
  imports Prelude
begin

text \<open>
  \<open>src/backend.rs\<close>: the seam between the handler and the sink of the kernel's core stream.
  The core pipe is a script of what its reads will yield: data, an error, or a stall (nothing
  before the deadline); an exhausted script is the end of the stream. A read returns at most
  a buffer full and leaves the rest. Waiting for a stalled pipe without a deadline never
  returns, and such a drain has the value \<open>None\<close>. The locale \<open>core_sink\<close> is the contract of
  the trait \<open>CaptureBackend\<close>.
\<close>

section \<open>The core pipe\<close>

datatype read_ev = Data bytes | ReadErr | Stall

type_synonym pipe = "read_ev list"

datatype read_result = ReadOk bytes | ReadFailed | NotReady

text \<open>\<open>reader.read(&mut buf)\<close> with a buffer of \<open>n\<close> bytes; an empty result is the end of the stream.\<close>

fun read_pipe :: "nat \<Rightarrow> pipe \<Rightarrow> read_result \<times> pipe" where
  "read_pipe n [] = (ReadOk [], [])"
| "read_pipe n (Data bs # p) =
     (if length bs \<le> n then (ReadOk bs, p) else (ReadOk (take n bs), Data (drop n bs) # p))"
| "read_pipe n (ReadErr # p) = (ReadFailed, p)"
| "read_pipe n (Stall # p) = (NotReady, p)"

fun pipe_size :: "pipe \<Rightarrow> nat" where
  "pipe_size [] = 0"
| "pipe_size (Data bs # p) = Suc (length bs + pipe_size p)"
| "pipe_size (_ # p) = Suc (pipe_size p)"

lemma read_pipe_smaller: "0 < n \<Longrightarrow> (ReadOk (b # bs), p') = read_pipe n p \<Longrightarrow> pipe_size p' < pipe_size p"
  by (induction n p rule: read_pipe.induct) (auto split: if_splits)

text \<open>What the pipe delivers until its end, an error or a stall, and which of them comes.\<close>

datatype pipe_end = AtEof | AtError | AtStall

fun stream_of :: "pipe \<Rightarrow> bytes \<times> pipe_end" where
  "stream_of [] = ([], AtEof)"
| "stream_of (Data bs # p) =
     (if bs = [] then ([], AtEof) else (bs @ fst (stream_of p), snd (stream_of p)))"
| "stream_of (ReadErr # p) = ([], AtError)"
| "stream_of (Stall # p) = ([], AtStall)"

lemma stream_of_read:
  assumes "0 < n"
  shows "stream_of p =
    (case read_pipe n p of
       (ReadOk bs, p') \<Rightarrow> if bs = [] then ([], AtEof) else (bs @ fst (stream_of p'), snd (stream_of p'))
     | (ReadFailed, _) \<Rightarrow> ([], AtError)
     | (NotReady, _) \<Rightarrow> ([], AtStall))"
proof (cases p)
  case (Cons e q)
  show ?thesis
  proof (cases e)
    case (Data bs)
    then show ?thesis
      using assms Cons by (cases "length bs \<le> n") (auto simp: append_assoc [symmetric] simp del: append_assoc)
  qed (use Cons in auto)
qed simp

section \<open>Results of a drain\<close>

record core_stats =
  cs_bytes :: u64
  cs_stored_bytes :: u64
  cs_sha256 :: "string option"
  cs_truncated :: bool
  cs_truncated_reason :: "string option"

datatype drain_error = DeadlineExceeded | WriteFailed | FinalizeFailed

type_synonym drain_result = "(drain_error + core_stats) option"

section \<open>\<open>DiscardBackend\<close>\<close>

definition DISCARD_CHUNK :: nat where "DISCARD_CHUNK = 64 * 1024"

lemma DISCARD_CHUNK_pos: "0 < DISCARD_CHUNK" by (simp add: DISCARD_CHUNK_def)

text \<open>The loop; \<open>deadline\<close> tells whether one is set.\<close>

function discard_loop :: "bool \<Rightarrow> u64 \<Rightarrow> pipe \<Rightarrow> drain_result" where
  "discard_loop deadline bytes p =
     (case read_pipe DISCARD_CHUNK p of
        (NotReady, _) \<Rightarrow> if deadline then Some (Inl DeadlineExceeded) else None
      | (ReadOk [], _) \<Rightarrow>
          Some (Inr \<lparr>cs_bytes = bytes, cs_stored_bytes = 0, cs_sha256 = None,
                     cs_truncated = False, cs_truncated_reason = None\<rparr>)
      | (ReadOk (b # bs), p') \<Rightarrow> discard_loop deadline (bytes + of_nat (length (b # bs))) p'
      | (ReadFailed, _) \<Rightarrow>
          Some (Inr \<lparr>cs_bytes = bytes, cs_stored_bytes = 0, cs_sha256 = None,
                     cs_truncated = True, cs_truncated_reason = Some ''stream_error''\<rparr>))"
  by pat_completeness auto
termination
  by (relation "measure (\<lambda>(_, _, p). pipe_size p)") (auto dest: read_pipe_smaller [OF DISCARD_CHUNK_pos])

declare discard_loop.simps [simp del]

definition discard_drain :: "bool \<Rightarrow> pipe \<Rightarrow> drain_result" where
  "discard_drain deadline p = discard_loop deadline 0 p"

lemma discard_loop_stream:
  "discard_loop deadline n p =
    (case stream_of p of
       (s, AtStall) \<Rightarrow> if deadline then Some (Inl DeadlineExceeded) else None
     | (s, AtEof) \<Rightarrow>
          Some (Inr \<lparr>cs_bytes = n + of_nat (length s), cs_stored_bytes = 0, cs_sha256 = None,
                     cs_truncated = False, cs_truncated_reason = None\<rparr>)
     | (s, AtError) \<Rightarrow>
          Some (Inr \<lparr>cs_bytes = n + of_nat (length s), cs_stored_bytes = 0, cs_sha256 = None,
                     cs_truncated = True, cs_truncated_reason = Some ''stream_error''\<rparr>))"
proof (induction deadline n p rule: discard_loop.induct)
  case (1 deadline n p)
  note st = stream_of_read [OF DISCARD_CHUNK_pos, of p]
  obtain r p' where rp: "read_pipe DISCARD_CHUNK p = (r, p')" by fastforce
  show ?case
  proof (cases r)
    case (ReadOk bs)
    show ?thesis
    proof (cases bs)
      case (Cons b cs)
      have "discard_loop deadline n p = discard_loop deadline (n + of_nat (length bs)) p'"
        using rp ReadOk Cons by (subst discard_loop.simps) simp
      moreover have "stream_of p = (bs @ fst (stream_of p'), snd (stream_of p'))"
        using st rp ReadOk Cons by simp
      ultimately show ?thesis
        using 1 [OF rp [symmetric] ReadOk Cons] Cons
        by (auto simp: add.assoc split: prod.splits pipe_end.splits)
    qed (use rp ReadOk st in \<open>subst discard_loop.simps, simp\<close>)
  qed (use rp st in \<open>subst discard_loop.simps, simp\<close>)+
qed

section \<open>The contract of a capture backend\<close>

text \<open>
  A drain that succeeds has consumed the stream to its end and counted it, and says that the
  core is truncated exactly when it gives a reason.
\<close>

locale core_sink =
  fixes drain :: "bool \<Rightarrow> pipe \<Rightarrow> drain_result"
  assumes counts: "drain deadline p = Some (Inr st) \<Longrightarrow>
      cs_bytes st = of_nat (length (fst (stream_of p))) \<and> snd (stream_of p) \<noteq> AtStall"
    and reason: "drain deadline p = Some (Inr st) \<Longrightarrow>
      cs_truncated st \<longleftrightarrow> cs_truncated_reason st \<noteq> None"
    and error_marked: "drain deadline p = Some (Inr st) \<Longrightarrow>
      snd (stream_of p) = AtError \<Longrightarrow> cs_truncated_reason st = Some ''stream_error''"
begin

lemma byte_count_exact:
  assumes "drain deadline p = Some (Inr st)" "length (fst (stream_of p)) < 2 ^ 64"
  shows "unat (cs_bytes st) = length (fst (stream_of p))"
  using counts [OF assms(1)] assms(2) by (simp add: unat_of_nat)

lemma complete_unless_marked:
  assumes "drain deadline p = Some (Inr st)" "\<not> cs_truncated st"
  shows "snd (stream_of p) = AtEof"
  using counts [OF assms(1)] reason [OF assms(1)] error_marked [OF assms(1)] assms(2)
  by (cases "snd (stream_of p)") auto

end

text \<open>A backend that its deadline bounds.\<close>

locale bounded_sink = core_sink +
  assumes returns: "drain True p \<noteq> None"
begin

lemma deadline_returns: "\<exists>r. drain True p = Some r"
  using returns [of p] by blast

lemma stalled_fails: "snd (stream_of p) = AtStall \<Longrightarrow> \<exists>e. drain True p = Some (Inl e)"
proof -
  assume a: "snd (stream_of p) = AtStall"
  obtain r where "drain True p = Some r" using deadline_returns by blast
  with counts [of True p] a show ?thesis by (cases r) auto
qed

end

interpretation discard: bounded_sink discard_drain
  by unfold_locales
    (auto simp: discard_drain_def discard_loop_stream split: prod.splits pipe_end.splits if_splits)

end
