(* ===== verification/Upload.thy ===== *)
theory Upload
  imports Backend Build_Id Rust_Num
begin

text \<open>
  \<open>src/upload.rs\<close>: the object keys of a capture, the streaming upload of a core through zstd
  and sha256 into the object store, and the construction of the store from its configuration.

  The zstd encoder, sha256, the buffered multipart writer and the store builders are foreign
  code. The encoder is a state machine that turns each write into output (\<open>zstd\<close>), sha256 is
  a function, and the writer follows a script of how much each \<open>poll_write\<close> accepts, where it
  fails and where it is not ready before the deadline; a script that is used up accepts
  everything. All are parameters.
\<close>

section \<open>Object keys\<close>

record object_keys =
  ok_prefix :: string

definition object_keys_new :: "string \<Rightarrow> string \<Rightarrow> string \<Rightarrow> int \<Rightarrow> int \<Rightarrow> object_keys" where
  "object_keys_new cluster pod_uid container_id timestamp host_pid =
     \<lparr>ok_prefix = cluster @ ''/'' @ pod_uid @ ''/'' @ container_id @ ''/'' @ show_int timestamp @ ''-'' @ show_int host_pid\<rparr>"

definition key_core :: "object_keys \<Rightarrow> string" where
  "key_core k = ok_prefix k @ ''-core.zst''"

definition key_proc_snapshot :: "object_keys \<Rightarrow> string" where
  "key_proc_snapshot k = ok_prefix k @ ''-procsnapshot.tar''"

definition key_manifest :: "object_keys \<Rightarrow> string" where
  "key_manifest k = ok_prefix k @ ''-manifest.json''"

section \<open>The object store\<close>

type_synonym objects = "string \<rightharpoonup> bytes"

text \<open>
  A single-shot PUT. What the store answers is the environment's choice: success, an error
  after which the object may be there all the same (the reply was lost), or no answer (\<open>None\<close>).
  The call has no deadline of its own: that it is answered is \<open>object_store\<close>'s doing, whose retries
  \<open>retry_config\<close> bounds to a minute, and a hypothesis of the theorem on termination; the other
  theorems do not need it. \<open>path_of\<close> is \<open>ObjectPath::from\<close>.
\<close>

datatype put_ev = PutOk | PutErr bool | PutNever bool

definition put_object ::
  "(string \<Rightarrow> string) \<Rightarrow> (string \<Rightarrow> put_ev) \<Rightarrow> objects \<Rightarrow> string \<Rightarrow> bytes \<Rightarrow> bool option \<times> objects" where
  "put_object path_of answer store key bs =
     (case answer key of
        PutOk \<Rightarrow> (Some True, store(path_of key \<mapsto> bs))
      | PutErr stored \<Rightarrow> (Some False, if stored then store(path_of key \<mapsto> bs) else store)
      | PutNever stored \<Rightarrow> (None, if stored then store(path_of key \<mapsto> bs) else store))"

section \<open>The foreign parts of the pipe\<close>

record 'z zstd =
  z_init :: 'z
  z_write :: "'z \<Rightarrow> bytes \<Rightarrow> 'z \<times> bytes"
  z_finish :: "'z \<Rightarrow> bytes"

text \<open>Everything an encoder emits for a sequence of writes.\<close>

fun z_run :: "'z zstd \<Rightarrow> 'z \<Rightarrow> bytes list \<Rightarrow> 'z \<times> bytes" where
  "z_run z st [] = (st, [])"
| "z_run z st (c # cs) =
     (let (st1, out) = z_write z st c; (st2, outs) = z_run z st1 cs in (st2, out @ outs))"

definition z_stream :: "'z zstd \<Rightarrow> bytes list \<Rightarrow> bytes" where
  "z_stream z cs = (let (st, outs) = z_run z (z_init z) cs in outs @ z_finish z st)"

text \<open>What the encoder is relied on for: decoding its output gives back what was written.\<close>

definition zstd_ok :: "'z zstd \<Rightarrow> (bytes \<Rightarrow> bytes option) \<Rightarrow> bool" where
  "zstd_ok z decode \<longleftrightarrow> (\<forall>cs. decode (z_stream z cs) = Some (concat cs))"

datatype sink_ev = Accept nat | SinkErr | SinkStall

text \<open>How \<open>shutdown\<close> of the writer ends, and whether the object appears when it does not succeed.\<close>

datatype close_ev = CloseOk | CloseErr bool | CloseNever bool

datatype bw_phase = BwOpen | BwAborted | BwShut bool | BwStored

record buf_writer =
  bw_data :: bytes
  bw_phase :: bw_phase
  bw_script :: "sink_ev list"
  bw_close :: close_ev

datatype poll_write = Accepted nat | PollErr | Pending

definition bw_poll_write :: "buf_writer \<Rightarrow> bytes \<Rightarrow> poll_write \<times> buf_writer" where
  "bw_poll_write w buf =
     (case bw_script w of
        [] \<Rightarrow> (Accepted (length buf), w\<lparr>bw_data := bw_data w @ buf\<rparr>)
      | Accept n # sc \<Rightarrow>
          (let k = min n (length buf)
           in (Accepted k, w\<lparr>bw_data := bw_data w @ take k buf, bw_script := sc\<rparr>))
      | SinkErr # sc \<Rightarrow> (PollErr, w\<lparr>bw_script := sc\<rparr>)
      | SinkStall # sc \<Rightarrow> (Pending, w\<lparr>bw_script := sc\<rparr>))"

definition bw_abort :: "buf_writer \<Rightarrow> buf_writer" where
  "bw_abort w = w\<lparr>bw_phase := BwAborted\<rparr>"

datatype write_result = WriteOk | WriteErr | WriteNever

definition bw_shutdown :: "buf_writer \<Rightarrow> write_result \<times> buf_writer" where
  "bw_shutdown w =
     (case bw_close w of
        CloseOk \<Rightarrow> (WriteOk, w\<lparr>bw_phase := BwStored\<rparr>)
      | CloseErr b \<Rightarrow> (WriteErr, w\<lparr>bw_phase := BwShut b\<rparr>)
      | CloseNever b \<Rightarrow> (WriteNever, w\<lparr>bw_phase := BwShut b\<rparr>))"

section \<open>\<open>HashingWriter\<close>\<close>

text \<open>The hasher is represented by the bytes it has been fed.\<close>

record hashing_writer =
  hw_inner :: buf_writer
  hw_hashed :: bytes
  hw_bytes :: u64

definition hw_poll_write :: "hashing_writer \<Rightarrow> bytes \<Rightarrow> poll_write \<times> hashing_writer" where
  "hw_poll_write h buf =
     (case bw_poll_write (hw_inner h) buf of
        (Accepted n, w) \<Rightarrow>
          (Accepted n,
           h\<lparr>hw_inner := w, hw_hashed := hw_hashed h @ take n buf, hw_bytes := hw_bytes h + of_nat n\<rparr>)
      | (other, w) \<Rightarrow> (other, h\<lparr>hw_inner := w\<rparr>))"

definition hw_poll_shutdown :: "hashing_writer \<Rightarrow> write_result \<times> hashing_writer" where
  "hw_poll_shutdown h = (case bw_shutdown (hw_inner h) of (r, w) \<Rightarrow> (r, h\<lparr>hw_inner := w\<rparr>))"

text \<open>The encoder hands its output to the writer until all of it is accepted.\<close>

function push :: "hashing_writer \<Rightarrow> bytes \<Rightarrow> write_result \<times> hashing_writer" where
  "push h out =
     (if out = [] then (WriteOk, h)
      else (case hw_poll_write h out of
          (Accepted n, h') \<Rightarrow> if n = 0 then (WriteErr, h') else push h' (drop n out)
        | (PollErr, h') \<Rightarrow> (WriteErr, h')
        | (Pending, h') \<Rightarrow> (WriteNever, h')))"
  by pat_completeness auto
termination by (relation "measure (\<lambda>(h, out). length out)") auto

declare push.simps [simp del]

record 'z encoder =
  en_state :: 'z
  en_writer :: hashing_writer

definition encoder_write_all :: "'z zstd \<Rightarrow> 'z encoder \<Rightarrow> bytes \<Rightarrow> write_result \<times> 'z encoder" where
  "encoder_write_all z e buf =
     (let (st, out) = z_write z (en_state e) buf;
          (r, h) = push (en_writer e) out
      in (r, \<lparr>en_state = st, en_writer = h\<rparr>))"

definition encoder_shutdown :: "'z zstd \<Rightarrow> 'z encoder \<Rightarrow> write_result \<times> 'z encoder" where
  "encoder_shutdown z e =
     (case push (en_writer e) (z_finish z (en_state e)) of
        (WriteOk, h) \<Rightarrow> (case hw_poll_shutdown h of (r, h') \<Rightarrow> (r, e\<lparr>en_writer := h'\<rparr>))
      | (r, h) \<Rightarrow> (r, e\<lparr>en_writer := h\<rparr>))"

definition abort_multipart :: "'z encoder \<Rightarrow> buf_writer" where
  "abort_multipart e = bw_abort (hw_inner (en_writer e))"

definition hex_digit :: "nat \<Rightarrow> char" where
  "hex_digit n = (if n < 10 then char_of (48 + n) else char_of (87 + n))"

text \<open>\<open>{b:02x}\<close> of every byte.\<close>

fun hex_lower :: "bytes \<Rightarrow> string" where
  "hex_lower [] = []"
| "hex_lower (b # bs) = hex_digit (byte_val b div 16) # hex_digit (byte_val b mod 16) # hex_lower bs"

section \<open>\<open>stream_core_through_zstd\<close>\<close>

definition CORE_READ_CHUNK :: nat where "CORE_READ_CHUNK = 256 * 1024"

lemma CORE_READ_CHUNK_pos: "0 < CORE_READ_CHUNK" by (simp add: CORE_READ_CHUNK_def)

text \<open>
  The loop: an error together with the aborted writer, or the drained count, the reason for
  truncation and the encoder to finish.
\<close>

function core_loop ::
  "'z zstd \<Rightarrow> u64 \<Rightarrow> bool \<Rightarrow> 'z encoder \<Rightarrow> u64 \<Rightarrow> u64 \<Rightarrow> string option \<Rightarrow> pipe
     \<Rightarrow> (drain_error \<times> buf_writer + u64 \<times> string option \<times> 'z encoder) option" where
  "core_loop z cap deadline e drained written reason p =
     (case read_pipe CORE_READ_CHUNK p of
        (NotReady, _) \<Rightarrow> if deadline then Some (Inl (DeadlineExceeded, abort_multipart e)) else None
      | (ReadOk [], _) \<Rightarrow> Some (Inr (drained, reason, e))
      | (ReadOk (b # bs), p') \<Rightarrow>
          (let n = of_nat (length (b # bs)) :: u64;
               drained' = drained + n;
               k = min n (saturating_sub cap written);
               reason' = (if k < n \<and> reason = None then Some ''size_cap'' else reason)
           in if 0 < k
              then (case encoder_write_all z e (take (unat k) (b # bs)) of
                  (WriteNever, e') \<Rightarrow>
                    if deadline then Some (Inl (DeadlineExceeded, abort_multipart e')) else None
                | (WriteErr, e') \<Rightarrow> Some (Inl (WriteFailed, abort_multipart e'))
                | (WriteOk, e') \<Rightarrow> core_loop z cap deadline e' drained' (written + k) reason' p')
              else core_loop z cap deadline e drained' written reason' p')
      | (ReadFailed, _) \<Rightarrow> Some (Inr (drained, Some ''stream_error'', e)))"
  by pat_completeness auto
termination
  by (relation "measure (\<lambda>(_, _, _, _, _, _, _, p). pipe_size p)")
    (auto dest: read_pipe_smaller [OF CORE_READ_CHUNK_pos])

declare core_loop.simps [simp del]

definition core_cap :: "u64 \<Rightarrow> u64" where
  "core_cap max_core_bytes = (if max_core_bytes = 0 then - 1 else max_core_bytes)"

text \<open>
  An error ends the loop with the await of \<open>abort_multipart\<close>, which is not raced against the
  deadline; \<open>abort_returns\<close> says whether the store ever answers it. Its result is only logged.
\<close>

definition stream_core_through_zstd ::
  "'z zstd \<Rightarrow> (bytes \<Rightarrow> bytes) \<Rightarrow> buf_writer \<Rightarrow> u64 \<Rightarrow> bool \<Rightarrow> bool \<Rightarrow> pipe
     \<Rightarrow> ((drain_error + u64 \<times> u64 \<times> string \<times> string option) \<times> buf_writer) option" where
  "stream_core_through_zstd z sha256 sink max_core_bytes deadline abort_returns p =
     (let e0 = \<lparr>en_state = z_init z, en_writer = \<lparr>hw_inner = sink, hw_hashed = [], hw_bytes = 0\<rparr>\<rparr>
      in case core_loop z (core_cap max_core_bytes) deadline e0 0 0 None p of
           None \<Rightarrow> None
         | Some (Inl (err, w)) \<Rightarrow> if abort_returns then Some (Inl err, w) else None
         | Some (Inr (drained, reason, e)) \<Rightarrow>
             (case encoder_shutdown z e of
                (WriteNever, e') \<Rightarrow>
                  if deadline then Some (Inl DeadlineExceeded, hw_inner (en_writer e')) else None
              | (WriteErr, e') \<Rightarrow> Some (Inl FinalizeFailed, hw_inner (en_writer e'))
              | (WriteOk, e') \<Rightarrow>
                  Some (Inr (drained, hw_bytes (en_writer e'), hex_lower (sha256 (hw_hashed (en_writer e'))), reason),
                        hw_inner (en_writer e'))))"

section \<open>\<open>StandaloneBackend\<close>\<close>

text \<open>The foreign code and its behaviour during one upload.\<close>

record 'z upload_env =
  ue_zstd :: "'z zstd"
  ue_sha256 :: "bytes \<Rightarrow> bytes"
  ue_script :: "sink_ev list"
  ue_close :: close_ev
  ue_abort_returns :: bool

record standalone =
  sb_key :: string
  sb_max_core_bytes :: u64

definition standalone_new :: "(string \<Rightarrow> string) \<Rightarrow> string \<Rightarrow> u64 \<Rightarrow> standalone" where
  "standalone_new path_of key max_core_bytes = \<lparr>sb_key = path_of key, sb_max_core_bytes = max_core_bytes\<rparr>"

definition fresh_writer :: "'z upload_env \<Rightarrow> buf_writer" where
  "fresh_writer env = \<lparr>bw_data = [], bw_phase = BwOpen, bw_script = ue_script env, bw_close = ue_close env\<rparr>"

text \<open>The object that the writer left in the store.\<close>

definition bw_object :: "buf_writer \<Rightarrow> bytes option" where
  "bw_object w = (case bw_phase w of
     BwStored \<Rightarrow> Some (bw_data w) | BwShut True \<Rightarrow> Some (bw_data w) | _ \<Rightarrow> None)"

definition standalone_stats :: "u64 \<times> u64 \<times> string \<times> string option \<Rightarrow> core_stats" where
  "standalone_stats r =
     (case r of (bytes, stored_bytes, sha, reason) \<Rightarrow>
        \<lparr>cs_bytes = bytes, cs_stored_bytes = stored_bytes, cs_sha256 = Some sha,
         cs_truncated = (reason \<noteq> None), cs_truncated_reason = reason\<rparr>)"

definition standalone_drain :: "'z upload_env \<Rightarrow> standalone \<Rightarrow> bool \<Rightarrow> pipe \<Rightarrow> objects \<Rightarrow> drain_result \<times> objects" where
  "standalone_drain env sb deadline p store =
     (case stream_core_through_zstd (ue_zstd env) (ue_sha256 env) (fresh_writer env) (sb_max_core_bytes sb) deadline (ue_abort_returns env) p of
        None \<Rightarrow> (None, store)
      | Some (r, w) \<Rightarrow>
          ((case r of Inl e \<Rightarrow> Some (Inl e) | Inr x \<Rightarrow> Some (Inr (standalone_stats x))),
           (case bw_object w of Some b \<Rightarrow> store(sb_key sb \<mapsto> b) | None \<Rightarrow> store)))"

section \<open>Store configuration\<close>

definition ALLOWED_STORE_OPTS :: "string list" where
  "ALLOWED_STORE_OPTS =
     [''AWS_ACCESS_KEY_ID'', ''AWS_SECRET_ACCESS_KEY'', ''AWS_SESSION_TOKEN'', ''AWS_REGION'',
      ''AWS_DEFAULT_REGION'', ''AWS_ENDPOINT'', ''AWS_ALLOW_HTTP'', ''AWS_VIRTUAL_HOSTED_STYLE_REQUEST'',
      ''AWS_ROLE_ARN'', ''AWS_WEB_IDENTITY_TOKEN_FILE'', ''GOOGLE_SERVICE_ACCOUNT'',
      ''GOOGLE_SERVICE_ACCOUNT_KEY'', ''AZURE_STORAGE_ACCOUNT_NAME'', ''AZURE_STORAGE_ACCESS_KEY'',
      ''AZURE_STORAGE_CLIENT_ID'', ''AZURE_STORAGE_CLIENT_SECRET'', ''AZURE_STORAGE_TENANT_ID'',
      ''AZURE_CLIENT_ID'', ''AZURE_TENANT_ID'', ''AZURE_FEDERATED_TOKEN_FILE'', ''AZURE_AUTHORITY_HOST'']"

type_synonym store_opts = "(string \<times> string) list"

definition store_options_from_env :: "(string \<times> string) list \<Rightarrow> store_opts" where
  "store_options_from_env vars = filter (\<lambda>(k, _). k \<in> set ALLOWED_STORE_OPTS) vars"

definition opt_get :: "store_opts \<Rightarrow> string \<Rightarrow> string" where
  "opt_get opts key = (case find (\<lambda>(k, _). k = key) opts of Some (_, v) \<Rightarrow> v | None \<Rightarrow> [])"

text \<open>
  \<open>to_lowercase\<close> is the Unicode mapping; no character outside ASCII has a lower case form with a
  letter of these literals, so comparing after the ASCII mapping is the same.
\<close>

definition is_plaintext_endpoint :: "store_opts \<Rightarrow> bool" where
  "is_plaintext_endpoint opts \<longleftrightarrow>
     starts_with ''http://'' (to_ascii_lowercase (opt_get opts ''AWS_ENDPOINT'')) \<or>
     to_ascii_lowercase (opt_get opts ''AWS_ALLOW_HTTP'') \<in> set [''1'', ''true'', ''yes'', ''on'']"

record retry_policy =
  rp_max_retries :: nat
  rp_timeout_secs :: nat

definition retry_config :: retry_policy where
  "retry_config = \<lparr>rp_max_retries = 3, rp_timeout_secs = 60\<rparr>"

datatype store_scheme = AmazonS3 | GoogleCloudStorage | MicrosoftAzure | MemoryScheme | LocalScheme | OtherScheme

text \<open>
  The \<open>url\<close> and \<open>object_store\<close> crates: URL and scheme parsing, the configuration keys a
  builder knows, and the builders.
\<close>

record ('u, 'k, 's) store_lib =
  sl_url_parse :: "string \<Rightarrow> 'u option"
  sl_url_string :: "'u \<Rightarrow> string"
  sl_url_path :: "'u \<Rightarrow> string"
  sl_scheme :: "'u \<Rightarrow> store_scheme option"
  sl_key :: "store_scheme \<Rightarrow> string \<Rightarrow> 'k option"
  sl_build :: "store_scheme \<Rightarrow> string \<Rightarrow> retry_policy \<Rightarrow> ('k \<times> string) list \<Rightarrow> 's option"
  sl_memory :: 's
  sl_local :: "string \<Rightarrow> 's option"

definition known_opts :: "('u, 'k, 's) store_lib \<Rightarrow> store_scheme \<Rightarrow> store_opts \<Rightarrow> ('k \<times> string) list" where
  "known_opts lib scheme opts =
     List.map_filter (\<lambda>(k, v). map_option (\<lambda>key. (key, v)) (sl_key lib scheme (to_ascii_lowercase k))) opts"

definition object_store_from_url_opts :: "('u, 'k, 's) store_lib \<Rightarrow> string \<Rightarrow> store_opts \<Rightarrow> 's option" where
  "object_store_from_url_opts lib raw_url opts =
     (case sl_url_parse lib raw_url of
        None \<Rightarrow> None
      | Some url \<Rightarrow>
          (case sl_scheme lib url of
             None \<Rightarrow> None
           | Some OtherScheme \<Rightarrow> None
           | Some MemoryScheme \<Rightarrow> Some (sl_memory lib)
           | Some LocalScheme \<Rightarrow> sl_local lib (sl_url_path lib url)
           | Some scheme \<Rightarrow>
               sl_build lib scheme (sl_url_string lib url) retry_config (known_opts lib scheme opts)))"

section \<open>The writer chain\<close>

definition hw_ok :: "hashing_writer \<Rightarrow> bool" where
  "hw_ok h \<longleftrightarrow> hw_hashed h = bw_data (hw_inner h) \<and> hw_bytes h = of_nat (length (bw_data (hw_inner h)))"

lemma bw_poll_write_kept:
  "bw_poll_write w buf = (r, w') \<Longrightarrow> bw_phase w' = bw_phase w \<and> bw_close w' = bw_close w"
  by (auto simp: bw_poll_write_def Let_def split: list.splits sink_ev.splits)

lemma bw_poll_write_data:
  "bw_poll_write w buf = (r, w') \<Longrightarrow>
    bw_data w' = bw_data w @ (case r of Accepted n \<Rightarrow> take n buf | _ \<Rightarrow> []) \<and> (\<forall>n. r = Accepted n \<longrightarrow> n \<le> length buf)"
  by (auto simp: bw_poll_write_def Let_def split: list.splits sink_ev.splits)

lemma hw_poll_write_ok [wf_intros]:
  assumes "hw_ok h" "hw_poll_write h buf = (r, h')"
  shows "hw_ok h'"
proof -
  obtain q w where b: "bw_poll_write (hw_inner h) buf = (q, w)" by fastforce
  from bw_poll_write_data [OF b] assms b show ?thesis
    by (auto simp: hw_poll_write_def hw_ok_def split: poll_write.splits)
qed

lemma hw_poll_write_data:
  assumes "hw_poll_write h buf = (r, h')"
  shows "bw_phase (hw_inner h') = bw_phase (hw_inner h) \<and> bw_close (hw_inner h') = bw_close (hw_inner h) \<and>
    (\<forall>n. r = Accepted n \<longrightarrow> bw_data (hw_inner h') = bw_data (hw_inner h) @ take n buf \<and> n \<le> length buf)"
proof -
  obtain q w where b: "bw_poll_write (hw_inner h) buf = (q, w)" by fastforce
  from bw_poll_write_data [OF b] bw_poll_write_kept [OF b] assms b show ?thesis
    by (auto simp: hw_poll_write_def split: poll_write.splits)
qed

lemma push_ok [wf_intros]: "hw_ok h \<Longrightarrow> hw_ok (snd (push h out))"
proof (induction h out rule: push.induct)
  case (1 h out)
  obtain r h' where p: "hw_poll_write h out = (r, h')" by fastforce
  have "hw_ok h'" using hw_poll_write_ok [OF 1(2) p] .
  then show ?case using 1 p by (subst push.simps) (auto split: poll_write.splits)
qed

lemma push_data:
  "bw_phase (hw_inner (snd (push h out))) = bw_phase (hw_inner h) \<and>
   bw_close (hw_inner (snd (push h out))) = bw_close (hw_inner h) \<and>
   (fst (push h out) = WriteOk \<longrightarrow> bw_data (hw_inner (snd (push h out))) = bw_data (hw_inner h) @ out)"
proof (induction h out rule: push.induct)
  case (1 h out)
  obtain r h' where p: "hw_poll_write h out = (r, h')" by fastforce
  note d = hw_poll_write_data [OF p]
  show ?case
  proof (cases "out = [] \<or> (\<forall>n. r \<noteq> Accepted n) \<or> r = Accepted 0")
    case True
    then show ?thesis using p d by (subst (1 2 3 4) push.simps) (auto split: poll_write.splits)
  next
    case False
    then obtain n where n: "out \<noteq> []" "r = Accepted n" "n \<noteq> 0" by auto
    then have "push h out = push h' (drop n out)" using p by (simp add: push.simps [of h out])
    with 1 [OF n(1) p [symmetric] n(2,3)] d n show ?thesis by auto
  qed
qed

lemma push_extends: "\<exists>rest. bw_data (hw_inner (snd (push h out))) = bw_data (hw_inner h) @ rest"
proof (induction h out rule: push.induct)
  case (1 h out)
  obtain r h' where p: "hw_poll_write h out = (r, h')" by fastforce
  obtain q w where b: "bw_poll_write (hw_inner h) out = (q, w)" by fastforce
  from bw_poll_write_data [OF b] p b have d: "\<exists>c. bw_data (hw_inner h') = bw_data (hw_inner h) @ c"
    by (auto simp: hw_poll_write_def split: poll_write.splits)
  show ?case
  proof (cases "out = [] \<or> (\<forall>n. r \<noteq> Accepted n) \<or> r = Accepted 0")
    case True
    then show ?thesis using p d by (subst push.simps) (auto split: poll_write.splits)
  next
    case False
    then obtain n where n: "out \<noteq> []" "r = Accepted n" "n \<noteq> 0" by auto
    then have "push h out = push h' (drop n out)" using p by (simp add: push.simps [of h out])
    with 1 [OF n(1) p [symmetric] n(2,3)] d show ?thesis by auto
  qed
qed

lemma z_run_append:
  "z_run z st (cs @ ds) = (let (st1, o1) = z_run z st cs; (st2, o2) = z_run z st1 ds in (st2, o1 @ o2))"
  by (induction cs arbitrary: st) (auto simp: Let_def split: prod.splits)

text \<open>An encoder that has taken the writes \<open>cs\<close> and passed all their output on.\<close>

definition enc_inv :: "'z zstd \<Rightarrow> close_ev \<Rightarrow> 'z encoder \<Rightarrow> bytes list \<Rightarrow> bool" where
  "enc_inv z cl e cs \<longleftrightarrow>
     z_run z (z_init z) cs = (en_state e, bw_data (hw_inner (en_writer e))) \<and>
     hw_ok (en_writer e) \<and> bw_phase (hw_inner (en_writer e)) = BwOpen \<and> bw_close (hw_inner (en_writer e)) = cl"

lemma enc_inv_write [wf_intros]:
  assumes "enc_inv z cl e cs" "encoder_write_all z e c = (WriteOk, e')"
  shows "enc_inv z cl e' (cs @ [c])"
proof -
  obtain st out where w: "z_write z (en_state e) c = (st, out)" by fastforce
  with assms(2) have e': "en_state e' = st" "en_writer e' = snd (push (en_writer e) out)" "fst (push (en_writer e) out) = WriteOk"
    by (auto simp: encoder_write_all_def split: prod.splits)
  with push_data [of "en_writer e" out] push_ok [of "en_writer e" out] assms(1) w show ?thesis
    by (auto simp: enc_inv_def z_run_append Let_def split: prod.splits)
qed

lemma abort_multipart_phase: "bw_phase (abort_multipart e) = BwAborted"
  by (simp add: abort_multipart_def bw_abort_def)

lemma bw_shutdown_data:
  "bw_shutdown w = (r, w') \<Longrightarrow>
    bw_data w' = bw_data w \<and> (if r = WriteOk then bw_phase w' = BwStored else \<exists>b. bw_phase w' = BwShut b)"
  by (auto simp: bw_shutdown_def split: close_ev.splits)

text \<open>Finishing the encoder: all of the compressed stream is in the object, or the upload fails.\<close>

lemma encoder_shutdown_ok:
  assumes "enc_inv z cl e cs" "encoder_shutdown z e = (WriteOk, e')"
  shows "bw_phase (hw_inner (en_writer e')) = BwStored" "bw_data (hw_inner (en_writer e')) = z_stream z cs"
    "hw_hashed (en_writer e') = z_stream z cs" "hw_bytes (en_writer e') = of_nat (length (z_stream z cs))"
proof -
  obtain r h where p: "push (en_writer e) (z_finish z (en_state e)) = (r, h)" by fastforce
  with assms(2) have r: "r = WriteOk" by (auto simp: encoder_shutdown_def split: write_result.splits)
  from push_data [of "en_writer e" "z_finish z (en_state e)"] push_ok [of "en_writer e" "z_finish z (en_state e)"] p r assms(1)
  have "bw_data (hw_inner h) = z_stream z cs" "hw_ok h"
    by (auto simp: enc_inv_def z_stream_def)
  moreover from assms(2) p r have "bw_shutdown (hw_inner h) = (WriteOk, hw_inner (en_writer e'))"
      "hw_hashed (en_writer e') = hw_hashed h" "hw_bytes (en_writer e') = hw_bytes h"
    by (auto simp: encoder_shutdown_def hw_poll_shutdown_def split: prod.splits)
  ultimately show "bw_phase (hw_inner (en_writer e')) = BwStored" "bw_data (hw_inner (en_writer e')) = z_stream z cs"
    "hw_hashed (en_writer e') = z_stream z cs" "hw_bytes (en_writer e') = of_nat (length (z_stream z cs))"
    using bw_shutdown_data [of "hw_inner h" WriteOk "hw_inner (en_writer e')"] by (simp_all add: hw_ok_def)
qed

lemma encoder_shutdown_fails:
  assumes "enc_inv z cl e cs" "encoder_shutdown z e = (r, e')" "r \<noteq> WriteOk"
  shows "bw_phase (hw_inner (en_writer e')) = BwOpen \<or>
      (\<exists>b. bw_phase (hw_inner (en_writer e')) = BwShut b) \<and> bw_data (hw_inner (en_writer e')) = z_stream z cs"
    and "\<exists>rest. bw_data (hw_inner (en_writer e')) = snd (z_run z (z_init z) cs) @ rest"
proof -
  obtain r1 h where p: "push (en_writer e) (z_finish z (en_state e)) = (r1, h)" by fastforce
  obtain r2 w where q: "bw_shutdown (hw_inner h) = (r2, w)" by fastforce
  from push_data [of "en_writer e" "z_finish z (en_state e)"] p assms(1) have "bw_phase (hw_inner h) = BwOpen"
    and all: "r1 = WriteOk \<Longrightarrow> bw_data (hw_inner h) = z_stream z cs"
    by (auto simp: enc_inv_def z_stream_def)
  with p q assms(2,3) bw_shutdown_data [OF q]
  show "bw_phase (hw_inner (en_writer e')) = BwOpen \<or>
      (\<exists>b. bw_phase (hw_inner (en_writer e')) = BwShut b) \<and> bw_data (hw_inner (en_writer e')) = z_stream z cs"
    by (cases r1) (auto simp: encoder_shutdown_def hw_poll_shutdown_def)
  have "bw_data (hw_inner (en_writer e')) = bw_data (hw_inner h)"
    using p q assms(2) bw_shutdown_data [OF q] by (cases r1) (auto simp: encoder_shutdown_def hw_poll_shutdown_def)
  with push_extends [of "en_writer e" "z_finish z (en_state e)"] p assms(1)
  show "\<exists>rest. bw_data (hw_inner (en_writer e')) = snd (z_run z (z_init z) cs) @ rest" by (simp add: enc_inv_def)
qed

section \<open>The loop\<close>

text \<open>The reason the loop reports for a stream \<open>s\<close> that ended as \<open>en\<close>.\<close>

definition expected_reason :: "u64 \<Rightarrow> bytes \<Rightarrow> pipe_end \<Rightarrow> string option" where
  "expected_reason cap s en =
     (if en = AtError then Some ''stream_error''
      else if unat cap < length s then Some ''size_cap'' else None)"

text \<open>After a prefix \<open>s\<close> of the stream the encoder has been given its first \<open>cap\<close> bytes.\<close>

definition loop_inv :: "'z zstd \<Rightarrow> close_ev \<Rightarrow> u64 \<Rightarrow> 'z encoder \<Rightarrow> u64 \<Rightarrow> u64 \<Rightarrow> string option \<Rightarrow> bytes \<Rightarrow> bool" where
  "loop_inv z cl cap e drained written reason s \<longleftrightarrow>
     (\<exists>cs. enc_inv z cl e cs \<and> concat cs = take (unat cap) s) \<and>
     unat drained = length s \<and> unat written = min (length s) (unat cap) \<and>
     reason = expected_reason cap s AtEof"

text \<open>The reason after a chunk of \<open>n\<close> bytes of which \<open>k\<close> are stored.\<close>

definition next_reason :: "string option \<Rightarrow> u64 \<Rightarrow> u64 \<Rightarrow> string option" where
  "next_reason reason k n = (if k < n \<and> reason = None then Some ''size_cap'' else reason)"

lemma unat_min: "unat (min a b) = min (unat a) (unat b)"
  by (simp add: min_def word_le_nat_alt)

lemma chunk_take:
  assumes "loop_inv z cl cap e drained written reason s" "length (s @ bs) < 2 ^ 64"
    and "k = min (of_nat (length bs)) (saturating_sub cap written)" "bs \<noteq> []"
  shows "unat k = min (length bs) (unat cap - length s)" "k < of_nat (length bs) \<longleftrightarrow> unat cap < length (s @ bs)"
    "unat (drained + of_nat (length bs)) = length (s @ bs)" "unat (written + k) = min (length (s @ bs)) (unat cap)"
proof -
  have n: "unat (of_nat (length bs) :: u64) = length bs" using assms(2) by (simp add: unat_of_nat)
  from assms(1) have d: "unat drained = length s" "unat written = min (length s) (unat cap)" by (simp_all add: loop_inv_def)
  show k: "unat k = min (length bs) (unat cap - length s)"
    unfolding assms(3) unat_min n unat_saturating_sub d by simp
  show "k < of_nat (length bs) \<longleftrightarrow> unat cap < length (s @ bs)"
    unfolding word_less_nat_alt k n length_append using length_greater_0_conv [THEN iffD2, OF assms(4)] by arith
  show "unat (drained + of_nat (length bs)) = length (s @ bs)"
    using assms(2) by (subst unat_add_exact) (simp_all add: n d)
  have "unat written + unat k < 2 ^ 64" using assms(2) by (simp add: k d)
  then show "unat (written + k) = min (length (s @ bs)) (unat cap)"
    by (subst unat_add_exact) (simp_all add: k d)
qed

lemma loop_inv_chunk:
  assumes inv: "loop_inv z cl cap e drained written reason s" and len: "length (s @ bs) < 2 ^ 64"
    and k: "k = min (of_nat (length bs)) (saturating_sub cap written)" and ne: "bs \<noteq> []"
    and wr: "if 0 < k then encoder_write_all z e (take (unat k) bs) = (WriteOk, e') else e' = e"
  shows "loop_inv z cl cap e' (drained + of_nat (length bs)) (written + k)
    (next_reason reason k (of_nat (length bs))) (s @ bs)"
proof -
  note c = chunk_take [OF inv len k ne]
  from inv obtain cs where cs: "enc_inv z cl e cs" "concat cs = take (unat cap) s" by (auto simp: loop_inv_def)
  have "take (unat cap) (s @ bs) = take (unat cap) s @ take (unat k) bs"
    by (simp add: c(1) min_def)
  moreover have "\<exists>cs'. enc_inv z cl e' cs' \<and> concat cs' = take (unat cap) s @ take (unat k) bs"
  proof (cases "0 < k")
    case True
    then show ?thesis using enc_inv_write [OF cs(1)] wr cs(2) by (intro exI [of _ "cs @ [take (unat k) bs]"]) simp
  next
    case False
    then have "k = 0" by (simp add: word_gt_0)
    then show ?thesis using wr cs by (intro exI [of _ cs]) simp
  qed
  moreover have "reason = expected_reason cap s AtEof" using inv by (simp add: loop_inv_def)
  ultimately show ?thesis
    using c by (auto simp: loop_inv_def expected_reason_def next_reason_def)
qed

text \<open>One turn of the loop with a non-empty chunk.\<close>

lemma core_loop_chunk:
  assumes "read_pipe CORE_READ_CHUNK p = (ReadOk (b # cs), p')"
    and "n = of_nat (length (b # cs))" "k = min n (saturating_sub cap written)"
  shows "core_loop z cap deadline e drained written reason p =
    (if 0 < k then (case encoder_write_all z e (take (unat k) (b # cs)) of
        (WriteNever, e') \<Rightarrow> if deadline then Some (Inl (DeadlineExceeded, abort_multipart e')) else None
      | (WriteErr, e') \<Rightarrow> Some (Inl (WriteFailed, abort_multipart e'))
      | (WriteOk, e') \<Rightarrow> core_loop z cap deadline e' (drained + n) (written + k) (next_reason reason k n) p')
     else core_loop z cap deadline e (drained + n) written (next_reason reason k n) p')"
  by (subst core_loop.simps)
    (simp only: assms prod.case read_result.case list.case Let_def next_reason_def)

text \<open>What the loop gives, from a state that has seen \<open>s\<close>.\<close>

definition loop_ok :: "'z zstd \<Rightarrow> close_ev \<Rightarrow> u64 \<Rightarrow> bool \<Rightarrow> bytes \<Rightarrow> pipe \<Rightarrow>
    ((drain_error \<times> buf_writer) + (u64 \<times> string option \<times> 'z encoder)) option \<Rightarrow> bool" where
  "loop_ok z cl cap deadline s p res = (case res of
      None \<Rightarrow> \<not> deadline
    | Some (Inl (err, w)) \<Rightarrow> bw_phase w = BwAborted \<and> (err = DeadlineExceeded \<longrightarrow> deadline)
    | Some (Inr (d, r, e')) \<Rightarrow>
        snd (stream_of p) \<noteq> AtStall \<and> d = of_nat (length (s @ fst (stream_of p))) \<and>
        r = expected_reason cap (s @ fst (stream_of p)) (snd (stream_of p)) \<and>
        (\<exists>cs. enc_inv z cl e' cs \<and> concat cs = take (unat cap) (s @ fst (stream_of p))))"

lemma loop_ok_simps [simp]:
  "loop_ok z cl cap deadline s p None \<longleftrightarrow> \<not> deadline"
  "loop_ok z cl cap deadline s p (Some (Inl (err, w))) \<longleftrightarrow> bw_phase w = BwAborted \<and> (err = DeadlineExceeded \<longrightarrow> deadline)"
  "loop_ok z cl cap deadline s p (Some (Inr (d, r, e'))) \<longleftrightarrow>
     snd (stream_of p) \<noteq> AtStall \<and> d = of_nat (length (s @ fst (stream_of p))) \<and>
     r = expected_reason cap (s @ fst (stream_of p)) (snd (stream_of p)) \<and>
     (\<exists>cs. enc_inv z cl e' cs \<and> concat cs = take (unat cap) (s @ fst (stream_of p)))"
  by (simp_all add: loop_ok_def)

lemma core_loop_chunk_ok:
  fixes n :: u64
  assumes inv: "loop_inv z cl cap e drained written reason s" and len: "length (s @ fst (stream_of p)) < 2 ^ 64"
    and rp: "read_pipe CORE_READ_CHUNK p = (ReadOk (b # cs), p')"
    and n: "n = of_nat (length (b # cs))" and k: "k = min n (saturating_sub cap written)"
    and rest: "\<And>e'. loop_inv z cl cap e' (drained + n) (written + k) (next_reason reason k n) (s @ b # cs) \<Longrightarrow>
      (0 < k \<longrightarrow> encoder_write_all z e (take (unat k) (b # cs)) = (WriteOk, e')) \<Longrightarrow> (\<not> 0 < k \<longrightarrow> e' = e) \<Longrightarrow>
      loop_ok z cl cap deadline (s @ b # cs) p' (core_loop z cap deadline e' (drained + n) (written + k) (next_reason reason k n) p')"
  shows "loop_ok z cl cap deadline s p (core_loop z cap deadline e drained written reason p)"
proof -
  have sp: "stream_of p = (b # cs @ fst (stream_of p'), snd (stream_of p'))"
    using stream_of_read [OF CORE_READ_CHUNK_pos, of p] rp by simp
  have ok: "loop_ok z cl cap deadline s p res = loop_ok z cl cap deadline (s @ b # cs) p' res" for res
    unfolding loop_ok_def sp by (simp only: fst_conv snd_conv append_assoc append_Cons)
  have step: "loop_inv z cl cap e' (drained + n) (written + k) (next_reason reason k n) (s @ b # cs)"
    if "if 0 < k then encoder_write_all z e (take (unat k) (b # cs)) = (WriteOk, e') else e' = e" for e'
    unfolding n by (rule loop_inv_chunk [OF inv]) (use that len sp k n in simp_all)
  note unf = core_loop_chunk [OF rp n k, of z deadline e drained reason]
  show ?thesis
  proof (cases "0 < k")
    case True
    obtain wr e' where w: "encoder_write_all z e (take (unat k) (b # cs)) = (wr, e')" by fastforce
    show ?thesis
    proof (cases wr)
      case WriteOk
      with rest [OF step] True w show ?thesis unfolding ok unf by simp
    qed (use unf True w in \<open>auto simp: abort_multipart_phase\<close>)
  next
    case False
    then have "written + k = written" by (simp add: word_gt_0)
    with rest [OF step] False show ?thesis unfolding ok unf by simp
  qed
qed

lemma core_loop_result:
  assumes "loop_inv z cl cap e drained written reason s" "length (s @ fst (stream_of p)) < 2 ^ 64"
  shows "loop_ok z cl cap deadline s p (core_loop z cap deadline e drained written reason p)"
  using assms
proof (induction z cap deadline e drained written reason p arbitrary: s rule: core_loop.induct)
  case (1 z cap deadline e drained written reason p)
  note st = stream_of_read [OF CORE_READ_CHUNK_pos, of p]
  obtain rr p' where rp: "read_pipe CORE_READ_CHUNK p = (rr, p')" by fastforce
  have "unat drained = length s" using 1(3) by (simp add: loop_inv_def)
  moreover have "(of_nat (unat drained) :: u64) = drained" by simp
  ultimately have d: "drained = of_nat (length s)" by simp
  show ?case
  proof (cases "\<exists>b cs. rr = ReadOk (b # cs)")
    case True
    then obtain b cs where rr: "rr = ReadOk (b # cs)" by blast
    let ?n = "of_nat (length (b # cs)) :: u64"
    let ?k = "min ?n (saturating_sub cap written)"
    have len: "length ((s @ b # cs) @ fst (stream_of p')) < 2 ^ 64" using 1(4) st rp rr by simp
    show ?thesis
    proof (rule core_loop_chunk_ok [OF 1(3,4) rp [unfolded rr] refl refl], goal_cases)
      case (1 e')
      show ?case
      proof (cases "0 < ?k")
        case True
        show ?thesis
          by (rule "1.IH"(1) [OF rp [symmetric] rr refl refl refl refl next_reason_def True _ refl])
            (use True 1 len in auto)
      next
        case False
        then have "?k = 0" by (simp only: word_gt_0 not_not)
        then have "written + ?k = written" by (simp only: add_0_right)
        then show ?thesis
          using "1.IH"(2) [OF rp [symmetric] rr refl refl refl refl next_reason_def False, of "s @ b # cs"] False 1 len by simp
      qed
    qed
  next
    case False
    then have "rr = NotReady \<or> rr = ReadFailed \<or> rr = ReadOk []" by (cases rr) (auto intro: list.exhaust)
    then show ?thesis
      using rp st 1(3)
      by (subst core_loop.simps) (auto simp: d loop_inv_def expected_reason_def abort_multipart_phase)
  qed
qed

text \<open>The counts and marks of the loop, for streams of any length.\<close>

lemma core_loop_counts:
  "case core_loop z cap deadline e drained written reason p of
      None \<Rightarrow> \<not> deadline
    | Some (Inl _) \<Rightarrow> True
    | Some (Inr (d, r, e')) \<Rightarrow>
        snd (stream_of p) \<noteq> AtStall \<and> d = drained + of_nat (length (fst (stream_of p))) \<and>
        (snd (stream_of p) = AtError \<longrightarrow> r = Some ''stream_error'')"
proof (induction z cap deadline e drained written reason p rule: core_loop.induct)
  case (1 z cap deadline e drained written reason p)
  note st = stream_of_read [OF CORE_READ_CHUNK_pos, of p]
  obtain rr p' where rp: "read_pipe CORE_READ_CHUNK p = (rr, p')" by fastforce
  show ?case
  proof (cases rr)
    case (ReadOk bs)
    show ?thesis
    proof (cases bs)
      case (Cons b cs)
      have sp: "stream_of p = ((b # cs) @ fst (stream_of p'), snd (stream_of p'))" using st rp ReadOk Cons by simp
      let ?n = "of_nat (length (b # cs)) :: u64"
      define k where "k = min ?n (saturating_sub cap written)"
      note unf = core_loop_chunk [OF rp [unfolded ReadOk Cons] refl k_def, of z deadline e drained reason]
      show ?thesis
      proof (cases "0 < k")
        case True
        obtain wr e' where w: "encoder_write_all z e (take (unat k) (b # cs)) = (wr, e')" by fastforce
        show ?thesis
        proof (cases wr)
          case WriteOk
          have eq: "core_loop z cap deadline e drained written reason p =
              core_loop z cap deadline e' (drained + ?n) (written + k) (next_reason reason k ?n) p'"
            unfolding unf using True w WriteOk by simp
          show ?thesis
            unfolding eq sp
            using 1(1) [OF rp [symmetric] ReadOk Cons refl refl k_def next_reason_def True w [symmetric] WriteOk]
            by (simp only: fst_conv snd_conv length_append of_nat_add add.assoc)
        qed (use unf True w in auto)
      next
        case False
        have eq: "core_loop z cap deadline e drained written reason p =
            core_loop z cap deadline e (drained + ?n) written (next_reason reason k ?n) p'"
          unfolding unf using False by simp
        show ?thesis
          unfolding eq sp using 1(2) [OF rp [symmetric] ReadOk Cons refl refl k_def next_reason_def False]
          by (simp only: fst_conv snd_conv length_append of_nat_add add.assoc)
      qed
    qed (use rp ReadOk st in \<open>subst core_loop.simps, simp\<close>)
  qed (use rp st in \<open>subst core_loop.simps, simp\<close>)+
qed

section \<open>The whole upload\<close>

definition initial_encoder :: "'z zstd \<Rightarrow> buf_writer \<Rightarrow> 'z encoder" where
  "initial_encoder z sink = \<lparr>en_state = z_init z, en_writer = \<lparr>hw_inner = sink, hw_hashed = [], hw_bytes = 0\<rparr>\<rparr>"

lemma loop_inv_init:
  "bw_data sink = [] \<Longrightarrow> bw_phase sink = BwOpen \<Longrightarrow> loop_inv z (bw_close sink) cap (initial_encoder z sink) 0 0 None []"
  by (simp add: loop_inv_def enc_inv_def hw_ok_def expected_reason_def initial_encoder_def exI [of _ "[]"])

lemma stream_core_ok:
  assumes "bw_data sink = []" "bw_phase sink = BwOpen" "length (fst (stream_of p)) < 2 ^ 64"
    and r: "stream_core_through_zstd z sha sink m deadline ab p = Some (Inr (d, n, h, reason), w)"
  shows "\<exists>cs. concat cs = take (unat (core_cap m)) (fst (stream_of p)) \<and> bw_phase w = BwStored \<and>
    bw_data w = z_stream z cs \<and> n = of_nat (length (bw_data w)) \<and> h = hex_lower (sha (bw_data w)) \<and>
    d = of_nat (length (fst (stream_of p))) \<and>
    reason = expected_reason (core_cap m) (fst (stream_of p)) (snd (stream_of p))"
proof -
  let ?e0 = "initial_encoder z sink"
  from r obtain e e' where l: "core_loop z (core_cap m) deadline ?e0 0 0 None p = Some (Inr (d, reason, e))"
    and sh: "encoder_shutdown z e = (WriteOk, e')"
    and o: "n = hw_bytes (en_writer e')" "h = hex_lower (sha (hw_hashed (en_writer e')))" "w = hw_inner (en_writer e')"
    by (auto simp: stream_core_through_zstd_def initial_encoder_def
        split: option.splits sum.splits prod.splits write_result.splits if_splits)
  from core_loop_result [where z = z and cap = "core_cap m" and deadline = deadline and p = p, OF loop_inv_init [OF assms(1,2)]] l assms(3) obtain cs where
    c: "enc_inv z (bw_close sink) e cs" "concat cs = take (unat (core_cap m)) (fst (stream_of p))"
      "d = of_nat (length (fst (stream_of p)))" "reason = expected_reason (core_cap m) (fst (stream_of p)) (snd (stream_of p))"
    by auto
  from encoder_shutdown_ok [OF c(1) sh] c o show ?thesis by auto
qed

text \<open>
  A failed upload was aborted, or it failed in its last phase: the pipe had been read to its end
  or its error, and the writer had taken everything that the encoder made of the whole core.
\<close>

lemma stream_core_fails:
  assumes "bw_data sink = []" "bw_phase sink = BwOpen" "length (fst (stream_of p)) < 2 ^ 64"
    and r: "stream_core_through_zstd z sha sink m deadline ab p = Some (Inl err, w)"
  shows "err = DeadlineExceeded \<Longrightarrow> deadline"
    and "bw_phase w = BwAborted \<or>
      snd (stream_of p) \<noteq> AtStall \<and> err \<noteq> WriteFailed \<and>
      (\<exists>cs rest. concat cs = take (unat (core_cap m)) (fst (stream_of p)) \<and> bw_data w = snd (z_run z (z_init z) cs) @ rest \<and>
        (bw_phase w = BwOpen \<or> (\<exists>b. bw_phase w = BwShut b) \<and> bw_data w = z_stream z cs))"
proof -
  let ?e0 = "initial_encoder z sink"
  note lr = core_loop_result [where z = z and cap = "core_cap m" and deadline = deadline and p = p, OF loop_inv_init [OF assms(1,2)]]
  consider (loop) "core_loop z (core_cap m) deadline ?e0 0 0 None p = Some (Inl (err, w))"
    | (finish) d reason e r1 e' where "core_loop z (core_cap m) deadline ?e0 0 0 None p = Some (Inr (d, reason, e))"
      "encoder_shutdown z e = (r1, e')" "r1 \<noteq> WriteOk" "w = hw_inner (en_writer e')"
      "err = DeadlineExceeded \<and> deadline \<or> err = FinalizeFailed"
    using r by (auto simp: stream_core_through_zstd_def initial_encoder_def
        split: option.splits sum.splits prod.splits write_result.splits if_splits)
  then have "(err = DeadlineExceeded \<longrightarrow> deadline) \<and> (bw_phase w = BwAborted \<or>
      snd (stream_of p) \<noteq> AtStall \<and> err \<noteq> WriteFailed \<and>
      (\<exists>cs rest. concat cs = take (unat (core_cap m)) (fst (stream_of p)) \<and> bw_data w = snd (z_run z (z_init z) cs) @ rest \<and>
        (bw_phase w = BwOpen \<or> (\<exists>b. bw_phase w = BwShut b) \<and> bw_data w = z_stream z cs)))"
  proof cases
    case loop
    with lr assms(3) show ?thesis by simp
  next
    case finish
    from lr finish(1) assms(3) obtain cs where
      c: "enc_inv z (bw_close sink) e cs" "concat cs = take (unat (core_cap m)) (fst (stream_of p))" "snd (stream_of p) \<noteq> AtStall" by auto
    from encoder_shutdown_fails [OF c(1) finish(2,3)] c(2,3) finish(4,5) show ?thesis by auto
  qed
  then show "err = DeadlineExceeded \<Longrightarrow> deadline"
    and "bw_phase w = BwAborted \<or>
      snd (stream_of p) \<noteq> AtStall \<and> err \<noteq> WriteFailed \<and>
      (\<exists>cs rest. concat cs = take (unat (core_cap m)) (fst (stream_of p)) \<and> bw_data w = snd (z_run z (z_init z) cs) @ rest \<and>
        (bw_phase w = BwOpen \<or> (\<exists>b. bw_phase w = BwShut b) \<and> bw_data w = z_stream z cs))" by simp_all
qed

lemma stream_core_counts:
  "case stream_core_through_zstd z sha sink m deadline ab p of
      None \<Rightarrow> \<not> deadline \<or> \<not> ab
    | Some (Inl _, _) \<Rightarrow> True
    | Some (Inr (d, n, h, r), _) \<Rightarrow>
        snd (stream_of p) \<noteq> AtStall \<and> d = of_nat (length (fst (stream_of p))) \<and>
        (snd (stream_of p) = AtError \<longrightarrow> r = Some ''stream_error'')"
  using core_loop_counts [where z = z and cap = "core_cap m" and deadline = deadline and e = "initial_encoder z sink"
      and drained = 0 and written = 0 and reason = None and p = p]
  by (auto simp: stream_core_through_zstd_def initial_encoder_def
      split: option.splits sum.splits prod.splits write_result.splits if_splits)

lemma standalone_drain_result:
  "fst (standalone_drain env sb deadline p store) =
    (case stream_core_through_zstd (ue_zstd env) (ue_sha256 env) (fresh_writer env) (sb_max_core_bytes sb) deadline (ue_abort_returns env) p of
       None \<Rightarrow> None | Some (Inl e, _) \<Rightarrow> Some (Inl e) | Some (Inr x, _) \<Rightarrow> Some (Inr (standalone_stats x)))"
  by (auto simp: standalone_drain_def split: option.splits sum.splits)

lemmas standalone_drain_splits = option.splits sum.splits prod.splits

interpretation standalone: core_sink "\<lambda>deadline p. fst (standalone_drain env sb deadline p store)" for env sb store
proof (unfold_locales, goal_cases)
  case (1 deadline p st)
  then show ?case
    using stream_core_counts [where z = "ue_zstd env" and sha = "ue_sha256 env" and sink = "fresh_writer env"
      and m = "sb_max_core_bytes sb" and deadline = deadline and ab = "ue_abort_returns env" and p = p]
    by (auto simp: standalone_drain_result standalone_stats_def split: standalone_drain_splits)
next
  case (2 deadline p st)
  then show ?case by (auto simp: standalone_drain_result standalone_stats_def split: standalone_drain_splits)
next
  case (3 deadline p st)
  then show ?case
    using stream_core_counts [where z = "ue_zstd env" and sha = "ue_sha256 env" and sink = "fresh_writer env"
      and m = "sb_max_core_bytes sb" and deadline = deadline and ab = "ue_abort_returns env" and p = p]
    by (auto simp: standalone_drain_result standalone_stats_def split: standalone_drain_splits)
qed

text \<open>The deadline bounds a drain whose store answers the abort.\<close>

interpretation answered: bounded_sink
  "\<lambda>deadline p. fst (standalone_drain (env\<lparr>ue_abort_returns := True\<rparr>) sb deadline p store)" for env sb store
proof (unfold_locales, goal_cases)
  case (1 p)
  show ?case
    using stream_core_counts [where z = "ue_zstd env" and sha = "ue_sha256 env" and sink = "fresh_writer (env\<lparr>ue_abort_returns := True\<rparr>)"
      and m = "sb_max_core_bytes sb" and deadline = True and ab = True and p = p]
    by (auto simp: standalone_drain_result split: standalone_drain_splits)
qed

section \<open>Keys and digests\<close>

lemma hex_digit_HEX: "n < 16 \<Longrightarrow> hex_digit n = HEX ! n"
proof -
  have "list_all (\<lambda>n. hex_digit n = HEX ! n) [0..<16]" by code_simp
  then show "n < 16 \<Longrightarrow> ?thesis" by (simp add: list_all_iff)
qed

lemma hex_lower_hex: "hex_lower b = hex b"
  by (induction b) (simp_all add: hex_digit_HEX nibble_lt)

lemma object_prefix_inj:
  assumes "CHR ''/'' \<notin> set pod" "CHR ''/'' \<notin> set cid" "CHR ''/'' \<notin> set pod'" "CHR ''/'' \<notin> set cid'"
    and eq: "cl @ ''/'' @ pod @ ''/'' @ cid @ ''/'' @ show_int t @ ''-'' @ r =
      cl' @ ''/'' @ pod' @ ''/'' @ cid' @ ''/'' @ show_int t' @ ''-'' @ r'"
    and r: "CHR ''/'' \<notin> set r" "CHR ''/'' \<notin> set r'"
  shows "cl = cl' \<and> pod = pod' \<and> cid = cid' \<and> t = t' \<and> r = r'"
proof -
  have cut: "a = a' \<and> b = b'" if "a @ CHR ''/'' # b = a' @ CHR ''/'' # b'" "CHR ''/'' \<notin> set b" "CHR ''/'' \<notin> set b'" for a a' b b'
  proof -
    have "rev b @ CHR ''/'' # rev a = rev (a @ CHR ''/'' # b)" by simp
    also have "\<dots> = rev b' @ CHR ''/'' # rev a'" unfolding that(1) by simp
    finally have "split_once (CHR ''/'') (rev b @ CHR ''/'' # rev a) = split_once (CHR ''/'') (rev b' @ CHR ''/'' # rev a')"
      by (rule arg_cong)
    then show ?thesis using that(2,3) by (simp add: split_once_append)
  qed
  have n: "CHR ''/'' \<notin> set (show_int i @ ''-'' @ x)" if "CHR ''/'' \<notin> set x" for i x
    using that show_int_no_slash by simp
  from cut [of "cl @ ''/'' @ pod @ ''/'' @ cid" "show_int t @ ''-'' @ r" "cl' @ ''/'' @ pod' @ ''/'' @ cid'" "show_int t' @ ''-'' @ r'"]
  have 1: "cl @ ''/'' @ pod @ ''/'' @ cid = cl' @ ''/'' @ pod' @ ''/'' @ cid'" "show_int t @ ''-'' @ r = show_int t' @ ''-'' @ r'"
    using eq n [OF r(1)] n [OF r(2)] by simp_all
  from cut [of "cl @ ''/'' @ pod" cid "cl' @ ''/'' @ pod'" cid'] 1(1) assms
  have 2: "cl @ ''/'' @ pod = cl' @ ''/'' @ pod'" "cid = cid'" by simp_all
  from cut [of cl pod cl' pod'] 2(1) assms have "cl = cl' \<and> pod = pod'" by simp
  with 2 show_int_dash_unique [of t r t' r'] 1(2) show ?thesis by simp
qed

text \<open>Two captures that share an object key are the same capture.\<close>

lemma object_keys_meet:
  assumes "\<forall>x\<in>set [pod, cid, pod', cid']. CHR ''/'' \<notin> set x"
    and "k = object_keys_new cl pod cid t pid" "k' = object_keys_new cl' pod' cid' t' pid'"
    and "{key_core k, key_proc_snapshot k, key_manifest k} \<inter> {key_core k', key_proc_snapshot k', key_manifest k'} \<noteq> {}"
  shows "cl = cl' \<and> pod = pod' \<and> cid = cid' \<and> t = t' \<and> pid = pid' \<and>
    distinct [key_core k, key_proc_snapshot k, key_manifest k]"
proof -
  have inj: "cl = cl' \<and> pod = pod' \<and> cid = cid' \<and> t = t' \<and> show_int pid @ ''-'' @ x = show_int pid' @ ''-'' @ x'"
    if "ok_prefix k @ ''-'' @ x = ok_prefix k' @ ''-'' @ x'" "CHR ''/'' \<notin> set x" "CHR ''/'' \<notin> set x'" for x x'
    using object_prefix_inj [of pod cid pod' cid' cl t "show_int pid @ ''-'' @ x" cl' t' "show_int pid' @ ''-'' @ x'"]
      that assms(1,2,3) show_int_no_slash by (simp add: object_keys_new_def)
  let ?sfx = "{''core.zst'', ''procsnapshot.tar'', ''manifest.json''}"
  have keys: "{key_core q, key_proc_snapshot q, key_manifest q} = (\<lambda>x. ok_prefix q @ ''-'' @ x) ` ?sfx" for q
    by (simp add: key_core_def key_proc_snapshot_def key_manifest_def)
  have ns: "CHR ''/'' \<notin> set x" if "x \<in> ?sfx" for x using that by auto
  from assms(4) obtain x x' where "x \<in> ?sfx" "x' \<in> ?sfx" "ok_prefix k @ ''-'' @ x = ok_prefix k' @ ''-'' @ x'"
    unfolding keys by blast
  note i = inj [OF this(3) ns [OF this(1)] ns [OF this(2)]]
  have "distinct [key_core k, key_proc_snapshot k, key_manifest k]"
    by (simp add: key_core_def key_proc_snapshot_def key_manifest_def)
  moreover have "pid = pid'" using i show_int_dash_unique [of pid x pid' x'] by simp
  ultimately show ?thesis using i by simp
qed

text \<open>What a drain that succeeds has done: one object, the encoding of the capped stream.\<close>

lemma standalone_drain_ok:
  assumes "length (fst (stream_of p)) < 2 ^ 64"
    and "standalone_drain env sb deadline p store = (Some (Inr st), store')"
  obtains cs obj where "concat cs = take (unat (core_cap (sb_max_core_bytes sb))) (fst (stream_of p))"
    "obj = z_stream (ue_zstd env) cs" "store' = store(sb_key sb \<mapsto> obj)"
    "st = standalone_stats (of_nat (length (fst (stream_of p))), of_nat (length obj), hex_lower (ue_sha256 env obj),
       expected_reason (core_cap (sb_max_core_bytes sb)) (fst (stream_of p)) (snd (stream_of p)))"
proof -
  from assms(2) obtain d n h r w where
    sc: "stream_core_through_zstd (ue_zstd env) (ue_sha256 env) (fresh_writer env) (sb_max_core_bytes sb) deadline (ue_abort_returns env) p =
      Some (Inr (d, n, h, r), w)" and st: "st = standalone_stats (d, n, h, r)"
    and s': "store' = (case bw_object w of Some b \<Rightarrow> store(sb_key sb \<mapsto> b) | None \<Rightarrow> store)"
    by (auto simp: standalone_drain_def split: option.splits prod.splits sum.splits)
  have "bw_data (fresh_writer env) = []" "bw_phase (fresh_writer env) = BwOpen" by (simp_all add: fresh_writer_def)
  from stream_core_ok [OF this assms(1) sc] obtain cs where
    c: "concat cs = take (unat (core_cap (sb_max_core_bytes sb))) (fst (stream_of p))" "bw_phase w = BwStored"
      "bw_data w = z_stream (ue_zstd env) cs" "n = of_nat (length (bw_data w))" "h = hex_lower (ue_sha256 env (bw_data w))"
      "d = of_nat (length (fst (stream_of p)))"
      "r = expected_reason (core_cap (sb_max_core_bytes sb)) (fst (stream_of p)) (snd (stream_of p))" by blast
  show thesis by (rule that [OF c(1) refl]) (use c st s' in \<open>simp_all add: bw_object_def\<close>)
qed

lemma unat_core_cap: "unat (core_cap m) = (if m = 0 then 2 ^ 64 - 1 else unat m)"
  by (simp add: core_cap_def unsigned_minus_1_eq_mask mask_eq_exp_minus_1)

text \<open>The part of a stream that is stored: all of it, or the first \<open>max_core_bytes\<close> bytes.\<close>

definition capped :: "u64 \<Rightarrow> bytes \<Rightarrow> bytes" where
  "capped max_core_bytes s = (if max_core_bytes = 0 then s else take (unat max_core_bytes) s)"

lemma capped_take: "length s < 2 ^ 64 \<Longrightarrow> take (unat (core_cap m)) s = capped m s"
  by (simp add: unat_core_cap capped_def)

lemma standalone_drain_other:
  "k \<noteq> sb_key sb \<Longrightarrow> snd (standalone_drain env sb deadline p store) k = store k"
  by (auto simp: standalone_drain_def split: option.split prod.split)

section \<open>A store that takes the core\<close>

text \<open>A writer that takes some of every write and finishes the upload.\<close>

definition accepting :: "buf_writer \<Rightarrow> bool" where
  "accepting w \<longleftrightarrow> list_all (\<lambda>ev. case ev of Accept n \<Rightarrow> 0 < n | _ \<Rightarrow> False) (bw_script w) \<and> bw_close w = CloseOk"

lemma accepting_poll:
  assumes "accepting (hw_inner h)" "buf \<noteq> []"
  obtains n h' where "hw_poll_write h buf = (Accepted n, h')" "0 < n" "accepting (hw_inner h')"
proof (cases "bw_script (hw_inner h)")
  case Nil
  with assms that show thesis by (auto simp: hw_poll_write_def bw_poll_write_def accepting_def)
next
  case (Cons ev sc)
  with assms obtain n where "ev = Accept n" "0 < n" by (auto simp: accepting_def split: sink_ev.splits)
  with Cons assms that show thesis by (auto simp: hw_poll_write_def bw_poll_write_def accepting_def Let_def)
qed

lemma accepting_push:
  "accepting (hw_inner h) \<Longrightarrow> \<exists>h'. push h out = (WriteOk, h') \<and> accepting (hw_inner h')"
proof (induction h out rule: push.induct)
  case (1 h out)
  show ?case
  proof (cases "out = []")
    case False
    with 1(2) obtain n h' where p: "hw_poll_write h out = (Accepted n, h')" "0 < n" "accepting (hw_inner h')"
      by (rule accepting_poll)
    with 1(1) [OF False p(1) [symmetric] refl] False show ?thesis by (simp add: push.simps [of h out])
  qed (use 1(2) in \<open>simp add: push.simps\<close>)
qed

lemma accepting_write_all:
  assumes "accepting (hw_inner (en_writer e))"
  obtains e' where "encoder_write_all z e buf = (WriteOk, e')" "accepting (hw_inner (en_writer e'))"
proof -
  obtain st out where w: "z_write z (en_state e) buf = (st, out)" by fastforce
  from accepting_push [OF assms, of out] obtain h' where "push (en_writer e) out = (WriteOk, h')" "accepting (hw_inner h')"
    by blast
  with w that show thesis by (simp add: encoder_write_all_def)
qed

lemma accepting_loop:
  "accepting (hw_inner (en_writer e)) \<Longrightarrow> snd (stream_of p) \<noteq> AtStall \<Longrightarrow>
    \<exists>d r e'. core_loop z cap deadline e drained written reason p = Some (Inr (d, r, e')) \<and>
      accepting (hw_inner (en_writer e'))"
proof (induction z cap deadline e drained written reason p rule: core_loop.induct)
  case (1 z cap deadline e drained written reason p)
  note st = stream_of_read [OF CORE_READ_CHUNK_pos, of p]
  obtain rr p' where rp: "read_pipe CORE_READ_CHUNK p = (rr, p')" by fastforce
  show ?case
  proof (cases "\<exists>b cs. rr = ReadOk (b # cs)")
    case True
    then obtain b cs where rr: "rr = ReadOk (b # cs)" by blast
    let ?n = "of_nat (length (b # cs)) :: u64"
    let ?k = "min ?n (saturating_sub cap written)"
    have sp: "snd (stream_of p') \<noteq> AtStall" using 1(4) st rp rr by simp
    note unf = core_loop_chunk [OF rp [unfolded rr] refl refl, of z cap deadline e drained written reason]
    show ?thesis
    proof (cases "0 < ?k")
      case True
      from 1(3) obtain e' where w: "encoder_write_all z e (take (unat ?k) (b # cs)) = (WriteOk, e')"
          "accepting (hw_inner (en_writer e'))" by (rule accepting_write_all)
      show ?thesis unfolding unf if_P [OF True] w(1) prod.case write_result.case
        by (rule "1.IH"(1) [OF rp [symmetric] rr refl refl refl refl next_reason_def True w(1) [symmetric] refl w(2) sp])
    next
      case False
      show ?thesis unfolding unf if_not_P [OF False]
        by (rule "1.IH"(2) [OF rp [symmetric] rr refl refl refl refl next_reason_def False 1(3) sp])
    qed
  next
    case False
    then have "rr = NotReady \<or> rr = ReadFailed \<or> rr = ReadOk []" by (cases rr) (auto intro: list.exhaust)
    then show ?thesis using rp st 1(3,4) by (subst core_loop.simps) auto
  qed
qed

text \<open>Then the drain succeeds, unless the pipe stalls.\<close>

lemma accepting_drain:
  assumes "accepting (fresh_writer env)" "snd (stream_of p) \<noteq> AtStall"
  obtains st store' where "standalone_drain env sb deadline p store = (Some (Inr st), store')"
proof -
  let ?e0 = "initial_encoder (ue_zstd env) (fresh_writer env)"
  have "accepting (hw_inner (en_writer ?e0))" using assms(1) by (simp add: initial_encoder_def)
  from accepting_loop [OF this assms(2)] obtain d r e where
    l: "core_loop (ue_zstd env) (core_cap (sb_max_core_bytes sb)) deadline ?e0 0 0 None p = Some (Inr (d, r, e))"
    and a: "accepting (hw_inner (en_writer e))" by metis
  from accepting_push [OF a] obtain h where
    "push (en_writer e) (z_finish (ue_zstd env) (en_state e)) = (WriteOk, h)" "accepting (hw_inner h)" by blast
  then have "fst (encoder_shutdown (ue_zstd env) e) = WriteOk"
    by (simp add: encoder_shutdown_def hw_poll_shutdown_def bw_shutdown_def accepting_def)
  then obtain e' where "encoder_shutdown (ue_zstd env) e = (WriteOk, e')" by (metis prod.collapse)
  with l that show thesis
    by (simp add: standalone_drain_def stream_core_through_zstd_def initial_encoder_def)
qed

text \<open>A pipe that stalls fails the drain at its deadline, and the aborted upload leaves no object.\<close>

lemma stalled_drain:
  assumes "snd (stream_of p) = AtStall" "length (fst (stream_of p)) < 2 ^ 64" "ue_abort_returns env"
  shows "\<exists>e. standalone_drain env sb True p store = (Some (Inl e), store)"
proof -
  let ?r = "stream_core_through_zstd (ue_zstd env) (ue_sha256 env) (fresh_writer env) (sb_max_core_bytes sb) True (ue_abort_returns env) p"
  from stream_core_counts [where z = "ue_zstd env" and sha = "ue_sha256 env" and sink = "fresh_writer env"
      and m = "sb_max_core_bytes sb" and deadline = True and ab = "ue_abort_returns env" and p = p] assms(1,3)
  obtain e w where r: "?r = Some (Inl e, w)" by (auto split: option.splits prod.splits sum.splits)
  have "bw_phase w = BwAborted"
    using stream_core_fails(2) [OF _ _ assms(2) r] assms(1) by (simp add: fresh_writer_def)
  with r show ?thesis by (simp add: standalone_drain_def bw_object_def)
qed

section \<open>Properties\<close>

text \<open>An encoder for the examples: it stores what it is given and ends with a marker byte.\<close>

definition stored_zstd :: "nat zstd" where
  "stored_zstd = \<lparr>z_init = 0, z_write = (\<lambda>n b. (Suc n, b)), z_finish = (\<lambda>n. ''.'')\<rparr>"

definition stored_decode :: "bytes \<Rightarrow> bytes option" where
  "stored_decode b = (if b = [] then None else Some (butlast b))"

lemma stored_zstd_run: "z_run stored_zstd n cs = (n + length cs, concat cs)"
  by (induction cs arbitrary: n) (simp_all add: stored_zstd_def)

lemma stored_zstd_ok: "zstd_ok stored_zstd stored_decode"
  by (simp add: zstd_ok_def z_stream_def stored_decode_def stored_zstd_run) (simp add: stored_zstd_def)

definition example_env :: "sink_ev list \<Rightarrow> close_ev \<Rightarrow> nat upload_env" where
  "example_env script cl = \<lparr>ue_zstd = stored_zstd, ue_sha256 = (\<lambda>b. take 2 b), ue_script = script, ue_close = cl, ue_abort_returns = True\<rparr>"

text \<open>
  C13. A drain that succeeds has stored exactly the core: the object under the capture's key
  decompresses to the stream the kernel wrote, cut at the size cap if one is set, and no other
  object changed; the reported size and sha256 are those of the stored object, the reported
  byte count is that of the stream, and the reason for truncation is a stream error, the cap,
  or nothing, exactly when these happened. This holds however the reads are chunked and
  however the store takes the bytes.
\<close>

theorem standalone_stores_core_exactly:
  assumes "zstd_ok (ue_zstd env) decode" "length (fst (stream_of p)) < 2 ^ 64"
    and "standalone_drain env sb deadline p store = (Some (Inr st), store')"
  shows "\<exists>obj. store' = store(sb_key sb \<mapsto> obj) \<and>
    decode obj = Some (if sb_max_core_bytes sb = 0 then fst (stream_of p)
      else take (unat (sb_max_core_bytes sb)) (fst (stream_of p))) \<and>
    cs_stored_bytes st = of_nat (length obj) \<and> cs_sha256 st = Some (hex_lower (ue_sha256 env obj)) \<and>
    unat (cs_bytes st) = length (fst (stream_of p)) \<and> snd (stream_of p) \<noteq> AtStall \<and>
    cs_truncated_reason st =
      (if snd (stream_of p) = AtError then Some ''stream_error''
       else if sb_max_core_bytes sb \<noteq> 0 \<and> unat (sb_max_core_bytes sb) < length (fst (stream_of p)) then Some ''size_cap''
       else None)"
proof -
  let ?s = "fst (stream_of p)"
  from assms(2,3) obtain cs obj where
    c: "concat cs = take (unat (core_cap (sb_max_core_bytes sb))) ?s" "obj = z_stream (ue_zstd env) cs"
      "store' = store(sb_key sb \<mapsto> obj)"
      "st = standalone_stats (of_nat (length ?s), of_nat (length obj), hex_lower (ue_sha256 env obj),
         expected_reason (core_cap (sb_max_core_bytes sb)) ?s (snd (stream_of p)))"
    by (rule standalone_drain_ok)
  have "decode obj = Some (capped (sb_max_core_bytes sb) ?s)"
    using assms(1) c(1,2) capped_take [OF assms(2)] by (simp add: zstd_ok_def)
  moreover have "unat (cs_bytes st) = length ?s" "snd (stream_of p) \<noteq> AtStall"
    using standalone.byte_count_exact [of env sb deadline p store st] standalone.counts [of env sb deadline p store st] assms(2,3)
    by simp_all
  ultimately show ?thesis using c(3,4) assms(2)
    by (intro exI [of _ obj]) (auto simp: standalone_stats_def expected_reason_def unat_core_cap capped_def)
qed

theorem standalone_stores_core_exactly_witness:
  "\<exists>obj. snd (standalone_drain (example_env [Accept 1] CloseOk) \<lparr>sb_key = ''k'', sb_max_core_bytes = 3\<rparr> True
      [Data ''ab'', Data ''cd''] Map.empty) = [''k'' \<mapsto> obj] \<and> stored_decode obj = Some ''abc''"
proof -
  let ?env = "example_env [Accept 1] CloseOk" and ?sb = "\<lparr>sb_key = ''k'', sb_max_core_bytes = 3\<rparr>"
  let ?r = "standalone_drain ?env ?sb True [Data ''ab'', Data ''cd''] Map.empty"
  have "\<exists>st. fst ?r = Some (Inr st)"
    by (simp add: standalone_drain_def stream_core_through_zstd_def core_loop.simps CORE_READ_CHUNK_def core_cap_def
        encoder_write_all_def encoder_shutdown_def push.simps hw_poll_write_def bw_poll_write_def hw_poll_shutdown_def
        bw_shutdown_def fresh_writer_def example_env_def stored_zstd_def saturating_sub_def Let_def)
  then obtain st where "?r = (Some (Inr st), snd ?r)" by (metis prod.collapse)
  moreover have "zstd_ok (ue_zstd ?env) stored_decode" by (simp add: example_env_def stored_zstd_ok)
  ultimately show ?thesis
    using standalone_stores_core_exactly [of ?env stored_decode "[Data ''ab'', Data ''cd'']" ?sb True Map.empty st "snd ?r"]
    by auto
qed

text \<open>
  C14. A failed drain leaves no partial core. Whatever went wrong, no object under another key is
  touched, and under its own key there is either what was there before or the complete encoding
  of the (capped) core. Unless the failure came in the last phase, when the pipe had been read to
  its end and the writer had taken all that the encoder made of the core, the multipart upload
  was aborted and the store is unchanged; that covers a failed write, a pipe that stalls and a
  deadline that strikes while a write is blocked.
\<close>

theorem failed_drain_cleans_up:
  assumes "length (fst (stream_of p)) < 2 ^ 64"
    and "stream_core_through_zstd (ue_zstd env) (ue_sha256 env) (fresh_writer env) (sb_max_core_bytes sb) deadline
      (ue_abort_returns env) p = Some (Inl err, w)"
    and "standalone_drain env sb deadline p store = (r, store')"
  shows "r = Some (Inl err) \<and> (err = DeadlineExceeded \<longrightarrow> deadline) \<and> (\<forall>k. k \<noteq> sb_key sb \<longrightarrow> store' k = store k) \<and>
    (bw_phase w = BwAborted \<and> store' = store \<or>
     snd (stream_of p) \<noteq> AtStall \<and> err \<noteq> WriteFailed \<and>
     (\<exists>cs rest. concat cs = capped (sb_max_core_bytes sb) (fst (stream_of p)) \<and>
        bw_data w = snd (z_run (ue_zstd env) (z_init (ue_zstd env)) cs) @ rest \<and>
        (store' = store \<or> store' = store(sb_key sb \<mapsto> z_stream (ue_zstd env) cs))))"
proof -
  have f: "bw_data (fresh_writer env) = []" "bw_phase (fresh_writer env) = BwOpen" by (simp_all add: fresh_writer_def)
  note sf = stream_core_fails [OF f assms(1,2)]
  have s: "r = Some (Inl err)" "store' = (case bw_object w of Some b \<Rightarrow> store(sb_key sb \<mapsto> b) | None \<Rightarrow> store)"
    using assms(2,3) by (simp_all add: standalone_drain_def)
  have other: "store' k = store k" if "k \<noteq> sb_key sb" for k using that s(2) by (simp split: option.split)
  from sf(2) show ?thesis
  proof
    assume "bw_phase w = BwAborted"
    with s sf(1) other show ?thesis by (simp add: bw_object_def)
  next
    assume "snd (stream_of p) \<noteq> AtStall \<and> err \<noteq> WriteFailed \<and>
      (\<exists>cs rest. concat cs = take (unat (core_cap (sb_max_core_bytes sb))) (fst (stream_of p)) \<and>
        bw_data w = snd (z_run (ue_zstd env) (z_init (ue_zstd env)) cs) @ rest \<and>
        (bw_phase w = BwOpen \<or> (\<exists>b. bw_phase w = BwShut b) \<and> bw_data w = z_stream (ue_zstd env) cs))"
    then obtain cs rest where c: "snd (stream_of p) \<noteq> AtStall" "err \<noteq> WriteFailed"
      "concat cs = capped (sb_max_core_bytes sb) (fst (stream_of p))"
      "bw_data w = snd (z_run (ue_zstd env) (z_init (ue_zstd env)) cs) @ rest"
      and ph: "bw_phase w = BwOpen \<or> (\<exists>b. bw_phase w = BwShut b) \<and> bw_data w = z_stream (ue_zstd env) cs"
      using capped_take [OF assms(1)] by auto
    from ph have "store' = store \<or> store' = store(sb_key sb \<mapsto> z_stream (ue_zstd env) cs)"
      unfolding s(2) by (auto simp: bw_object_def split: bool.splits)
    with c s(1) sf(1) other show ?thesis by blast
  qed
qed

theorem failed_drain_cleans_up_witness:
  "\<exists>w. stream_core_through_zstd stored_zstd (ue_sha256 (example_env [SinkStall] CloseOk)) (fresh_writer (example_env [SinkStall] CloseOk))
      0 True True [Data ''ab''] = Some (Inl DeadlineExceeded, w) \<and> bw_phase w = BwAborted \<and>
    standalone_drain (example_env [SinkStall] CloseOk) \<lparr>sb_key = ''c'', sb_max_core_bytes = 0\<rparr> True [Data ''ab''] [''o'' \<mapsto> ''x''] =
      (Some (Inl DeadlineExceeded), [''o'' \<mapsto> ''x''])"
proof -
  let ?env = "example_env [SinkStall] CloseOk" and ?sb = "\<lparr>sb_key = ''c'', sb_max_core_bytes = 0\<rparr>"
  let ?r = "stream_core_through_zstd (ue_zstd ?env) (ue_sha256 ?env) (fresh_writer ?env) (sb_max_core_bytes ?sb) True
      (ue_abort_returns ?env) [Data ''ab'']"
  have "\<exists>w. ?r = Some (Inl DeadlineExceeded, w) \<and> bw_data w = []"
    by (simp add: stream_core_through_zstd_def core_loop.simps CORE_READ_CHUNK_def core_cap_def
        encoder_write_all_def push.simps hw_poll_write_def bw_poll_write_def fresh_writer_def example_env_def
        stored_zstd_def saturating_sub_def Let_def abort_multipart_def bw_abort_def)
  then obtain w where w: "?r = Some (Inl DeadlineExceeded, w)" "bw_data w = []" by blast
  obtain r store' where d: "standalone_drain ?env ?sb True [Data ''ab''] [''o'' \<mapsto> ''x''] = (r, store')" by fastforce
  from failed_drain_cleans_up [OF _ w(1) d] w d show ?thesis
    by (auto simp: example_env_def capped_def stored_zstd_run simp del: concat_eq_Nil_conv)
qed

text \<open>
  The deadline bounds the drain: whatever the pipe and the store do, as long as the store
  answers the abort of an upload, with a deadline both backends return, and on a pipe that stalls they return an error rather than a core.
\<close>

theorem deadline_bounds_drain:
  assumes "ue_abort_returns env"
  shows "(\<exists>r. discard_drain True p = Some r) \<and> (\<exists>r. fst (standalone_drain env sb True p store) = Some r) \<and>
   (snd (stream_of p) = AtStall \<longrightarrow>
      (\<exists>e. discard_drain True p = Some (Inl e)) \<and> (\<exists>e. fst (standalone_drain env sb True p store) = Some (Inl e)))"
proof -
  have "env\<lparr>ue_abort_returns := True\<rparr> = env" using assms by simp
  then show ?thesis
    using discard.deadline_returns answered.deadline_returns [of env] discard.stalled_fails answered.stalled_fails [of _ env] by metis
qed

theorem deadline_bounds_drain_witness: "\<exists>e. discard_drain True [Data ''x'', Stall] = Some (Inl e)"
  using deadline_bounds_drain [of "example_env [] CloseOk" "[Data ''x'', Stall]"] by (simp add: example_env_def)

text \<open>
  A core that is not marked truncated is complete: either backend then drained the pipe to
  its end, and counted every byte of it.
\<close>

theorem untruncated_core_complete:
  assumes "length (fst (stream_of p)) < 2 ^ 64" "\<not> cs_truncated st"
    and "discard_drain deadline p = Some (Inr st) \<or> fst (standalone_drain env sb deadline p store) = Some (Inr st)"
  shows "snd (stream_of p) = AtEof \<and> unat (cs_bytes st) = length (fst (stream_of p))"
  using assms discard.complete_unless_marked discard.byte_count_exact
    standalone.complete_unless_marked standalone.byte_count_exact by blast

theorem untruncated_core_complete_witness:
  "snd (stream_of [Data ''xy'']) = AtEof"
proof -
  let ?st = "\<lparr>cs_bytes = 2, cs_stored_bytes = 0, cs_sha256 = None, cs_truncated = False, cs_truncated_reason = None\<rparr>"
  have "discard_drain False [Data ''xy''] = Some (Inr ?st)" by (simp add: discard_drain_def discard_loop_stream)
  with untruncated_core_complete [of "[Data ''xy'']" ?st False] show ?thesis by simp
qed

text \<open>
  C15. Object keys never collide: the core, snapshot and manifest keys of a capture are
  different, and two captures share one only if cluster, pod, container, crash second and host
  pid all agree. Pod uids and container ids come from path segments and have no slash.
\<close>

theorem object_keys_distinct:
  assumes "\<forall>x\<in>set [pod, cid, pod', cid']. CHR ''/'' \<notin> set x"
    and "k = object_keys_new cl pod cid t pid" "k' = object_keys_new cl' pod' cid' t' pid'"
    and "{key_core k, key_proc_snapshot k, key_manifest k} \<inter> {key_core k', key_proc_snapshot k', key_manifest k'} \<noteq> {}"
  shows "cl = cl' \<and> pod = pod' \<and> cid = cid' \<and> t = t' \<and> pid = pid' \<and>
    distinct [key_core k, key_proc_snapshot k, key_manifest k]"
  using assms by (rule object_keys_meet)

theorem object_keys_distinct_witness:
  "distinct [key_core (object_keys_new ''c'' ''p'' ''i'' 7 (-1)), key_proc_snapshot (object_keys_new ''c'' ''p'' ''i'' 7 (-1)),
     key_manifest (object_keys_new ''c'' ''p'' ''i'' 7 (-1))]"
  using object_keys_distinct [of "''p''" "''i''" "''p''" "''i''" _ "''c''" 7 "-1" _ "''c''" 7 "-1"] by simp

text \<open>
  The two hexadecimal printers of the repository agree: the digest printed by \<open>{:02x}\<close>
  formatting is the one printed by table lookup in \<open>buildid.rs\<close>, for all bytes.
\<close>

theorem hex_lower_is_hex: "hex_lower b = hex b"
  by (rule hex_lower_hex)

end
