(* ===== verification/Config.thy ===== *)
theory Config
  imports Filesystem Upload
begin

text \<open>
  \<open>src/config.rs\<close>: the handler configuration, its validation, and its atomic replacement on
  disk by the daemon while handlers may be reading it. \<open>serde_json\<close>, the \<open>url\<close> crate and the
  scheme parser of \<open>object_store\<close> are parameters; \<open>ensure_private_dir\<close> is in \<open>Filesystem\<close>.
\<close>

section \<open>Constants and derived paths\<close>

definition DEFAULT_CONFIG_PATH :: path where "DEFAULT_CONFIG_PATH = ''/run/coredrop/handler.json''"
definition DEFAULT_CLUSTER :: string where "DEFAULT_CLUSTER = ''local''"
definition DEFAULT_PROC_ROOT :: path where "DEFAULT_PROC_ROOT = ''/proc''"
definition DEFAULT_CRICTL_PATH :: path where "DEFAULT_CRICTL_PATH = ''/usr/local/bin/crictl''"
definition DEFAULT_MAX_CORE_BYTES :: u64 where "DEFAULT_MAX_CORE_BYTES = 2 * 1024 * 1024 * 1024"
definition DEFAULT_MAX_CORES_PER_HOUR :: u32 where "DEFAULT_MAX_CORES_PER_HOUR = 3"
definition DEFAULT_UPLOAD_DEADLINE_SECS :: u64 where "DEFAULT_UPLOAD_DEADLINE_SECS = 300"
definition DEFAULT_CRICTL_TIMEOUT_SECS :: u64 where "DEFAULT_CRICTL_TIMEOUT_SECS = 10"

definition default_rate_state_path :: path where
  "default_rate_state_path = ''/run/coredrop/recent.json''"

definition rate_state_path_for :: "path \<Rightarrow> path" where
  "rate_state_path_for config_path =
     (case path_parent config_path of
        None \<Rightarrow> default_rate_state_path
      | Some p \<Rightarrow> path_join p ''recent.json'')"

definition default_event_socket_path :: path where
  "default_event_socket_path = ''/run/coredrop/events.sock''"

definition event_socket_path_for :: "path \<Rightarrow> path" where
  "event_socket_path_for config_path =
     (case path_parent config_path of
        None \<Rightarrow> default_event_socket_path
      | Some p \<Rightarrow> path_join p ''events.sock'')"

section \<open>\<open>HandlerConfig\<close>\<close>

record handler_config =
  hc_cluster :: string
  hc_no_redact :: bool
  hc_proc_root :: path
  hc_store_url :: "string option"
  hc_store_options :: store_opts
  hc_crictl_path :: path
  hc_cri_runtime_endpoint :: "string option"
  hc_max_core_bytes :: u64
  hc_max_cores_per_hour :: u32
  hc_upload_deadline_secs :: u64
  hc_crictl_timeout_secs :: u64
  hc_rate_state_path :: path
  hc_event_socket_path :: "path option"

definition handler_config_default :: handler_config where
  "handler_config_default =
     \<lparr>hc_cluster = DEFAULT_CLUSTER, hc_no_redact = False, hc_proc_root = DEFAULT_PROC_ROOT,
      hc_store_url = None, hc_store_options = [], hc_crictl_path = DEFAULT_CRICTL_PATH,
      hc_cri_runtime_endpoint = None, hc_max_core_bytes = DEFAULT_MAX_CORE_BYTES,
      hc_max_cores_per_hour = DEFAULT_MAX_CORES_PER_HOUR,
      hc_upload_deadline_secs = DEFAULT_UPLOAD_DEADLINE_SECS,
      hc_crictl_timeout_secs = DEFAULT_CRICTL_TIMEOUT_SECS,
      hc_rate_state_path = default_rate_state_path,
      hc_event_socket_path = Some default_event_socket_path\<rparr>"

text \<open>
  The \<open>Debug\<close> output as \<open>debug_struct\<close> receives it: the type name and the fields in order, with
  the values as they are printed there.
\<close>

datatype debug_val =
  DbgStr string | DbgBool bool | DbgPath path | DbgOptStr "string option" | DbgPairs "(string \<times> string) list"
| DbgU64 u64 | DbgU32 u32 | DbgOptPath "path option"

definition handler_config_debug :: "handler_config \<Rightarrow> string \<times> (string \<times> debug_val) list" where
  "handler_config_debug c =
     (let store_option_keys = map (\<lambda>(key, _). (key, ''<redacted>'')) (hc_store_options c)
      in (''HandlerConfig'',
          [(''cluster'', DbgStr (hc_cluster c)), (''no_redact'', DbgBool (hc_no_redact c)),
           (''proc_root'', DbgPath (hc_proc_root c)), (''store_url'', DbgOptStr (hc_store_url c)),
           (''store_options'', DbgPairs store_option_keys), (''crictl_path'', DbgPath (hc_crictl_path c)),
           (''cri_runtime_endpoint'', DbgOptStr (hc_cri_runtime_endpoint c)),
           (''max_core_bytes'', DbgU64 (hc_max_core_bytes c)),
           (''max_cores_per_hour'', DbgU32 (hc_max_cores_per_hour c)),
           (''upload_deadline_secs'', DbgU64 (hc_upload_deadline_secs c)),
           (''crictl_timeout_secs'', DbgU64 (hc_crictl_timeout_secs c)),
           (''rate_state_path'', DbgPath (hc_rate_state_path c)),
           (''event_socket_path'', DbgOptPath (hc_event_socket_path c))]))"

section \<open>Validation and reading\<close>

datatype validate_error = NotAbsolute string | BadUrl | UnknownScheme | UnsupportedScheme

definition must_be_absolute :: "path \<Rightarrow> string \<Rightarrow> validate_error + unit" where
  "must_be_absolute p label = (if is_absolute p then Inr () else Inl (NotAbsolute label))"

definition validate_store_url :: "('u, 'k, 's) store_lib \<Rightarrow> string \<Rightarrow> validate_error + unit" where
  "validate_store_url lib store_url =
     (case sl_url_parse lib store_url of
        None \<Rightarrow> Inl BadUrl
      | Some url \<Rightarrow>
          (case sl_scheme lib url of
             None \<Rightarrow> Inl UnknownScheme
           | Some scheme \<Rightarrow>
               if scheme \<in> {AmazonS3, GoogleCloudStorage, MicrosoftAzure} then Inr ()
               else Inl UnsupportedScheme))"

definition and_then :: "'e + unit \<Rightarrow> 'e + unit \<Rightarrow> 'e + unit" where
  "and_then a b = (case a of Inl e \<Rightarrow> Inl e | Inr _ \<Rightarrow> b)"

definition validate :: "('u, 'k, 's) store_lib \<Rightarrow> handler_config \<Rightarrow> validate_error + unit" where
  "validate lib c =
     and_then (must_be_absolute (hc_crictl_path c) ''crictl_path'')
     (and_then (must_be_absolute (hc_proc_root c) ''proc_root'')
     (and_then (must_be_absolute (hc_rate_state_path c) ''rate_state_path'')
     (and_then (case hc_event_socket_path c of
                  Some p \<Rightarrow> must_be_absolute p ''event_socket_path''
                | None \<Rightarrow> Inr ())
     (case hc_store_url c of
        Some u \<Rightarrow> validate_store_url lib u
      | None \<Rightarrow> Inr ()))))"

record config_codec =
  cc_parse :: "bytes \<Rightarrow> handler_config option"
  cc_print :: "handler_config \<Rightarrow> bytes option"

definition config_read ::
  "('u, 'k, 's) store_lib \<Rightarrow> config_codec \<Rightarrow> io_env \<Rightarrow> fs \<Rightarrow> path \<Rightarrow> handler_config option" where
  "config_read lib codec io s p =
     (case fs_read io s p of
        Inl _ \<Rightarrow> None
      | Inr bs \<Rightarrow>
          (case cc_parse codec bs of
             None \<Rightarrow> None
           | Some cfg \<Rightarrow> (case validate lib cfg of Inl _ \<Rightarrow> None | Inr _ \<Rightarrow> Some cfg)))"

definition config_object_store :: "('u, 'k, 's) store_lib \<Rightarrow> handler_config \<Rightarrow> 's option" where
  "config_object_store lib c =
     (case hc_store_url c of
        None \<Rightarrow> None
      | Some url \<Rightarrow> object_store_from_url_opts lib url (hc_store_options c))"

section \<open>Writing\<close>

definition tmp_path :: "path \<Rightarrow> path" where
  "tmp_path p = p @ ''.tmp''"

definition config_write_tmp :: "io_env \<Rightarrow> bytes \<Rightarrow> path \<Rightarrow> path \<Rightarrow> fs \<Rightarrow> (io_error + unit) \<times> fs" where
  "config_write_tmp io json tmp path s =
     (case open_create_new io s tmp mode_600 of
        (Inl e, s1) \<Rightarrow> (Inl e, s1)
      | (Inr _, s1) \<Rightarrow>
    (case write_all io s1 tmp json of
        (Inl e, s2) \<Rightarrow> (Inl e, s2)
      | (Inr _, s2) \<Rightarrow>
     if io_fails io OpSync tmp then (Inl (Fault OpSync), s2)
     else rename io s2 tmp path))"

definition config_write :: "config_codec \<Rightarrow> io_env \<Rightarrow> handler_config \<Rightarrow> path \<Rightarrow> fs \<Rightarrow> (io_error + unit) \<times> fs" where
  "config_write codec io cfg path s =
     (case (case path_parent path of
              Some parent \<Rightarrow> ensure_private_dir io s parent
            | None \<Rightarrow> (Inr (), s)) of
        (Inl e, s1) \<Rightarrow> (Inl e, s1)
      | (Inr _, s1) \<Rightarrow>
    (case cc_print codec cfg of
        None \<Rightarrow> (Inl InvalidData, s1)
      | Some json \<Rightarrow>
    (let tmp = tmp_path path
     in case remove_file io s1 tmp of
        (Inl e, s2) \<Rightarrow>
          if e \<noteq> NotFound then (Inl e, s2)
          else config_write_tmp io json tmp path s2
      | (Inr _, s2) \<Rightarrow> config_write_tmp io json tmp path s2)))"

section \<open>The replacement, one call at a time\<close>

text \<open>
  The calls of \<open>write\<close> after the directory is there, with a write that may be interrupted
  after every chunk. A handler may read the configuration between any two of them, and the
  daemon may die at any of them.
\<close>

datatype cw_pc = CwStart | CwRemoved | CwWriting bytes | CwSynced | CwDone | CwFailed

inductive cw_step :: "io_env \<Rightarrow> bytes \<Rightarrow> path \<Rightarrow> cw_pc \<times> fs \<Rightarrow> cw_pc \<times> fs \<Rightarrow> bool" for io json path where
  remove: "remove_file io s (tmp_path path) = (r, s') \<Longrightarrow> r = Inr () \<or> r = Inl NotFound \<Longrightarrow>
    cw_step io json path (CwStart, s) (CwRemoved, s')"
| remove_error: "remove_file io s (tmp_path path) = (Inl e, s') \<Longrightarrow> e \<noteq> NotFound \<Longrightarrow>
    cw_step io json path (CwStart, s) (CwFailed, s')"
| create: "open_create_new io s (tmp_path path) mode_600 = (Inr (), s') \<Longrightarrow>
    cw_step io json path (CwRemoved, s) (CwWriting json, s')"
| create_error: "open_create_new io s (tmp_path path) mode_600 = (Inl e, s') \<Longrightarrow>
    cw_step io json path (CwRemoved, s) (CwFailed, s')"
| write_chunk: "cw_step io json path (CwWriting (c @ rest), s)
    (CwWriting rest, set_content s (tmp_path path) (file_content s (tmp_path path) @ c))"
| write_error: "cw_step io json path (CwWriting rest, s) (CwFailed, s)"
| sync: "cw_step io json path (CwWriting [], s) (CwSynced, s)"
| rename: "rename io s (tmp_path path) path = (Inr (), s') \<Longrightarrow>
    cw_step io json path (CwSynced, s) (CwDone, s')"
| rename_error: "rename io s (tmp_path path) path = (Inl e, s') \<Longrightarrow>
    cw_step io json path (CwSynced, s) (CwFailed, s')"

inductive_cases cw_step_cases: "cw_step io json path (pc, s) (pc', s')"

lemma tmp_path_neq [simp]: "tmp_path p \<noteq> p" "p \<noteq> tmp_path p"
  by (simp_all add: tmp_path_def)

text \<open>\<open>write\<close> makes exactly these steps.\<close>

lemma cw_write_steps:
  fixes s1 :: fs and path :: path
  defines "w \<equiv> \<lambda>c. set_content s1 (tmp_path path) (file_content s1 (tmp_path path) @ c)"
  shows "(cw_step io json path)\<^sup>*\<^sup>* (CwWriting json, s1) (CwWriting (drop k json), w (take k json))"
    and "(cw_step io json path)\<^sup>*\<^sup>* (CwWriting json, s1) (CwFailed, w (take k json))"
    and "(cw_step io json path)\<^sup>*\<^sup>* (CwWriting json, s1) (CwSynced, w json)"
proof -
  show chunk: "(cw_step io json path)\<^sup>*\<^sup>* (CwWriting json, s1) (CwWriting (drop k json), w (take k json))" for k
    using cw_step.write_chunk [of io json path "take k json" "drop k json" s1] by (simp add: w_def r_into_rtranclp)
  show "(cw_step io json path)\<^sup>*\<^sup>* (CwWriting json, s1) (CwFailed, w (take k json))"
    using chunk cw_step.write_error by (rule rtranclp.rtrancl_into_rtrancl)
  show "(cw_step io json path)\<^sup>*\<^sup>* (CwWriting json, s1) (CwSynced, w json)"
    using chunk [of "length json"] cw_step.sync [of io json path "w json"] by (auto intro: rtranclp.rtrancl_into_rtrancl)
qed

lemma config_write_tmp_steps:
  assumes "config_write_tmp io json (tmp_path path) path s = (r, s')"
  shows "(cw_step io json path)\<^sup>*\<^sup>* (CwRemoved, s) (if r = Inr () then CwDone else CwFailed, s')"
proof -
  obtain r1 s1 where c: "open_create_new io s (tmp_path path) mode_600 = (r1, s1)" by fastforce
  let ?w = "\<lambda>c. set_content s1 (tmp_path path) (file_content s1 (tmp_path path) @ c)"
  consider (uncreated) e where "r1 = Inl e"
    | (unwritten) "r1 = Inr ()" "io_fails io OpWrite (tmp_path path)" | (unsynced) "r1 = Inr ()" "\<not> io_fails io OpWrite (tmp_path path)"
        "io_fails io OpSync (tmp_path path)"
    | (renaming) "r1 = Inr ()" "rename io (?w json) (tmp_path path) path = (r, s')"
    using assms c by (cases r1) (auto simp: config_write_tmp_def write_all_def split: if_splits)
  then show ?thesis
  proof cases
    case (uncreated e)
    then show ?thesis
      using assms c cw_step.create_error [of io s path e s1 json] by (auto simp: config_write_tmp_def)
  next
    case unwritten
    then have "r \<noteq> Inr ()" "s' = ?w (take (io_partial io (tmp_path path)) json)"
      using assms c by (auto simp: config_write_tmp_def write_all_def)
    moreover have "cw_step io json path (CwRemoved, s) (CwWriting json, s1)" using c unwritten by (intro cw_step.create) simp
    ultimately show ?thesis using cw_write_steps(2) [of io json path s1] by (auto intro: converse_rtranclp_into_rtranclp)
  next
    case unsynced
    then have "r \<noteq> Inr ()" "s' = ?w json" using assms c by (auto simp: config_write_tmp_def write_all_def)
    moreover have "cw_step io json path (CwRemoved, s) (CwWriting json, s1)" using c unsynced by (intro cw_step.create) simp
    ultimately show ?thesis
      using cw_write_steps(2) [of io json path s1 "length json"] by (auto intro: converse_rtranclp_into_rtranclp)
  next
    case renaming
    have "cw_step io json path (CwRemoved, s) (CwWriting json, s1)" using c renaming(1) by (intro cw_step.create) simp
    then have "(cw_step io json path)\<^sup>*\<^sup>* (CwRemoved, s) (CwSynced, ?w json)"
      using cw_write_steps(3) by (rule converse_rtranclp_into_rtranclp)
    moreover have "cw_step io json path (CwSynced, ?w json) (if r = Inr () then CwDone else CwFailed, s')"
      using renaming(2) cw_step.rename_error [of io "?w json" path _ s' json] cw_step.rename [of io "?w json" path s' json]
      by (cases r) auto
    ultimately show ?thesis by (rule rtranclp.rtrancl_into_rtrancl)
  qed
qed

text \<open>
  What holds between any two calls, for a configuration path that is not a symbolic link: the
  path has its old node or the complete new file of mode 0600, the temporary file is what it was,
  gone, or a private file with a prefix of the new configuration, and everything else is untouched.
\<close>

definition cw_inv :: "bytes \<Rightarrow> path \<Rightarrow> fs \<Rightarrow> cw_pc \<times> fs \<Rightarrow> bool" where
  "cw_inv json path s0 = (\<lambda>(pc, s).
     (\<forall>q. q \<noteq> path \<and> q \<noteq> tmp_path path \<longrightarrow> s q = s0 q) \<and>
     (case pc of
        CwWriting rest \<Rightarrow> s path = s0 path \<and> (\<exists>pre. json = pre @ rest \<and> s (tmp_path path) = Some (File pre mode_600))
      | CwSynced \<Rightarrow> s path = s0 path \<and> s (tmp_path path) = Some (File json mode_600)
      | CwDone \<Rightarrow> s path = Some (File json mode_600) \<and> s (tmp_path path) = None
      | CwStart \<Rightarrow> s path = s0 path \<and> s (tmp_path path) = s0 (tmp_path path)
      | CwRemoved \<Rightarrow> s path = s0 path \<and> s (tmp_path path) = None
      | CwFailed \<Rightarrow> s path = s0 path \<and> (s (tmp_path path) = s0 (tmp_path path) \<or> s (tmp_path path) = None \<or>
          (\<exists>pre rest. json = pre @ rest \<and> s (tmp_path path) = Some (File pre mode_600)))))"

lemma cw_inv_step [wf_intros]:
  assumes "cw_step io json path st st'" "cw_inv json path s0 st"
  shows "cw_inv json path s0 st'"
  using assms
proof (cases rule: cw_step.cases)
  case (remove s r s')
  then show ?thesis
    using assms(2) by (auto simp: cw_inv_def remove_file_def split: if_splits option.splits node.splits)
next
  case (remove_error s e s')
  then show ?thesis
    using assms(2) by (auto simp: cw_inv_def remove_file_def split: if_splits option.splits node.splits)
next
  case (create s s')
  then show ?thesis
    using assms(2) by (auto simp: cw_inv_def open_create_new_def split: if_splits)
next
  case (create_error s e s')
  then show ?thesis
    using assms(2) by (auto simp: cw_inv_def open_create_new_def split: if_splits)
next
  case (write_chunk c rest s)
  then obtain pre where "json = pre @ c @ rest" "s (tmp_path path) = Some (File pre mode_600)"
    using assms(2) by (auto simp: cw_inv_def)
  then show ?thesis
    using write_chunk assms(2) by (auto simp: cw_inv_def set_content_def file_content_def)
next
  case (rename s s')
  then show ?thesis
    using assms(2) by (auto simp: cw_inv_def rename_def split: if_splits option.splits node.splits)
next
  case (rename_error s e s')
  then show ?thesis
    using assms(2) by (auto simp: cw_inv_def rename_def split: if_splits option.splits node.splits)
qed (auto simp: cw_inv_def)

lemma cw_inv_reach:
  "(cw_step io json path)\<^sup>*\<^sup>* (CwStart, s0) st \<Longrightarrow> cw_inv json path s0 st"
proof (induction rule: rtranclp_induct)
  case base
  show ?case by (simp add: cw_inv_def)
next
  case (step st st')
  then show ?case using cw_inv_step by blast
qed

lemma config_write_steps:
  assumes "config_write codec io cfg path s = (r, s')"
  obtains s1 where "same_files s s1" "s1 = s \<or> (\<exists>parent. path_parent path = Some parent \<and> s1 = snd (ensure_private_dir io s parent))"
    "r \<noteq> Inr () \<and> s' = s1 \<or> (\<exists>json. cc_print codec cfg = Some json \<and>
      (cw_step io json path)\<^sup>*\<^sup>* (CwStart, s1) (if r = Inr () then CwDone else CwFailed, s'))"
proof -
  let ?d = "case path_parent path of Some parent \<Rightarrow> ensure_private_dir io s parent | None \<Rightarrow> (Inr (), s)"
  let ?s1 = "snd ?d"
  have sf: "same_files s ?s1" using ensure_private_dir_same_files by (auto split: option.splits)
  have s1: "?s1 = s \<or> (\<exists>parent. path_parent path = Some parent \<and> ?s1 = snd (ensure_private_dir io s parent))"
    by (auto split: option.splits)
  show ?thesis
  proof (cases "(\<exists>e. fst ?d = Inl e) \<or> cc_print codec cfg = None")
    case True
    then have "r \<noteq> Inr () \<and> s' = ?s1" using assms by (auto simp: config_write_def split: sum.splits prod.splits)
    with sf s1 that show ?thesis by blast
  next
    case False
    then obtain json where j: "cc_print codec cfg = Some json" "fst ?d = Inr ()"
      by (cases "fst ?d") auto
    obtain r2 s2 where rm: "remove_file io ?s1 (tmp_path path) = (r2, s2)" by fastforce
    have "(cw_step io json path)\<^sup>*\<^sup>* (CwStart, ?s1) (if r = Inr () then CwDone else CwFailed, s')"
    proof (cases "r2 = Inr () \<or> r2 = Inl NotFound")
      case True
      then have "config_write_tmp io json (tmp_path path) path s2 = (r, s')"
        using assms j rm by (auto simp: config_write_def Let_def split: sum.splits prod.splits)
      from config_write_tmp_steps [OF this] cw_step.remove [OF rm True]
      show ?thesis by (rule converse_rtranclp_into_rtranclp [rotated])
    next
      case False
      then obtain e where e: "r2 = Inl e" "e \<noteq> NotFound" by (cases r2) auto
      then have "r = Inl e" "s' = s2"
        using assms j rm by (auto simp: config_write_def Let_def split: sum.splits prod.splits)
      with cw_step.remove_error [of io ?s1 path e s2 json] rm e show ?thesis by auto
    qed
    with j sf s1 that show ?thesis by blast
  qed
qed

lemma and_then_ok: "and_then a b = Inr () \<longleftrightarrow> a = Inr () \<and> b = Inr ()"
  by (auto simp: and_then_def split: sum.splits)

lemma validate_ok:
  "validate lib c = Inr () \<longleftrightarrow>
     is_absolute (hc_crictl_path c) \<and> is_absolute (hc_proc_root c) \<and> is_absolute (hc_rate_state_path c) \<and>
     (case hc_event_socket_path c of None \<Rightarrow> True | Some p \<Rightarrow> is_absolute p) \<and>
     (case hc_store_url c of None \<Rightarrow> True | Some u \<Rightarrow> validate_store_url lib u = Inr ())"
  by (auto simp: validate_def and_then_ok must_be_absolute_def split: option.splits)

lemma config_read_file:
  assumes "s path = Some (File json m)" "\<not> io_fails io OpOpen path" "\<not> io_fails io OpRead path"
  shows "config_read lib codec io s path =
    (case cc_parse codec json of None \<Rightarrow> None | Some cfg \<Rightarrow> (case validate lib cfg of Inl _ \<Rightarrow> None | Inr _ \<Rightarrow> Some cfg))"
  using assms by (simp add: config_read_def fs_read_def node_at_plain)

lemma config_read_same:
  assumes "s path = s0 path" "\<And>t. s0 path \<noteq> Some (Symlink t)"
  shows "config_read lib codec io s path = config_read lib codec io s0 path"
proof -
  have "node_at s path = node_at s0 path" using assms by (simp add: node_at_plain)
  then show ?thesis by (simp add: config_read_def fs_read_def)
qed

text \<open>What a write that returned has done, whichever way it returned.\<close>

lemma config_write_effect:
  assumes "config_write codec io cfg path s = (r, s')"
  obtains s1 where "same_files s s1" "s1 = s \<or> (\<exists>parent. path_parent path = Some parent \<and> s1 = snd (ensure_private_dir io s parent))"
    "\<And>q. q \<noteq> path \<Longrightarrow> q \<noteq> tmp_path path \<Longrightarrow> s' q = s1 q"
    "r = Inr () \<Longrightarrow> \<exists>json. cc_print codec cfg = Some json \<and> s' path = Some (File json mode_600)"
    "r \<noteq> Inr () \<Longrightarrow> s' path = s1 path"
    "r = Inr () \<Longrightarrow> s' (tmp_path path) = None"
    "r \<noteq> Inr () \<Longrightarrow> s' (tmp_path path) = s1 (tmp_path path) \<or> s' (tmp_path path) = None \<or>
      (\<exists>pre rest. cc_print codec cfg = Some (pre @ rest) \<and> s' (tmp_path path) = Some (File pre mode_600))"
proof -
  from assms obtain s1 where s1: "same_files s s1" "s1 = s \<or> (\<exists>parent. path_parent path = Some parent \<and> s1 = snd (ensure_private_dir io s parent))"
    and st: "r \<noteq> Inr () \<and> s' = s1 \<or> (\<exists>json. cc_print codec cfg = Some json \<and>
      (cw_step io json path)\<^sup>*\<^sup>* (CwStart, s1) (if r = Inr () then CwDone else CwFailed, s'))"
    by (rule config_write_steps)
  have "(\<forall>q. q \<noteq> path \<and> q \<noteq> tmp_path path \<longrightarrow> s' q = s1 q) \<and>
      (r = Inr () \<longrightarrow> (\<exists>json. cc_print codec cfg = Some json \<and> s' path = Some (File json mode_600))) \<and> (r \<noteq> Inr () \<longrightarrow> s' path = s1 path) \<and>
      (r = Inr () \<longrightarrow> s' (tmp_path path) = None) \<and>
      (r \<noteq> Inr () \<longrightarrow> s' (tmp_path path) = s1 (tmp_path path) \<or> s' (tmp_path path) = None \<or>
        (\<exists>pre rest. cc_print codec cfg = Some (pre @ rest) \<and> s' (tmp_path path) = Some (File pre mode_600)))"
  proof (cases "r \<noteq> Inr () \<and> s' = s1")
    case False
    with st obtain json where j: "cc_print codec cfg = Some json"
      and steps: "(cw_step io json path)\<^sup>*\<^sup>* (CwStart, s1) (if r = Inr () then CwDone else CwFailed, s')" by blast
    from cw_inv_reach [OF steps] j show ?thesis by (auto simp: cw_inv_def)
  qed simp
  with that s1 show thesis by blast
qed

section \<open>Properties\<close>

text \<open>A library and a codec for the examples.\<close>

definition example_lib :: "(string, string, string) store_lib" where
  "example_lib =
     \<lparr>sl_url_parse = Some, sl_url_string = (\<lambda>u. u), sl_url_path = (\<lambda>u. u),
      sl_scheme = (\<lambda>u. if starts_with ''s3://'' u then Some AmazonS3
        else if starts_with ''file://'' u then Some LocalScheme else None),
      sl_key = (\<lambda>_ k. Some k), sl_build = (\<lambda>_ u _ _. Some u), sl_memory = ''memory'', sl_local = Some\<rparr>"

definition example_codec :: config_codec where
  "example_codec =
     \<lparr>cc_parse = (\<lambda>b. if b = ''{}'' then Some handler_config_default else None),
      cc_print = (\<lambda>c. if c = handler_config_default then Some ''{}'' else None)\<rparr>"

lemma example_codec_inverse: "cc_print example_codec c = Some json \<Longrightarrow> cc_parse example_codec json = Some c"
  by (simp add: example_codec_def split: if_splits)

lemma example_default_valid: "validate example_lib handler_config_default = Inr ()"
  by (simp add: validate_ok handler_config_default_def is_absolute_def DEFAULT_CRICTL_PATH_def DEFAULT_PROC_ROOT_def
      default_rate_state_path_def default_event_socket_path_def)

text \<open>
  C32. The configuration is replaced atomically: a handler that reads it between any two
  system calls of the daemon's write, whatever call fails and even if the daemon dies there, gets what
  it would have got before or the complete new configuration, never a half-written one.
\<close>

theorem config_replace_atomic:
  assumes "(cw_step io json path)\<^sup>*\<^sup>* (CwStart, s0) (pc, s)" "\<forall>t. s0 path \<noteq> Some (Symlink t)"
    and "cc_parse codec json = Some cfg" "validate lib cfg = Inr ()"
    and "\<not> io_fails io' OpOpen path" "\<not> io_fails io' OpRead path"
  shows "config_read lib codec io' s path = config_read lib codec io' s0 path \<or>
    config_read lib codec io' s path = Some cfg \<and> s path = Some (File json mode_600)"
proof -
  have inv: "cw_inv json path s0 (pc, s)" using assms(1) by (rule cw_inv_reach)
  then have "s path = s0 path \<or> s path = Some (File json mode_600)"
    by (auto simp: cw_inv_def split: cw_pc.splits)
  then show ?thesis
    using config_read_same [of s path s0] config_read_file [of s path json mode_600 io' lib codec] assms by auto
qed

text \<open>The calls of a write over an old configuration, as far as the file system goes.\<close>

definition old_files :: fs where
  "old_files = [''/'' \<mapsto> Dir mode_755, ''/c'' \<mapsto> File ''old'' mode_600]"

lemma example_replacement:
  shows "(cw_step no_faults ''{}'' ''/c'')\<^sup>*\<^sup>* (CwStart, old_files) (CwWriting ''}'', old_files(''/c.tmp'' \<mapsto> File ''{'' mode_600))" (is ?half)
    and "(cw_step no_faults ''{}'' ''/c'')\<^sup>*\<^sup>* (CwStart, old_files) (CwDone, old_files(''/c'' \<mapsto> File ''{}'' mode_600))" (is ?all)
proof -
  let ?step = "cw_step no_faults ''{}'' ''/c''" and ?tmp = "\<lambda>c. old_files(''/c.tmp'' \<mapsto> File c mode_600)"
  have tp: "tmp_path ''/c'' = ''/c.tmp''" "path_parent ''/c.tmp'' = Some ''/''" by code_simp+
  have "is_dir old_files ''/''" by (simp add: is_dir_def node_at_plain old_files_def)
  then have "?step (CwStart, old_files) (CwRemoved, old_files)" "?step (CwRemoved, old_files) (CwWriting ''{}'', ?tmp [])"
    by (auto intro!: cw_step.remove [where r = "Inl NotFound"] cw_step.create
        simp: remove_file_def open_create_new_def parent_is_dir_def tp) (simp_all add: old_files_def)
  moreover have "?step (CwWriting ''{}'', ?tmp []) (CwWriting ''}'', ?tmp ''{'')" "?step (CwWriting ''}'', ?tmp ''{'') (CwWriting [], ?tmp ''{}'')"
    using cw_step.write_chunk [of no_faults "''{}''" "''/c''" "''{''" "''}''" "?tmp []"]
      cw_step.write_chunk [of no_faults "''{}''" "''/c''" "''}''" "[]" "?tmp ''{''"]
    by (simp_all add: tp set_content_def file_content_def)
  ultimately have half: "?step\<^sup>*\<^sup>* (CwStart, old_files) (CwWriting ''}'', ?tmp ''{'')" and
    "?step\<^sup>*\<^sup>* (CwStart, old_files) (CwWriting [], ?tmp ''{}'')"
    by (meson rtranclp.rtrancl_refl rtranclp.rtrancl_into_rtrancl)+
  then have synced: "?step\<^sup>*\<^sup>* (CwStart, old_files) (CwSynced, ?tmp ''{}'')" by (auto intro: rtranclp.rtrancl_into_rtrancl cw_step.sync)
  show ?half by (rule half)
  have "rename no_faults (?tmp ''{}'') ''/c.tmp'' ''/c'' = (Inr (), old_files(''/c'' \<mapsto> File ''{}'' mode_600))"
    by (auto simp: rename_def old_files_def fun_upd_def)
  then have "?step (CwSynced, ?tmp ''{}'') (CwDone, old_files(''/c'' \<mapsto> File ''{}'' mode_600))" by (intro cw_step.rename) (simp add: tp)
  with synced show ?all by (rule rtranclp.rtrancl_into_rtrancl)
qed

theorem config_replace_atomic_witness:
  "(cw_step no_faults ''{}'' ''/c'')\<^sup>*\<^sup>* (CwStart, old_files) (CwWriting ''}'', old_files(''/c.tmp'' \<mapsto> File ''{'' mode_600)) \<and>
    config_read example_lib example_codec no_faults (old_files(''/c.tmp'' \<mapsto> File ''{'' mode_600)) ''/c'' =
      config_read example_lib example_codec no_faults old_files ''/c'' \<and>
    (cw_step no_faults ''{}'' ''/c'')\<^sup>*\<^sup>* (CwStart, old_files) (CwDone, old_files(''/c'' \<mapsto> File ''{}'' mode_600)) \<and>
    config_read example_lib example_codec no_faults (old_files(''/c'' \<mapsto> File ''{}'' mode_600)) ''/c'' = Some handler_config_default"
proof -
  note steps = example_replacement
  have old: "old_files ''/c'' = Some (File ''old'' mode_600)" by (simp add: old_files_def)
  then have plain: "\<forall>t. old_files ''/c'' \<noteq> Some (Symlink t)" by simp
  have codec: "cc_parse example_codec ''{}'' = Some handler_config_default" by (simp add: example_codec_def)
  have "config_read example_lib example_codec no_faults old_files ''/c'' = None"
    using config_read_file [of old_files "''/c''" "''old''" mode_600 no_faults example_lib example_codec] by (simp add: old_files_def example_codec_def)
  moreover have "config_read example_lib example_codec no_faults (old_files(''/c'' \<mapsto> File ''{}'' mode_600)) ''/c'' \<noteq> None"
    using config_read_file [of "old_files(''/c'' \<mapsto> File ''{}'' mode_600)" "''/c''" "''{}''" mode_600 no_faults example_lib example_codec]
      codec example_default_valid by simp
  ultimately have "config_read example_lib example_codec no_faults (old_files(''/c'' \<mapsto> File ''{}'' mode_600)) ''/c'' = Some handler_config_default"
    using config_replace_atomic [OF steps(2) plain codec example_default_valid, of no_faults] by auto
  moreover have "config_read example_lib example_codec no_faults (old_files(''/c.tmp'' \<mapsto> File ''{'' mode_600)) ''/c'' =
      config_read example_lib example_codec no_faults old_files ''/c''"
    using config_replace_atomic [OF steps(1) plain codec example_default_valid, of no_faults] old by auto
  ultimately show ?thesis using steps by simp
qed



text \<open>
  C34. The handler trusts only a configuration that is safe to run with as root from any
  directory: what it reads has absolute paths throughout and a store URL, if any, of one of the
  three cloud schemes. (A \<open>file://\<close> or \<open>memory://\<close> URL, which the store builder supports, makes
  the whole configuration be ignored.)
\<close>

theorem config_read_validated:
  assumes "config_read lib codec io s path = Some cfg"
  shows "is_absolute (hc_crictl_path cfg) \<and> is_absolute (hc_proc_root cfg) \<and> is_absolute (hc_rate_state_path cfg) \<and>
    (\<forall>p. hc_event_socket_path cfg = Some p \<longrightarrow> is_absolute p) \<and>
    (\<forall>u. hc_store_url cfg = Some u \<longrightarrow>
      (\<exists>url sc. sl_url_parse lib u = Some url \<and> sl_scheme lib url = Some sc \<and> sc \<in> {AmazonS3, GoogleCloudStorage, MicrosoftAzure} \<and>
        config_object_store lib cfg = sl_build lib sc (sl_url_string lib url) retry_config (known_opts lib sc (hc_store_options cfg))))"
proof -
  from assms have v: "validate lib cfg = Inr ()"
    by (auto simp: config_read_def split: sum.splits option.splits)
  have "\<exists>url sc. sl_url_parse lib u = Some url \<and> sl_scheme lib url = Some sc \<and> sc \<in> {AmazonS3, GoogleCloudStorage, MicrosoftAzure} \<and>
        config_object_store lib cfg = sl_build lib sc (sl_url_string lib url) retry_config (known_opts lib sc (hc_store_options cfg))"
    if "hc_store_url cfg = Some u" for u
    using v that by (auto simp: validate_ok validate_store_url_def config_object_store_def object_store_from_url_opts_def
        split: option.splits if_splits)
  with v show ?thesis by (auto simp: validate_ok split: option.splits)
qed

theorem config_read_validated_witness: "is_absolute (hc_proc_root handler_config_default)"
proof -
  have "config_read example_lib example_codec no_faults [''/c'' \<mapsto> File ''{}'' mode_600] ''/c'' = Some handler_config_default"
    using config_read_file [of "[''/c'' \<mapsto> File ''{}'' mode_600]" "''/c''" "''{}''" mode_600 no_faults example_lib example_codec]
      example_default_valid by (simp add: example_codec_def)
  from config_read_validated [OF this] show ?thesis by simp
qed

text \<open>
  Logging a configuration reveals no credential: two configurations that differ only in
  the values of their store options have the same debug output.
\<close>

theorem config_debug_hides_credentials:
  assumes "map fst opts = map fst opts'"
  shows "handler_config_debug (c\<lparr>hc_store_options := opts\<rparr>) = handler_config_debug (c\<lparr>hc_store_options := opts'\<rparr>)"
proof -
  have "map (\<lambda>(key, _). (key, ''<redacted>'')) opts = map (\<lambda>(key, _). (key, ''<redacted>'')) opts'"
  proof -
    have "map (\<lambda>(key, _). (key, ''<redacted>'')) os = map (\<lambda>key. (key, ''<redacted>'')) (map fst os)" for os :: store_opts
      by auto
    then show ?thesis by (metis assms)
  qed
  then show ?thesis by (simp add: handler_config_debug_def Let_def)
qed

theorem config_debug_hides_credentials_witness:
  "handler_config_debug (handler_config_default\<lparr>hc_store_options := [(''AWS_SECRET_ACCESS_KEY'', ''abc'')]\<rparr>) =
   handler_config_debug (handler_config_default\<lparr>hc_store_options := [(''AWS_SECRET_ACCESS_KEY'', ''xyz'')]\<rparr>)"
  by (rule config_debug_hides_credentials) simp

end
