(* ===== verification/Json.thy ===== *)
theory Json
  imports Prelude "HOL-Library.Monad_Syntax"
begin

text \<open>
  The data model of JSON and the part of \<open>serde\<close>'s derived serialisation the program relies
  on: struct fields by name, optional fields, defaults, unit enum variants. Turning values
  into text and back (\<open>serde_json\<close>) is foreign code and a parameter where it is used.

  A number that is an integer is a \<open>JNum\<close>; any other number is kept as its text.
\<close>

datatype json =
  JNull | JBool bool | JNum int | JFrac string | JStr string | JArr "json list" | JObj "(string \<times> json) list"

section \<open>\<open>serde_json::Value\<close>\<close>

definition json_index :: "json \<Rightarrow> string \<Rightarrow> json" where
  "json_index v k = (case v of JObj ob \<Rightarrow> (case map_of ob k of Some x \<Rightarrow> x | None \<Rightarrow> JNull) | _ \<Rightarrow> JNull)"

definition as_str :: "json \<Rightarrow> string option" where
  "as_str v = (case v of JStr s \<Rightarrow> Some s | _ \<Rightarrow> None)"

definition as_u64 :: "json \<Rightarrow> nat option" where
  "as_u64 v = (case v of JNum n \<Rightarrow> if 0 \<le> n \<and> n < 2 ^ 64 then Some (nat n) else None | _ \<Rightarrow> None)"

section \<open>Encoding\<close>

definition enc_opt :: "('a \<Rightarrow> json) \<Rightarrow> 'a option \<Rightarrow> json" where
  "enc_opt enc v = (case v of None \<Rightarrow> JNull | Some x \<Rightarrow> enc x)"

definition enc_word :: "'n::len word \<Rightarrow> json" where
  "enc_word w = JNum (uint w)"

text \<open>\<open>skip_serializing_if = "Option::is_none"\<close>\<close>

definition skip_none :: "string \<Rightarrow> ('a \<Rightarrow> json) \<Rightarrow> 'a option \<Rightarrow> (string \<times> json) list" where
  "skip_none k enc v = (case v of None \<Rightarrow> [] | Some x \<Rightarrow> [(k, enc x)])"

section \<open>Decoding\<close>

definition dec_str :: "json \<Rightarrow> string option" where "dec_str = as_str"

definition dec_bool :: "json \<Rightarrow> bool option" where
  "dec_bool v = (case v of JBool b \<Rightarrow> Some b | _ \<Rightarrow> None)"

definition dec_int :: "int \<Rightarrow> int \<Rightarrow> json \<Rightarrow> int option" where
  "dec_int lo hi v = (case v of JNum n \<Rightarrow> if lo \<le> n \<and> n \<le> hi then Some n else None | _ \<Rightarrow> None)"

definition dec_word :: "json \<Rightarrow> 'n::len word option" where
  "dec_word v = (case v of JNum n \<Rightarrow> if 0 \<le> n \<and> n < 2 ^ LENGTH('n) then Some (word_of_int n) else None | _ \<Rightarrow> None)"

definition dec_opt :: "(json \<Rightarrow> 'a option) \<Rightarrow> json \<Rightarrow> 'a option option" where
  "dec_opt dec v = (if v = JNull then Some None else map_option Some (dec v))"

text \<open>
  A struct is read from an object, with unknown fields ignored and a repeated field refused, or
  from an array that lists every field in order.
\<close>

definition struct_fields :: "string list \<Rightarrow> json \<Rightarrow> (string \<times> json) list option" where
  "struct_fields names v =
     (case v of
        JObj ob \<Rightarrow> Some ob
      | JArr xs \<Rightarrow> if length xs = length names then Some (zip names xs) else None
      | _ \<Rightarrow> None)"

definition field_with :: "'a option \<Rightarrow> (json \<Rightarrow> 'a option) \<Rightarrow> (string \<times> json) list \<Rightarrow> string \<Rightarrow> 'a option" where
  "field_with missing dec ob k =
     (case filter (\<lambda>(k', _). k' = k) ob of
        [] \<Rightarrow> missing
      | [(_, v)] \<Rightarrow> dec v
      | _ \<Rightarrow> None)"

abbreviation req_field :: "(json \<Rightarrow> 'a option) \<Rightarrow> (string \<times> json) list \<Rightarrow> string \<Rightarrow> 'a option" where
  "req_field \<equiv> field_with None"

abbreviation opt_field :: "(json \<Rightarrow> 'a option) \<Rightarrow> (string \<times> json) list \<Rightarrow> string \<Rightarrow> 'a option option" where
  "opt_field dec \<equiv> field_with (Some None) (dec_opt dec)"

abbreviation default_field :: "'a \<Rightarrow> (json \<Rightarrow> 'a option) \<Rightarrow> (string \<times> json) list \<Rightarrow> string \<Rightarrow> 'a option" where
  "default_field x \<equiv> field_with (Some x)"

section \<open>Every decoder inverts its encoder\<close>

lemma field_with_Nil [simp]: "field_with m dec [] k = m" by (simp add: field_with_def)

lemma field_with_Cons_other [simp]: "k' \<noteq> k \<Longrightarrow> field_with m dec ((k', v) # ob) k = field_with m dec ob k"
  by (simp add: field_with_def)

lemma field_with_absent: "k \<notin> fst ` set ob \<Longrightarrow> field_with m dec ob k = m"
proof -
  assume "k \<notin> fst ` set ob"
  then have "filter (\<lambda>(k', _). k' = k) ob = []" by (force simp: filter_empty_conv)
  then show ?thesis by (simp add: field_with_def)
qed

lemma field_with_Cons_same:
  "k \<notin> fst ` set ob \<Longrightarrow> field_with m dec ((k, v) # ob) k = dec v"
proof -
  assume "k \<notin> fst ` set ob"
  then have "filter (\<lambda>(k', _). k' = k) ob = []" by (force simp: filter_empty_conv)
  then show ?thesis by (simp add: field_with_def)
qed

lemma field_with_skip_other [simp]:
  "k' \<noteq> k \<Longrightarrow> field_with m dec (skip_none k' enc v @ ob) k = field_with m dec ob k"
  by (cases v) (simp_all add: skip_none_def)

lemma skip_none_keys [simp]: "k' \<noteq> k \<Longrightarrow> k' \<notin> fst ` set (skip_none k enc v)"
  by (cases v) (simp_all add: skip_none_def)

text \<open>
  The contract of a serialised type: reading back what was written gives the value, and a value
  is never written as \<open>null\<close>. From it, an optional field round-trips too, whether it is
  written as \<open>null\<close> or left out.
\<close>

locale json_codec =
  fixes enc :: "'a \<Rightarrow> json" and dec :: "json \<Rightarrow> 'a option" and ok :: "'a \<Rightarrow> bool"
  assumes decodes: "ok x \<Longrightarrow> dec (enc x) = Some x"
    and not_null: "enc x \<noteq> JNull"
begin

lemma opt_roundtrip: "(\<And>x. v = Some x \<Longrightarrow> ok x) \<Longrightarrow> dec_opt dec (enc_opt enc v) = Some v"
  using decodes not_null by (cases v) (auto simp: dec_opt_def enc_opt_def)

lemma skipped_roundtrip:
  assumes "k \<notin> fst ` set ob" "\<And>x. v = Some x \<Longrightarrow> ok x"
  shows "opt_field dec (skip_none k enc v @ ob) k = Some v"
  using assms decodes not_null
  by (cases v) (auto simp: skip_none_def field_with_absent field_with_Cons_same dec_opt_def)

end

interpretation str: json_codec JStr dec_str "\<lambda>_. True"
  by unfold_locales (simp_all add: dec_str_def as_str_def)

interpretation boolean: json_codec JBool dec_bool "\<lambda>_. True"
  by unfold_locales (simp_all add: dec_bool_def)

interpretation word: json_codec enc_word dec_word "\<lambda>_. True"
  by unfold_locales (simp_all add: dec_word_def enc_word_def)

interpretation bounded: json_codec JNum "dec_int lo hi" "\<lambda>n. lo \<le> n \<and> n \<le> hi" for lo hi
  by unfold_locales (simp_all add: dec_int_def)

lemmas codec_simps =
  str.decodes [OF TrueI] boolean.decodes [OF TrueI] word.decodes [OF TrueI] bounded.decodes
  str.opt_roundtrip [OF TrueI] word.opt_roundtrip [OF TrueI]

end
