(* ===== verification/Manifest.thy ===== *)
theory Manifest
  imports Json
begin

text \<open>
  \<open>src/manifest.rs\<close>: the JSON sidecar written next to each core, with the serialisation its
  \<open>derive\<close> attributes ask for.
\<close>

section \<open>Data\<close>

record manifest_identity =
  mi_pod_uid :: string
  mi_container_id :: string
  mi_namespace :: "string option"
  mi_pod_name :: "string option"
  mi_container_name :: "string option"
  mi_image :: "string option"
  mi_image_digest :: "string option"
  mi_restart_count :: "u32 option"

record core_ref =
  cr_present :: bool
  cr_object_key :: "string option"
  cr_sha256 :: "string option"
  cr_size_bytes :: "u64 option"
  cr_stored_bytes :: "u64 option"
  cr_truncated :: bool
  cr_truncated_reason :: "string option"
  cr_skipped_reason :: "string option"
  cr_codec :: string

record proc_snapshot_ref =
  ps_object_key :: string
  ps_truncated :: bool
  ps_file_count :: usize

record manifest =
  mf_schema_version :: u32
  mf_captured_at :: string
  mf_cluster :: string
  mf_node :: string
  mf_signal :: int
  mf_signal_name :: "string option"
  mf_exe :: string
  mf_build_id :: "string option"
  mf_identity :: manifest_identity
  mf_core :: core_ref
  mf_proc_snapshot :: "proc_snapshot_ref option"

section \<open>Serialisation\<close>

definition identity_to_json :: "manifest_identity \<Rightarrow> json" where
  "identity_to_json i = JObj
     [(''pod_uid'', JStr (mi_pod_uid i)), (''container_id'', JStr (mi_container_id i)),
      (''namespace'', enc_opt JStr (mi_namespace i)), (''pod_name'', enc_opt JStr (mi_pod_name i)),
      (''container_name'', enc_opt JStr (mi_container_name i)), (''image'', enc_opt JStr (mi_image i)),
      (''image_digest'', enc_opt JStr (mi_image_digest i)),
      (''restart_count'', enc_opt enc_word (mi_restart_count i))]"

definition core_ref_to_json :: "core_ref \<Rightarrow> json" where
  "core_ref_to_json c = JObj
     ((''present'', JBool (cr_present c)) # (''object_key'', enc_opt JStr (cr_object_key c)) #
      (''sha256'', enc_opt JStr (cr_sha256 c)) # (''size_bytes'', enc_opt enc_word (cr_size_bytes c)) #
      (''stored_bytes'', enc_opt enc_word (cr_stored_bytes c)) # (''truncated'', JBool (cr_truncated c)) #
      skip_none ''truncated_reason'' JStr (cr_truncated_reason c) @
      skip_none ''skipped_reason'' JStr (cr_skipped_reason c) @ [(''codec'', JStr (cr_codec c))])"

definition proc_ref_to_json :: "proc_snapshot_ref \<Rightarrow> json" where
  "proc_ref_to_json r = JObj
     [(''object_key'', JStr (ps_object_key r)), (''truncated'', JBool (ps_truncated r)),
      (''file_count'', enc_word (ps_file_count r))]"

definition manifest_to_json :: "manifest \<Rightarrow> json" where
  "manifest_to_json m = JObj
     [(''schema_version'', enc_word (mf_schema_version m)), (''captured_at'', JStr (mf_captured_at m)),
      (''cluster'', JStr (mf_cluster m)), (''node'', JStr (mf_node m)), (''signal'', JNum (mf_signal m)),
      (''signal_name'', enc_opt JStr (mf_signal_name m)), (''exe'', JStr (mf_exe m)),
      (''build_id'', enc_opt JStr (mf_build_id m)), (''identity'', identity_to_json (mf_identity m)),
      (''core'', core_ref_to_json (mf_core m)),
      (''proc_snapshot'', enc_opt proc_ref_to_json (mf_proc_snapshot m))]"

section \<open>Deserialisation\<close>

definition identity_of_json :: "json \<Rightarrow> manifest_identity option" where
  "identity_of_json v = do {
     ob \<leftarrow> struct_fields [''pod_uid'', ''container_id'', ''namespace'', ''pod_name'', ''container_name'',
       ''image'', ''image_digest'', ''restart_count''] v;
     pod_uid \<leftarrow> req_field dec_str ob ''pod_uid'';
     container_id \<leftarrow> req_field dec_str ob ''container_id'';
     namespace \<leftarrow> opt_field dec_str ob ''namespace'';
     pod_name \<leftarrow> opt_field dec_str ob ''pod_name'';
     container_name \<leftarrow> opt_field dec_str ob ''container_name'';
     image \<leftarrow> opt_field dec_str ob ''image'';
     image_digest \<leftarrow> opt_field dec_str ob ''image_digest'';
     restart_count \<leftarrow> opt_field dec_word ob ''restart_count'';
     Some \<lparr>mi_pod_uid = pod_uid, mi_container_id = container_id, mi_namespace = namespace,
       mi_pod_name = pod_name, mi_container_name = container_name, mi_image = image,
       mi_image_digest = image_digest, mi_restart_count = restart_count\<rparr> }"

definition core_ref_of_json :: "json \<Rightarrow> core_ref option" where
  "core_ref_of_json v = do {
     ob \<leftarrow> struct_fields [''present'', ''object_key'', ''sha256'', ''size_bytes'', ''stored_bytes'', ''truncated'',
       ''truncated_reason'', ''skipped_reason'', ''codec''] v;
     present \<leftarrow> req_field dec_bool ob ''present'';
     object_key \<leftarrow> opt_field dec_str ob ''object_key'';
     sha256 \<leftarrow> opt_field dec_str ob ''sha256'';
     size_bytes \<leftarrow> opt_field dec_word ob ''size_bytes'';
     stored_bytes \<leftarrow> opt_field dec_word ob ''stored_bytes'';
     truncated \<leftarrow> req_field dec_bool ob ''truncated'';
     truncated_reason \<leftarrow> opt_field dec_str ob ''truncated_reason'';
     skipped_reason \<leftarrow> opt_field dec_str ob ''skipped_reason'';
     codec \<leftarrow> req_field dec_str ob ''codec'';
     Some \<lparr>cr_present = present, cr_object_key = object_key, cr_sha256 = sha256, cr_size_bytes = size_bytes,
       cr_stored_bytes = stored_bytes, cr_truncated = truncated, cr_truncated_reason = truncated_reason,
       cr_skipped_reason = skipped_reason, cr_codec = codec\<rparr> }"

definition proc_ref_of_json :: "json \<Rightarrow> proc_snapshot_ref option" where
  "proc_ref_of_json v = do {
     ob \<leftarrow> struct_fields [''object_key'', ''truncated'', ''file_count''] v;
     object_key \<leftarrow> req_field dec_str ob ''object_key'';
     truncated \<leftarrow> req_field dec_bool ob ''truncated'';
     file_count \<leftarrow> req_field dec_word ob ''file_count'';
     Some \<lparr>ps_object_key = object_key, ps_truncated = truncated, ps_file_count = file_count\<rparr> }"

definition manifest_of_json :: "json \<Rightarrow> manifest option" where
  "manifest_of_json v = do {
     ob \<leftarrow> struct_fields [''schema_version'', ''captured_at'', ''cluster'', ''node'', ''signal'', ''signal_name'', ''exe'',
       ''build_id'', ''identity'', ''core'', ''proc_snapshot''] v;
     schema_version \<leftarrow> req_field dec_word ob ''schema_version'';
     captured_at \<leftarrow> req_field dec_str ob ''captured_at'';
     cluster \<leftarrow> req_field dec_str ob ''cluster'';
     node \<leftarrow> req_field dec_str ob ''node'';
     signal \<leftarrow> req_field (dec_int i32_min i32_max) ob ''signal'';
     signal_name \<leftarrow> opt_field dec_str ob ''signal_name'';
     exe \<leftarrow> req_field dec_str ob ''exe'';
     build_id \<leftarrow> opt_field dec_str ob ''build_id'';
     identity \<leftarrow> req_field identity_of_json ob ''identity'';
     core \<leftarrow> req_field core_ref_of_json ob ''core'';
     proc_snapshot \<leftarrow> opt_field proc_ref_of_json ob ''proc_snapshot'';
     Some \<lparr>mf_schema_version = schema_version, mf_captured_at = captured_at, mf_cluster = cluster, mf_node = node,
       mf_signal = signal, mf_signal_name = signal_name, mf_exe = exe, mf_build_id = build_id,
       mf_identity = identity, mf_core = core, mf_proc_snapshot = proc_snapshot\<rparr> }"

section \<open>Round trips\<close>

interpretation identity: json_codec identity_to_json identity_of_json "\<lambda>_. True"
  by unfold_locales
    (simp_all add: identity_to_json_def identity_of_json_def struct_fields_def field_with_Cons_same codec_simps)

interpretation proc_ref: json_codec proc_ref_to_json proc_ref_of_json "\<lambda>_. True"
  by unfold_locales
    (simp_all add: proc_ref_to_json_def proc_ref_of_json_def struct_fields_def field_with_Cons_same codec_simps)

interpretation core_ref: json_codec core_ref_to_json core_ref_of_json "\<lambda>_. True"
  by unfold_locales
    (simp_all add: core_ref_to_json_def core_ref_of_json_def struct_fields_def field_with_Cons_same codec_simps
      str.skipped_roundtrip image_Un)

interpretation manifest_json: json_codec manifest_to_json manifest_of_json "\<lambda>m. i32_min \<le> mf_signal m \<and> mf_signal m \<le> i32_max"
  by unfold_locales
    (simp_all add: manifest_to_json_def manifest_of_json_def struct_fields_def field_with_Cons_same codec_simps
      identity.decodes core_ref.decodes proc_ref.opt_roundtrip)

section \<open>Properties\<close>

text \<open>
  A manifest that is written can be read back: deserialising the serialised form of any
  manifest gives that manifest, with the reasons that are left out when there are none. The
  signal is an \<open>i32\<close>.
\<close>

theorem manifest_roundtrip:
  assumes "i32_min \<le> mf_signal m" "mf_signal m \<le> i32_max"
  shows "manifest_of_json (manifest_to_json m) = Some m"
  using assms by (intro manifest_json.decodes conjI)

theorem manifest_roundtrip_witness:
  "manifest_of_json (manifest_to_json
     \<lparr>mf_schema_version = 1, mf_captured_at = ''t'', mf_cluster = ''c'', mf_node = ''n'', mf_signal = 11, mf_signal_name = Some ''SIGSEGV'',
      mf_exe = ''e'', mf_build_id = None,
      mf_identity = \<lparr>mi_pod_uid = ''u'', mi_container_id = ''i'', mi_namespace = None, mi_pod_name = None, mi_container_name = None,
        mi_image = None, mi_image_digest = None, mi_restart_count = Some 3\<rparr>,
      mf_core = \<lparr>cr_present = False, cr_object_key = None, cr_sha256 = None, cr_size_bytes = None, cr_stored_bytes = None,
        cr_truncated = False, cr_truncated_reason = None, cr_skipped_reason = Some ''rate_limit'', cr_codec = ''zstd''\<rparr>,
      mf_proc_snapshot = Some \<lparr>ps_object_key = ''k'', ps_truncated = True, ps_file_count = 9\<rparr>\<rparr>) \<noteq> None"
  by (subst manifest_roundtrip) (simp_all add: i32_min_def i32_max_def)

end
