(* ===== verification/Events.thy ===== *)
theory Events
  imports Json Rust_Str
begin

text \<open>
  \<open>src/events.rs\<close>: what the handler reports to the daemon, its wire form, and the
  fire-and-forget sender. The sockets are a parameter that says which call fails.
\<close>

section \<open>\<open>Outcome\<close>\<close>

datatype outcome = Uploaded | SuppressedRateLimit | SkippedNonK8s | NoStoreDiscard | Failed

fun outcome_as_str :: "outcome \<Rightarrow> string" where
  "outcome_as_str Uploaded = ''uploaded''"
| "outcome_as_str SuppressedRateLimit = ''suppressed-rate-limit''"
| "outcome_as_str SkippedNonK8s = ''skipped-non-k8s''"
| "outcome_as_str NoStoreDiscard = ''no-store-discard''"
| "outcome_as_str Failed = ''failed''"

text \<open>
  The wire name is derived: \<open>rename_all = "kebab-case"\<close> puts a dash before every upper-case
  letter of the variant's name but the first, and lowers them all.
\<close>

fun variant_name :: "outcome \<Rightarrow> string" where
  "variant_name Uploaded = ''Uploaded''"
| "variant_name SuppressedRateLimit = ''SuppressedRateLimit''"
| "variant_name SkippedNonK8s = ''SkippedNonK8s''"
| "variant_name NoStoreDiscard = ''NoStoreDiscard''"
| "variant_name Failed = ''Failed''"

fun kebab_tail :: "string \<Rightarrow> string" where
  "kebab_tail [] = []"
| "kebab_tail (c # cs) = (if is_ascii_uppercase c then CHR ''-'' # ascii_lower c # kebab_tail cs else c # kebab_tail cs)"

fun kebab_case :: "string \<Rightarrow> string" where
  "kebab_case [] = []"
| "kebab_case (c # cs) = ascii_lower c # kebab_tail cs"

definition all_outcomes :: "outcome list" where
  "all_outcomes = [Uploaded, SuppressedRateLimit, SkippedNonK8s, NoStoreDiscard, Failed]"

definition outcome_to_json :: "outcome \<Rightarrow> json" where
  "outcome_to_json oc = JStr (kebab_case (variant_name oc))"

definition outcome_of_name :: "string \<Rightarrow> outcome option" where
  "outcome_of_name s = find (\<lambda>oc. kebab_case (variant_name oc) = s) all_outcomes"

text \<open>A unit variant is read from its name, or from an object that maps its name to \<open>null\<close>.\<close>

definition outcome_of_json :: "json \<Rightarrow> outcome option" where
  "outcome_of_json v =
     (case v of JStr s \<Rightarrow> outcome_of_name s | JObj [(s, JNull)] \<Rightarrow> outcome_of_name s | _ \<Rightarrow> None)"

section \<open>\<open>CaptureEventPayload\<close>\<close>

record capture_event =
  ce_namespace :: "string option"
  ce_pod_name :: "string option"
  ce_pod_uid :: "string option"
  ce_container_id :: "string option"
  ce_container_name :: "string option"
  ce_host_pid :: int
  ce_exe :: string
  ce_signal :: int
  ce_signal_name :: "string option"
  ce_outcome :: outcome
  ce_manifest_key :: "string option"
  ce_core_bytes :: u64
  ce_stored_bytes :: "u64 option"
  ce_truncated :: bool
  ce_error :: "string option"
  ce_timestamp :: int

definition payload_fields :: "string list" where
  "payload_fields = [''namespace'', ''pod_name'', ''pod_uid'', ''container_id'', ''container_name'', ''host_pid'', ''exe'',
     ''signal'', ''signal_name'', ''outcome'', ''manifest_key'', ''core_bytes'', ''stored_bytes'', ''truncated'',
     ''error'', ''timestamp'']"

definition payload_to_json :: "capture_event \<Rightarrow> json" where
  "payload_to_json p = JObj
     [(''namespace'', enc_opt JStr (ce_namespace p)), (''pod_name'', enc_opt JStr (ce_pod_name p)),
      (''pod_uid'', enc_opt JStr (ce_pod_uid p)), (''container_id'', enc_opt JStr (ce_container_id p)),
      (''container_name'', enc_opt JStr (ce_container_name p)), (''host_pid'', JNum (ce_host_pid p)),
      (''exe'', JStr (ce_exe p)), (''signal'', JNum (ce_signal p)), (''signal_name'', enc_opt JStr (ce_signal_name p)),
      (''outcome'', outcome_to_json (ce_outcome p)), (''manifest_key'', enc_opt JStr (ce_manifest_key p)),
      (''core_bytes'', enc_word (ce_core_bytes p)), (''stored_bytes'', enc_opt enc_word (ce_stored_bytes p)),
      (''truncated'', JBool (ce_truncated p)), (''error'', enc_opt JStr (ce_error p)),
      (''timestamp'', JNum (ce_timestamp p))]"

definition payload_of_json :: "json \<Rightarrow> capture_event option" where
  "payload_of_json v = do {
     ob \<leftarrow> struct_fields payload_fields v;
     namespace \<leftarrow> opt_field dec_str ob ''namespace'';
     pod_name \<leftarrow> opt_field dec_str ob ''pod_name'';
     pod_uid \<leftarrow> opt_field dec_str ob ''pod_uid'';
     container_id \<leftarrow> opt_field dec_str ob ''container_id'';
     container_name \<leftarrow> opt_field dec_str ob ''container_name'';
     host_pid \<leftarrow> default_field 0 (dec_int i32_min i32_max) ob ''host_pid'';
     exe \<leftarrow> default_field [] dec_str ob ''exe'';
     signal \<leftarrow> req_field (dec_int i32_min i32_max) ob ''signal'';
     signal_name \<leftarrow> opt_field dec_str ob ''signal_name'';
     outc \<leftarrow> req_field outcome_of_json ob ''outcome'';
     manifest_key \<leftarrow> opt_field dec_str ob ''manifest_key'';
     core_bytes \<leftarrow> default_field 0 dec_word ob ''core_bytes'';
     stored_bytes \<leftarrow> opt_field dec_word ob ''stored_bytes'';
     truncated \<leftarrow> default_field False dec_bool ob ''truncated'';
     err \<leftarrow> opt_field dec_str ob ''error'';
     timestamp \<leftarrow> req_field (dec_int i64_min i64_max) ob ''timestamp'';
     Some \<lparr>ce_namespace = namespace, ce_pod_name = pod_name, ce_pod_uid = pod_uid, ce_container_id = container_id,
       ce_container_name = container_name, ce_host_pid = host_pid, ce_exe = exe, ce_signal = signal,
       ce_signal_name = signal_name, ce_outcome = outc, ce_manifest_key = manifest_key, ce_core_bytes = core_bytes,
       ce_stored_bytes = stored_bytes, ce_truncated = truncated, ce_error = err, ce_timestamp = timestamp\<rparr> }"

text \<open>The integer fields are in the range of their types.\<close>

definition payload_ok :: "capture_event \<Rightarrow> bool" where
  "payload_ok p \<longleftrightarrow> i32_min \<le> ce_host_pid p \<and> ce_host_pid p \<le> i32_max \<and> i32_min \<le> ce_signal p \<and> ce_signal p \<le> i32_max \<and>
     i64_min \<le> ce_timestamp p \<and> ce_timestamp p \<le> i64_max"

section \<open>The sender\<close>

text \<open>What the socket calls of one send do; \<open>dg_delivers\<close> is whether a datagram reaches the path.\<close>

record dgram_env =
  dg_unbound_ok :: bool
  dg_nonblocking_ok :: bool
  dg_delivers :: "path \<Rightarrow> bytes \<Rightarrow> bool"

definition send_capture_event ::
  "(capture_event \<Rightarrow> bytes option) \<Rightarrow> dgram_env \<Rightarrow> path option \<Rightarrow> capture_event \<Rightarrow> (path \<times> bytes) list" where
  "send_capture_event print net socket_path payload =
     (case socket_path of
        None \<Rightarrow> []
      | Some p \<Rightarrow>
          (case print payload of
             None \<Rightarrow> []
           | Some b \<Rightarrow>
               if \<not> dg_unbound_ok net then []
               else if \<not> dg_nonblocking_ok net then []
               else if dg_delivers net p b then [(p, b)] else []))"

section \<open>Lemmas\<close>

lemma kebab_is_as_str: "kebab_case (variant_name oc) = outcome_as_str oc"
proof -
  have "list_all (\<lambda>oc. kebab_case (variant_name oc) = outcome_as_str oc) all_outcomes" by code_simp
  then show ?thesis by (cases oc) (simp_all add: all_outcomes_def del: kebab_case.simps variant_name.simps)
qed

lemma outcome_of_as_str: "outcome_of_name (outcome_as_str oc) = Some oc"
  by (cases oc) (simp_all add: outcome_of_name_def all_outcomes_def kebab_is_as_str del: kebab_case.simps)

interpretation outcome: json_codec outcome_to_json outcome_of_json "\<lambda>_. True"
  by unfold_locales (simp_all add: outcome_to_json_def outcome_of_json_def kebab_is_as_str outcome_of_as_str)

interpretation payload: json_codec payload_to_json payload_of_json payload_ok
  by unfold_locales
    (simp_all add: payload_to_json_def payload_of_json_def payload_ok_def struct_fields_def field_with_Cons_same
      codec_simps outcome.decodes)

end
