(* ===== verification/Crictl.thy ===== *)
theory Crictl
  imports Json Config
begin

text \<open>
  \<open>src/crictl.rs\<close>: the enrichment of a capture's identity by \<open>crictl inspect\<close>. The process
  that is run is a parameter: after some milliseconds it fails or exits with a status and its
  output, or it hangs. The JSON parser is a parameter.
\<close>

section \<open>Running the command\<close>

datatype run_error = CmdIo | CmdTimeout

record cmd_output =
  co_success :: bool
  co_stdout :: bytes

datatype cmd_run = CmdFails nat | CmdExits nat cmd_output | CmdHangs

text \<open>A command line: program, arguments, and the environment it adds.\<close>

record command =
  cmd_program :: path
  cmd_args :: "string list"
  cmd_env :: "(string \<times> string) list"
  cmd_kill_on_drop :: bool

text \<open>\<open>None\<close> is a call that never returns; the timeout is in milliseconds.\<close>

definition run_command :: "(command \<Rightarrow> cmd_run) \<Rightarrow> command \<Rightarrow> nat option \<Rightarrow> (run_error + cmd_output) option" where
  "run_command sys cmd timeout_dur =
     (let expired = (\<lambda>t. case timeout_dur of None \<Rightarrow> False | Some d \<Rightarrow> d < t)
      in case sys cmd of
           CmdHangs \<Rightarrow> (case timeout_dur of None \<Rightarrow> None | Some _ \<Rightarrow> Some (Inl CmdTimeout))
         | CmdFails t \<Rightarrow> Some (Inl (if expired t then CmdTimeout else CmdIo))
         | CmdExits t out \<Rightarrow> Some (if expired t then Inl CmdTimeout else Inr out))"

definition unix_socket_path :: "string \<Rightarrow> string option" where
  "unix_socket_path endpoint = opt_filter (\<lambda>p. p \<noteq> []) (strip_prefix ''unix://'' endpoint)"

section \<open>Reading its output\<close>

record container_info =
  ci_namespace :: "string option"
  ci_pod_name :: "string option"
  ci_container_name :: "string option"
  ci_image :: "string option"
  ci_image_digest :: "string option"
  ci_restart_count :: "u32 option"

definition container_info_default :: container_info where
  "container_info_default =
     \<lparr>ci_namespace = None, ci_pod_name = None, ci_container_name = None, ci_image = None,
      ci_image_digest = None, ci_restart_count = None\<rparr>"

definition str_field :: "json \<Rightarrow> string \<Rightarrow> string option" where
  "str_field obj key = opt_filter (\<lambda>s. s \<noteq> []) (as_str (json_index obj key))"

definition u32_try_from :: "nat \<Rightarrow> u32 option" where
  "u32_try_from n = (if n < 2 ^ 32 then Some (of_nat n) else None)"

definition extract_info :: "json \<Rightarrow> container_info" where
  "extract_info v =
     (let status = json_index v ''status'';
          labels = json_index status ''labels'';
          metadata = json_index status ''metadata''
      in \<lparr>ci_namespace = str_field labels ''io.kubernetes.pod.namespace'',
          ci_pod_name = str_field labels ''io.kubernetes.pod.name'',
          ci_container_name = str_field labels ''io.kubernetes.container.name'',
          ci_image = as_str (json_index (json_index status ''image'') ''image''),
          ci_image_digest =
            Option.bind (as_str (json_index status ''imageRef'')) (\<lambda>r. map_option snd (split_once (CHR ''@'') r)),
          ci_restart_count = Option.bind (as_u64 (json_index metadata ''attempt'')) u32_try_from\<rparr>)"

definition inspect_command :: "string \<Rightarrow> handler_config \<Rightarrow> command" where
  "inspect_command container_id config =
     \<lparr>cmd_program = hc_crictl_path config, cmd_args = [''inspect'', container_id],
      cmd_env = (case hc_cri_runtime_endpoint config of
                   None \<Rightarrow> [] | Some endpoint \<Rightarrow> [(''CONTAINER_RUNTIME_ENDPOINT'', endpoint)]),
      cmd_kill_on_drop = True\<rparr>"

definition crictl_timeout :: "handler_config \<Rightarrow> nat option" where
  "crictl_timeout config =
     (if hc_crictl_timeout_secs config = 0 then None else Some (1000 * unat (hc_crictl_timeout_secs config)))"

definition inspect ::
  "(command \<Rightarrow> cmd_run) \<Rightarrow> (bytes \<Rightarrow> json option) \<Rightarrow> string \<Rightarrow> handler_config \<Rightarrow> container_info option option" where
  "inspect sys json_parse container_id config =
     (case run_command sys (inspect_command container_id config) (crictl_timeout config) of
        None \<Rightarrow> None
      | Some (Inl CmdIo) \<Rightarrow> Some None
      | Some (Inl CmdTimeout) \<Rightarrow> Some None
      | Some (Inr output) \<Rightarrow>
          if \<not> co_success output then Some None
          else (case json_parse (co_stdout output) of
                  None \<Rightarrow> Some None
                | Some v \<Rightarrow> Some (Some (extract_info v))))"

section \<open>Lemmas\<close>

lemma json_index_non_object [simp]: "json_index JNull k = JNull" by (simp add: json_index_def)

lemma inspect_returns: "hc_crictl_timeout_secs config \<noteq> 0 \<Longrightarrow> \<exists>r. inspect sys parse cid config = Some r"
  by (auto simp: inspect_def run_command_def crictl_timeout_def Let_def
      split: cmd_run.split option.split sum.split run_error.split if_splits)

lemma str_field_Some: "str_field obj key = Some s \<longleftrightarrow> s \<noteq> [] \<and> json_index obj key = JStr s"
  by (auto simp: str_field_def opt_filter_def as_str_def split: option.splits json.splits)

text \<open>An enriched identity is what the command printed, and only when it exited with success in time.\<close>

lemma inspect_Some:
  assumes "inspect sys parse cid config = Some (Some info)"
  obtains t out v where "sys (inspect_command cid config) = CmdExits t out" "co_success out" "parse (co_stdout out) = Some v"
    "info = extract_info v" "\<And>d. crictl_timeout config = Some d \<Longrightarrow> t \<le> d"
  using assms
  by (auto simp: inspect_def run_command_def Let_def split: cmd_run.splits option.splits sum.splits run_error.splits if_splits)

lemma extract_info_null: "extract_info JNull = container_info_default"
  by (simp add: extract_info_def container_info_default_def str_field_def as_str_def as_u64_def opt_filter_def Let_def)

end
