(* ===== verification/Snapshot.thy ===== *)
theory Snapshot
  imports Redact Build_Id Filesystem Rust_Num "HOL-Library.Multiset"
begin

text \<open>
  \<open>src/snapshot.rs\<close>: the snapshot of \<open>/proc/<pid>\<close> that the handler takes while the kernel
  still holds the process. \<open>/proc\<close> is a file system in the sense of \<open>Filesystem\<close>; the order
  in which a directory lists its entries, and which entries cannot be read, is a parameter
  (\<open>ls\<close>), and so is the \<open>tar\<close> crate.
\<close>

section \<open>Constants and data\<close>

definition MAX_FILE_BYTES :: nat where "MAX_FILE_BYTES = 8 * 1024 * 1024"
definition MAX_FD_ENTRIES :: nat where "MAX_FD_ENTRIES = 10000"

definition SIMPLE_FILES :: "string list" where
  "SIMPLE_FILES = [''maps'', ''smaps'', ''status'', ''limits'', ''stack'']"

record snapshot_file =
  sf_name :: string
  sf_bytes :: bytes
  sf_truncated :: bool

record proc_snapshot =
  sn_host_pid :: int
  sn_build_id :: "string option"
  sn_files :: "snapshot_file list"

section \<open>Reading\<close>

definition read_capped :: "io_env \<Rightarrow> fs \<Rightarrow> path \<Rightarrow> (bytes \<times> bool) option" where
  "read_capped io s p =
     (case fs_read io s p of
        Inl _ \<Rightarrow> None
      | Inr c \<Rightarrow>
          (let buf = take (MAX_FILE_BYTES + 1) c;
               truncated = MAX_FILE_BYTES < length buf
           in Some (if truncated then take MAX_FILE_BYTES buf else buf, truncated)))"

definition read_link :: "io_env \<Rightarrow> fs \<Rightarrow> path \<Rightarrow> path option" where
  "read_link io s p =
     (if io_fails io OpReadLink p then None
      else (case s p of Some (Symlink t) \<Rightarrow> Some t | _ \<Rightarrow> None))"

text \<open>A directory that can be listed gives its entries in some order; one may fail to be read.\<close>

type_synonym dir_lister = "path \<Rightarrow> string option list option"

definition fd_number :: "string \<Rightarrow> nat" where
  "fd_number name = unwrap_or (parse_unsigned (2 ^ 64 - 1) name) (2 ^ 64 - 1)"

definition fd_line :: "io_env \<Rightarrow> fs \<Rightarrow> path \<Rightarrow> string \<Rightarrow> string" where
  "fd_line io s fd_dir file_name =
     utf8_lossy file_name @ '' -> '' @
     (case read_link io s (path_join fd_dir file_name) of
        None \<Rightarrow> ''<unreadable>''
      | Some t \<Rightarrow> utf8_lossy t)"

fun fd_loop :: "io_env \<Rightarrow> fs \<Rightarrow> path \<Rightarrow> (nat \<times> string) list \<Rightarrow> nat \<Rightarrow> string option list \<Rightarrow> (nat \<times> string) list \<times> nat" where
  "fd_loop io s fd_dir entries tot [] = (entries, tot)"
| "fd_loop io s fd_dir entries tot (None # ds) = fd_loop io s fd_dir entries tot ds"
| "fd_loop io s fd_dir entries tot (Some n # ds) =
     (if MAX_FD_ENTRIES \<le> length entries then fd_loop io s fd_dir entries (tot + 1) ds
      else fd_loop io s fd_dir (entries @ [(fd_number (utf8_lossy n), fd_line io s fd_dir n)]) (tot + 1) ds)"

definition read_fd_listing :: "io_env \<Rightarrow> dir_lister \<Rightarrow> fs \<Rightarrow> path \<Rightarrow> (string \<times> bool) option" where
  "read_fd_listing io ls s fd_dir =
     (case ls fd_dir of
        None \<Rightarrow> None
      | Some dirents \<Rightarrow>
          (let (entries, tot) = fd_loop io s fd_dir [] 0 dirents;
               lines = map snd (sort_key fst entries);
               truncated = length lines < tot
           in Some (str_join [newline]
                (lines @ (if truncated
                   then [''... showing '' @ show_nat (length lines) @ '' of '' @ show_nat tot @ '' fds''] else [])),
                truncated)))"

section \<open>\<open>ProcSnapshot::capture\<close>\<close>

definition snapshot_entry :: "string \<Rightarrow> (bytes \<Rightarrow> bytes) \<Rightarrow> (bytes \<times> bool) option \<Rightarrow> snapshot_file list" where
  "snapshot_entry name f r =
     (case r of
        None \<Rightarrow> []
      | Some (raw, truncated) \<Rightarrow> [\<lparr>sf_name = name, sf_bytes = f raw, sf_truncated = truncated\<rparr>])"

definition proc_base :: "path \<Rightarrow> int \<Rightarrow> path" where
  "proc_base proc_root pid = path_join proc_root (show_int pid)"

definition capture_files :: "io_env \<Rightarrow> dir_lister \<Rightarrow> fs \<Rightarrow> path \<Rightarrow> redactor \<Rightarrow> snapshot_file list" where
  "capture_files io ls s base rd =
     concat (map (\<lambda>name. snapshot_entry name id (read_capped io s (path_join base name))) SIMPLE_FILES) @
     snapshot_entry ''environ'' (redact_environ rd) (read_capped io s (path_join base ''environ'')) @
     snapshot_entry ''cmdline'' (redact_cmdline rd) (read_capped io s (path_join base ''cmdline'')) @
     snapshot_entry ''fd'' id (read_fd_listing io ls s (path_join base ''fd'')) @
     snapshot_entry ''exe'' id (map_option (\<lambda>t. (utf8_lossy t, False)) (read_link io s (path_join base ''exe'')))"

text \<open>
  The snapshot; the inner result is \<open>Panic\<close> where the build-id parser of an overflow-checked
  build (\<open>chk\<close>) panics.
\<close>

definition capture ::
  "bool \<Rightarrow> io_env \<Rightarrow> dir_lister \<Rightarrow> fs \<Rightarrow> path \<Rightarrow> int \<Rightarrow> redactor \<Rightarrow> proc_snapshot parsed option" where
  "capture chk io ls s proc_root pid rd =
     (let base = proc_base proc_root pid;
          files = capture_files io ls s base rd;
          snap = (\<lambda>b. Got \<lparr>sn_host_pid = pid, sn_build_id = b, sn_files = files\<rparr>)
      in map_option (\<lambda>b. case b of Panic \<Rightarrow> Panic | Nothing \<Rightarrow> snap None | Got i \<Rightarrow> snap (Some i))
           (build_id_from_path chk io s (path_join base ''exe'')))"

section \<open>\<open>to_tar\<close>\<close>

record tar_header =
  th_size :: u64
  th_mode :: nat
  th_mtime :: u64

record 'b tar_lib =
  tl_new :: 'b
  tl_append_data :: "'b \<Rightarrow> tar_header \<Rightarrow> string \<Rightarrow> bytes \<Rightarrow> 'b option"
  tl_into_inner :: "'b \<Rightarrow> bytes option"

definition append_tar :: "'b tar_lib \<Rightarrow> 'b \<Rightarrow> string \<Rightarrow> bytes \<Rightarrow> 'b option" where
  "append_tar lib builder name bs =
     tl_append_data lib builder \<lparr>th_size = of_nat (length bs), th_mode = mode_600, th_mtime = 0\<rparr> name bs"

fun append_files :: "'b tar_lib \<Rightarrow> 'b \<Rightarrow> (string \<times> bytes) list \<Rightarrow> 'b option" where
  "append_files lib builder [] = Some builder"
| "append_files lib builder ((name, bs) # fs) =
     Option.bind (append_tar lib builder name bs) (\<lambda>b. append_files lib b fs)"

definition truncated_names :: "proc_snapshot \<Rightarrow> string list" where
  "truncated_names snap = map sf_name (filter sf_truncated (sn_files snap))"

definition to_tar :: "'b tar_lib \<Rightarrow> proc_snapshot \<Rightarrow> bytes option" where
  "to_tar lib snap =
     (case append_files lib (tl_new lib) (map (\<lambda>f. (sf_name f, sf_bytes f)) (sn_files snap)) of
        None \<Rightarrow> None
      | Some b \<Rightarrow>
          (case (if truncated_names snap = [] then Some b
                 else append_tar lib b ''TRUNCATED'' (str_join [newline] (truncated_names snap))) of
             None \<Rightarrow> None
           | Some b' \<Rightarrow> tl_into_inner lib b'))"

section \<open>Lemmas on reading\<close>

lemma read_capped_Some:
  "read_capped io s p = Some (b, t) \<longleftrightarrow>
     (\<exists>c. fs_read io s p = Inr c \<and> b = take MAX_FILE_BYTES c \<and> t = (MAX_FILE_BYTES < length c))"
  by (auto simp: read_capped_def Let_def min_def split: sum.splits)

lemma read_capped_None: "read_capped io s p = None \<longleftrightarrow> (\<exists>e. fs_read io s p = Inl e)"
  by (auto simp: read_capped_def Let_def split: sum.splits)

text \<open>The loop keeps the first entries that can be read, up to the cap, and counts them all.\<close>

fun readable :: "string option list \<Rightarrow> string list" where
  "readable [] = []"
| "readable (None # ds) = readable ds"
| "readable (Some n # ds) = n # readable ds"

definition fd_entry :: "io_env \<Rightarrow> fs \<Rightarrow> path \<Rightarrow> string \<Rightarrow> nat \<times> string" where
  "fd_entry io s d n = (fd_number (utf8_lossy n), fd_line io s d n)"

definition fd_entries :: "io_env \<Rightarrow> fs \<Rightarrow> path \<Rightarrow> string option list \<Rightarrow> (nat \<times> string) list" where
  "fd_entries io s d ds = map (fd_entry io s d) (readable ds)"

lemma fd_loop_eq:
  "length entries \<le> MAX_FD_ENTRIES \<Longrightarrow>
   fd_loop io s d entries tot ds =
     (entries @ take (MAX_FD_ENTRIES - length entries) (map (fd_entry io s d) (readable ds)), tot + length (readable ds))"
proof (induction ds arbitrary: entries tot rule: readable.induct)
  case (3 n ds)
  show ?case
  proof (cases "MAX_FD_ENTRIES \<le> length entries")
    case True
    with 3(2) have "MAX_FD_ENTRIES - length entries = 0" by simp
    with True 3(1) [of entries "tot + 1"] 3(2) show ?thesis by simp
  next
    case False
    then have k: "MAX_FD_ENTRIES - length entries = Suc (MAX_FD_ENTRIES - Suc (length entries))" by simp
    show ?thesis
      using False 3(1) [of "entries @ [fd_entry io s d n]" "tot + 1"]
      by (simp add: k fd_entry_def)
  qed
qed simp_all

lemma fd_loop_take:
  "fd_loop io s d [] 0 ds = (take MAX_FD_ENTRIES (fd_entries io s d ds), length (fd_entries io s d ds))"
  by (simp add: fd_loop_eq fd_entries_def)

lemma capture_release: "\<exists>snap. capture False io ls s rt pid rd = Some (Got snap)"
proof -
  from build_id_from_path_returns [of io s "path_join (proc_base rt pid) ''exe''"] obtain r where
    "build_id_from_path False io s (path_join (proc_base rt pid) ''exe'') = Some r" "r \<noteq> Panic" by blast
  then show ?thesis by (cases r) (simp_all add: capture_def)
qed

lemma capture_fields:
  assumes "capture chk io ls s rt pid rd = Some (Got snap)"
  shows "sn_host_pid snap = pid \<and> sn_files snap = capture_files io ls s (proc_base rt pid) rd"
proof -
  from assms obtain r where "build_id_from_path chk io s (path_join (proc_base rt pid) ''exe'') = Some r"
    by (auto simp: capture_def Let_def)
  with assms show ?thesis by (cases r) (auto simp: capture_def)
qed

section \<open>The archive\<close>

text \<open>
  What is relied on of the \<open>tar\<close> crate: an archive whose every header gives the size of its
  data can be read back, entry by entry, with names, modes and data.
\<close>

fun tar_append_all :: "'b tar_lib \<Rightarrow> 'b \<Rightarrow> (tar_header \<times> string \<times> bytes) list \<Rightarrow> 'b option" where
  "tar_append_all lib b [] = Some b"
| "tar_append_all lib b ((h, name, bs) # es) =
     Option.bind (tl_append_data lib b h name bs) (\<lambda>b'. tar_append_all lib b' es)"

definition tar_ok :: "'b tar_lib \<Rightarrow> (bytes \<Rightarrow> (string \<times> nat \<times> bytes) list option) \<Rightarrow> bool" where
  "tar_ok lib untar \<longleftrightarrow>
     (\<forall>es b out. list_all (\<lambda>(h, name, bs). th_size h = of_nat (length bs)) es \<and>
        tar_append_all lib (tl_new lib) es = Some b \<and> tl_into_inner lib b = Some out \<longrightarrow>
        untar out = Some (map (\<lambda>(h, name, bs). (name, th_mode h, bs)) es))"

definition tar_entries :: "proc_snapshot \<Rightarrow> (string \<times> bytes) list" where
  "tar_entries snap = map (\<lambda>f. (sf_name f, sf_bytes f)) (sn_files snap) @
     (if truncated_names snap = [] then [] else [(''TRUNCATED'', str_join [newline] (truncated_names snap))])"

lemma append_files_append:
  "append_files lib b (xs @ ys) = Option.bind (append_files lib b xs) (\<lambda>b'. append_files lib b' ys)"
proof (induction lib b xs rule: append_files.induct)
  case (2 lib b name bs es)
  then show ?case by (cases "append_tar lib b name bs") simp_all
qed simp

lemma to_tar_entries:
  "to_tar lib snap = Option.bind (append_files lib (tl_new lib) (tar_entries snap)) (tl_into_inner lib)"
  by (auto simp: to_tar_def tar_entries_def append_files_append split: option.splits bind_splits)

lemma append_files_all:
  "append_files lib b es =
     tar_append_all lib b
       (map (\<lambda>(name, bs). (\<lparr>th_size = of_nat (length bs), th_mode = mode_600, th_mtime = 0\<rparr>, name, bs)) es)"
proof (induction lib b es rule: append_files.induct)
  case (2 lib b name bs es)
  then show ?case by (cases "append_tar lib b name bs") (simp_all add: append_tar_def)
qed simp

lemma to_tar_reads_back:
  assumes "tar_ok lib untar" "to_tar lib snap = Some out"
  shows "untar out = Some (map (\<lambda>(n, b). (n, mode_600, b)) (tar_entries snap))"
proof -
  let ?hdr = "\<lambda>(name, bs). (\<lparr>th_size = of_nat (length bs) :: u64, th_mode = mode_600, th_mtime = 0\<rparr>, name :: string, bs :: bytes)"
  from assms(2) obtain b where b: "append_files lib (tl_new lib) (tar_entries snap) = Some b" "tl_into_inner lib b = Some out"
    by (auto simp: to_tar_entries bind_eq_Some_conv)
  have "list_all (\<lambda>(h, name, bs). th_size h = of_nat (length bs)) (map ?hdr (tar_entries snap))"
    by (auto simp: list_all_iff)
  with assms(1) b have "untar out = Some (map (\<lambda>(h, name, bs). (name, th_mode h, bs)) (map ?hdr (tar_entries snap)))"
    unfolding tar_ok_def append_files_all by blast
  also have "map (\<lambda>(h, name, bs). (name, th_mode h, bs)) (map ?hdr (tar_entries snap)) =
      map (\<lambda>(n, b). (n, mode_600, b)) (tar_entries snap)" by (auto simp: case_prod_beta)
  finally show ?thesis .
qed

section \<open>What differs between two processes only in secrets\<close>

text \<open>
  Two states of \<open>/proc\<close> that differ at most in the process's environment and arguments, both
  under the size cap; no other file that the snapshot reads is a link to those two.
\<close>

definition snapshot_alike :: "fs \<Rightarrow> fs \<Rightarrow> path \<Rightarrow> bool" where
  "snapshot_alike s s' base \<longleftrightarrow>
     (\<exists>ev ev' cl cl' m.
        s (path_join base ''environ'') = Some (File ev m) \<and> s' (path_join base ''environ'') = Some (File ev' m) \<and>
        s (path_join base ''cmdline'') = Some (File cl m) \<and> s' (path_join base ''cmdline'') = Some (File cl' m) \<and>
        length ev \<le> MAX_FILE_BYTES \<and> length ev' \<le> MAX_FILE_BYTES \<and>
        length cl \<le> MAX_FILE_BYTES \<and> length cl' \<le> MAX_FILE_BYTES \<and>
        list_all2 utf8_variant (nul_entries ev) (nul_entries ev') \<and>
        args_variant False (nul_entries cl) (nul_entries cl')) \<and>
     (\<forall>p. p \<noteq> path_join base ''environ'' \<and> p \<noteq> path_join base ''cmdline'' \<longrightarrow> s p = s' p) \<and>
     (\<forall>name \<in> set (''exe'' # SIMPLE_FILES).
        follow s (path_join base name) \<notin> {Some (path_join base ''environ''), Some (path_join base ''cmdline'')})"

lemma snapshot_alike_links:
  assumes "snapshot_alike s s' base"
  shows "s p = Some (Symlink t) \<longleftrightarrow> s' p = Some (Symlink t)"
  using assms by (cases "p = path_join base ''environ'' \<or> p = path_join base ''cmdline''") (auto simp: snapshot_alike_def)

lemma snapshot_alike_read:
  assumes "snapshot_alike s s' base" "name \<in> set (''exe'' # SIMPLE_FILES)"
  shows "fs_read io s (path_join base name) = fs_read io s' (path_join base name)"
proof -
  let ?p = "path_join base name"
  have "same_links s s'" using snapshot_alike_links [OF assms(1)] by (simp add: same_links_def)
  then have fl: "follow s q = follow s' q" for q by (rule same_links_follow [symmetric])
  have "node_at s ?p = node_at s' ?p"
  proof (cases "follow s ?p")
    case (Some q)
    with assms have "q \<noteq> path_join base ''environ''" "q \<noteq> path_join base ''cmdline''"
      by (auto simp: snapshot_alike_def)
    with assms(1) have "s q = s' q" by (simp add: snapshot_alike_def)
    with Some fl [of ?p] show ?thesis by (simp add: node_at_def)
  qed (use fl [of ?p] in \<open>simp add: node_at_def\<close>)
  then show ?thesis by (simp add: fs_read_def)
qed

lemma read_link_alike:
  "snapshot_alike s s' base \<Longrightarrow> read_link io s p = read_link io s' p"
  by (cases "p = path_join base ''environ'' \<or> p = path_join base ''cmdline''")
    (auto simp: read_link_def snapshot_alike_def)

lemma fd_listing_alike:
  assumes "snapshot_alike s s' base"
  shows "read_fd_listing io ls s d = read_fd_listing io ls s' d"
proof -
  have "fd_entries io s d ds = fd_entries io s' d ds" for ds
    using read_link_alike [OF assms] by (simp add: fd_entries_def fd_entry_def fd_line_def)
  then show ?thesis by (simp add: read_fd_listing_def fd_loop_take split: option.split)
qed

section \<open>Examples\<close>

text \<open>A process with one environment variable, and an archive format for a single small entry.\<close>

definition example_proc :: "bytes \<Rightarrow> fs" where
  "example_proc ev = [''/p/7/environ'' \<mapsto> File ev mode_644, ''/p/7/cmdline'' \<mapsto> File [] mode_644]"

definition example_tar :: "(string \<times> bytes) option tar_lib" where
  "example_tar = \<lparr>tl_new = None,
     tl_append_data = (\<lambda>b h name bs. if b = None \<and> th_mode h = mode_600 \<and> nul \<notin> set name then Some (Some (name, bs)) else None),
     tl_into_inner = (\<lambda>b. case b of None \<Rightarrow> None | Some (name, bs) \<Rightarrow> Some (name @ [nul] @ bs))\<rparr>"

definition example_untar :: "bytes \<Rightarrow> (string \<times> nat \<times> bytes) list option" where
  "example_untar b = map_option (\<lambda>(name, bs). [(name, mode_600, bs)]) (split_once nul b)"

lemma example_tar_ok: "tar_ok example_tar example_untar"
proof -
  have "example_untar out = Some (map (\<lambda>(h, name, bs). (name, th_mode h, bs)) es)"
    if "tar_append_all example_tar (tl_new example_tar) es = Some b" "tl_into_inner example_tar b = Some out" for es b out
  proof (cases es)
    case Nil
    with that show ?thesis by (simp add: example_tar_def)
  next
    case (Cons e es')
    obtain h name bs where e: "e = (h, name, bs)" by (cases e)
    with Cons that have n: "th_mode h = mode_600" "nul \<notin> set name" "es' = []"
      by (cases es'; auto simp: example_tar_def bind_eq_Some_conv split: if_splits)+
    with Cons e that have "out = name @ nul # bs" by (auto simp: example_tar_def)
    with n Cons e show ?thesis by (simp add: example_untar_def split_once_append)
  qed
  then show ?thesis by (simp add: tar_ok_def)
qed

lemma example_paths:
  "path_join ''/p/7'' ''environ'' = ''/p/7/environ''" "path_join ''/p/7'' ''cmdline'' = ''/p/7/cmdline''"
  "path_join ''/p/7'' ''exe'' = ''/p/7/exe''" "path_join ''/p/7'' ''fd'' = ''/p/7/fd''"
  "path_join ''/p/7'' ''maps'' = ''/p/7/maps''" "path_join ''/p/7'' ''smaps'' = ''/p/7/smaps''"
  "path_join ''/p/7'' ''status'' = ''/p/7/status''" "path_join ''/p/7'' ''limits'' = ''/p/7/limits''"
  "path_join ''/p/7'' ''stack'' = ''/p/7/stack''" "proc_base ''/p'' 7 = ''/p/7''"
  by code_simp+

section \<open>Properties\<close>

text \<open>
  C16. The snapshot of a process reveals no secret of its environment or its arguments, under the
  conditions of the redaction: two states of \<open>/proc\<close> that differ only in the values of secret
  names and in the arguments of secret flags, as valid UTF-8, in blobs that are not above the size
  cap of 8 MiB (a longer one is cut first, so that the length of a secret shows) and that no other
  file of the snapshot is a link to, give the same snapshot, file by file and flag by flag, and
  the same archive.
\<close>

theorem snapshot_hides_secrets:
  assumes "snapshot_alike s s' (proc_base rt pid)"
  shows "capture chk io ls s rt pid redactor_default = capture chk io ls s' rt pid redactor_default \<and>
    (\<forall>snap snap'. capture chk io ls s rt pid redactor_default = Some (Got snap) \<and>
       capture chk io ls s' rt pid redactor_default = Some (Got snap') \<longrightarrow> to_tar lib snap = to_tar lib snap')"
proof -
  let ?b = "proc_base rt pid"
  note al = assms
  have simple: "read_capped io s (path_join ?b n) = read_capped io s' (path_join ?b n)" if "n \<in> set SIMPLE_FILES" for n
    using snapshot_alike_read [OF al, of n] that by (simp add: read_capped_def)
  from al obtain ev ev' cl cl' m where f:
    "s (path_join ?b ''environ'') = Some (File ev m)" "s' (path_join ?b ''environ'') = Some (File ev' m)"
    "s (path_join ?b ''cmdline'') = Some (File cl m)" "s' (path_join ?b ''cmdline'') = Some (File cl' m)"
    and len: "length ev \<le> MAX_FILE_BYTES" "length ev' \<le> MAX_FILE_BYTES" "length cl \<le> MAX_FILE_BYTES" "length cl' \<le> MAX_FILE_BYTES"
    and v: "list_all2 utf8_variant (nul_entries ev) (nul_entries ev')" "args_variant False (nul_entries cl) (nul_entries cl')"
    by (auto simp: snapshot_alike_def)
  note environ_variant [OF v(1)] cmdline_variant [OF v(2)]
  with f len have "snapshot_entry ''environ'' (redact_environ redactor_default) (read_capped io s (path_join ?b ''environ'')) =
      snapshot_entry ''environ'' (redact_environ redactor_default) (read_capped io s' (path_join ?b ''environ''))"
    "snapshot_entry ''cmdline'' (redact_cmdline redactor_default) (read_capped io s (path_join ?b ''cmdline'')) =
      snapshot_entry ''cmdline'' (redact_cmdline redactor_default) (read_capped io s' (path_join ?b ''cmdline''))"
    by (simp_all add: read_capped_def fs_read_def node_at_plain snapshot_entry_def)
  then have "capture_files io ls s ?b redactor_default = capture_files io ls s' ?b redactor_default"
    using simple read_link_alike [OF al] fd_listing_alike [OF al]
    by (simp add: capture_files_def cong: map_cong)
  moreover have "build_id_from_path chk io s (path_join ?b ''exe'') = build_id_from_path chk io s' (path_join ?b ''exe'')"
    using snapshot_alike_read [OF al, of "''exe''"] by (simp add: build_id_from_path_def)
  ultimately have "capture chk io ls s rt pid redactor_default = capture chk io ls s' rt pid redactor_default"
    by (simp add: capture_def)
  then show ?thesis by auto
qed

theorem snapshot_hides_secrets_witness:
  "capture False no_faults (\<lambda>_. None) (example_proc (nul_frame [''API_KEY=one''])) ''/p'' 7 redactor_default =
   capture False no_faults (\<lambda>_. None) (example_proc (nul_frame [''API_KEY=two two''])) ''/p'' 7 redactor_default"
proof -
  have v: "utf8_variant ''API_KEY=one'' ''API_KEY=two two''"
    "nul_entries (nul_frame [''API_KEY=one'']) = [''API_KEY=one'']"
    "nul_entries (nul_frame [''API_KEY=two two'']) = [''API_KEY=two two'']" "nul_entries [] = []"
    by code_simp+
  have l: "length (nul_frame [''API_KEY=one'']) \<le> MAX_FILE_BYTES" "length (nul_frame [''API_KEY=two two'']) \<le> MAX_FILE_BYTES"
    by (simp_all add: MAX_FILE_BYTES_def)
  have "snapshot_alike (example_proc (nul_frame [''API_KEY=one'']))
      (example_proc (nul_frame [''API_KEY=two two''])) (proc_base ''/p'' 7)"
    using v l unfolding snapshot_alike_def example_paths
    by (simp add: example_proc_def example_paths SIMPLE_FILES_def follow_plain)
  from snapshot_hides_secrets [OF this] show ?thesis by blast
qed

text \<open>
  The archive is a faithful record of the snapshot: it reads back as one entry of mode 0600
  per captured file with that file's bytes, followed by a \<open>TRUNCATED\<close> entry exactly when some
  file was cut. Every readable plain file is in it, cut at 8 MiB and never otherwise.
\<close>

theorem snapshot_tar_contents:
  assumes "tar_ok lib untar" "capture chk io ls s rt pid rd = Some (Got snap)" "to_tar lib snap = Some out"
  shows "\<exists>es. untar out = Some (map (\<lambda>(n, b). (n, mode_600, b)) es) \<and>
    es = map (\<lambda>f. (sf_name f, sf_bytes f)) (sn_files snap) @
      (if \<exists>f\<in>set (sn_files snap). sf_truncated f then [(''TRUNCATED'', str_join [newline] (truncated_names snap))] else []) \<and>
    (\<forall>n\<in>set SIMPLE_FILES. \<forall>c. fs_read io s (path_join (proc_base rt pid) n) = Inr c \<longrightarrow>
       (n, take MAX_FILE_BYTES c) \<in> set es \<and>
       (MAX_FILE_BYTES < length c \<longrightarrow> n \<in> set (truncated_names snap)))"
proof -
  let ?b = "proc_base rt pid"
  note u = to_tar_reads_back [OF assms(1,3)]
  have simple: "\<lparr>sf_name = n, sf_bytes = take MAX_FILE_BYTES c, sf_truncated = (MAX_FILE_BYTES < length c)\<rparr> \<in> set (sn_files snap)"
    if "n \<in> set SIMPLE_FILES" "fs_read io s (path_join ?b n) = Inr c" for n c
  proof -
    have "read_capped io s (path_join ?b n) = Some (take MAX_FILE_BYTES c, MAX_FILE_BYTES < length c)"
      using that(2) by (simp add: read_capped_Some)
    with that(1) capture_fields [OF assms(2)] show ?thesis by (force simp: capture_files_def snapshot_entry_def)
  qed
  have te: "tar_entries snap = map (\<lambda>f. (sf_name f, sf_bytes f)) (sn_files snap) @
      (if \<exists>f\<in>set (sn_files snap). sf_truncated f then [(''TRUNCATED'', str_join [newline] (truncated_names snap))] else [])"
    by (auto simp: tar_entries_def truncated_names_def filter_empty_conv)
  have "(n, take MAX_FILE_BYTES c) \<in> set (tar_entries snap) \<and>
      (MAX_FILE_BYTES < length c \<longrightarrow> n \<in> set (truncated_names snap))"
    if "n \<in> set SIMPLE_FILES" "fs_read io s (path_join ?b n) = Inr c" for n c
  proof -
    note m = simple [OF that]
    have "(n, take MAX_FILE_BYTES c) \<in> (\<lambda>f. (sf_name f, sf_bytes f)) ` set (sn_files snap)"
      by (rule rev_image_eqI [OF m]) simp
    moreover have "n \<in> sf_name ` {f \<in> set (sn_files snap). sf_truncated f}" if "MAX_FILE_BYTES < length c"
      by (rule rev_image_eqI [where x = "\<lparr>sf_name = n, sf_bytes = take MAX_FILE_BYTES c, sf_truncated = True\<rparr>"])
        (use m that in simp_all)
    ultimately show ?thesis by (simp add: tar_entries_def truncated_names_def)
  qed
  with u te show ?thesis by (intro exI [of _ "tar_entries snap"]) blast
qed

theorem snapshot_tar_contents_witness:
  "\<exists>out. to_tar example_tar \<lparr>sn_host_pid = 7, sn_build_id = None, sn_files = [\<lparr>sf_name = ''maps'', sf_bytes = ''m'', sf_truncated = False\<rparr>]\<rparr> = Some out \<and>
     example_untar out = Some [(''maps'', mode_600, ''m'')]"
proof -
  let ?s = "[''/p/7/maps'' \<mapsto> File ''m'' mode_644] :: fs"
  let ?snap = "\<lparr>sn_host_pid = 7, sn_build_id = None, sn_files = [\<lparr>sf_name = ''maps'', sf_bytes = ''m'', sf_truncated = False\<rparr>]\<rparr>"
  have "capture False no_faults (\<lambda>_. None) ?s ''/p'' 7 redactor_default = Some (Got ?snap)"
    by (simp add: capture_def capture_files_def example_paths SIMPLE_FILES_def read_capped_def fs_read_def node_at_plain
        snapshot_entry_def read_fd_listing_def read_link_def build_id_from_path_def MAX_FILE_BYTES_def)
  moreover have o: "to_tar example_tar ?snap = Some (''maps'' @ [nul] @ ''m'')"
    by (simp add: to_tar_entries tar_entries_def truncated_names_def append_tar_def example_tar_def nul_def)
  ultimately show ?thesis
    using snapshot_tar_contents [OF example_tar_ok, of False no_faults "\<lambda>_. None" ?s "''/p''" 7 redactor_default ?snap] by auto
qed

text \<open>
  The list of open descriptors is complete and ordered, or says how much is missing: up to
  the cap of 10000 it has one line per descriptor that could be listed, in the order of their
  numbers; beyond it exactly the cap is shown, the listing is marked as truncated, and its last
  line gives both counts.
\<close>

theorem fd_listing_complete:
  assumes "ls d = Some dirents" "n = length (readable dirents)"
  shows "\<exists>lines :: (nat \<times> string) list. read_fd_listing io ls s d =
      Some (str_join [newline] (map snd lines @
        (if n \<le> MAX_FD_ENTRIES then []
         else [''... showing '' @ show_nat MAX_FD_ENTRIES @ '' of '' @ show_nat n @ '' fds''])), MAX_FD_ENTRIES < n) \<and>
    sorted (map fst lines) \<and>
    mset lines = mset (map (\<lambda>f. (fd_number (utf8_lossy f), fd_line io s d f)) (take MAX_FD_ENTRIES (readable dirents)))"
proof -
  let ?es = "take MAX_FD_ENTRIES (fd_entries io s d dirents)"
  have len: "length (fd_entries io s d dirents) = n" using assms(2) by (simp add: fd_entries_def)
  have "length ?es = min n MAX_FD_ENTRIES" using len by simp
  then have "read_fd_listing io ls s d =
      Some (str_join [newline] (map snd (sort_key fst ?es) @
        (if n \<le> MAX_FD_ENTRIES then []
         else [''... showing '' @ show_nat MAX_FD_ENTRIES @ '' of '' @ show_nat n @ '' fds''])), MAX_FD_ENTRIES < n)"
    using assms(1) len by (auto simp: read_fd_listing_def fd_loop_take min_def Let_def)
  moreover have "mset (sort_key fst ?es) =
      mset (map (\<lambda>f. (fd_number (utf8_lossy f), fd_line io s d f)) (take MAX_FD_ENTRIES (readable dirents)))"
    by (simp add: fd_entries_def fd_entry_def [abs_def] take_map)
  ultimately show ?thesis by (intro exI [of _ "sort_key fst ?es"]) simp
qed

theorem fd_listing_complete_witness:
  "\<exists>lines :: (nat \<times> string) list. read_fd_listing no_faults (\<lambda>_. Some [Some ''10'', None, Some ''2'']) Map.empty ''/p/7/fd'' =
      Some (str_join [newline] (map snd lines), False) \<and> length lines = 2 \<and> sorted (map fst lines)"
proof -
  let ?ds = "[Some ''10'', None, Some ''2'']"
  have n: "(2::nat) = length (readable ?ds)" "(2::nat) \<le> MAX_FD_ENTRIES" by (simp_all add: MAX_FD_ENTRIES_def)
  from fd_listing_complete [of "\<lambda>_. Some ?ds" "''/p/7/fd''" ?ds 2 no_faults Map.empty, OF refl n(1)] obtain lines where
    l: "read_fd_listing no_faults (\<lambda>_. Some ?ds) Map.empty ''/p/7/fd'' = Some (str_join [newline] (map snd lines), False)"
      "sorted (map fst lines)"
      "mset lines = mset (map (\<lambda>f. (fd_number (utf8_lossy f), fd_line no_faults Map.empty ''/p/7/fd'' f))
         (take MAX_FD_ENTRIES (readable ?ds)))"
    using n(2) by auto
  have "size (mset lines) = length (take MAX_FD_ENTRIES (readable ?ds))" unfolding l(3) by simp
  then have "length lines = 2" using n(2) by simp
  with l(1,2) show ?thesis by blast
qed

end
