(* ===== verification/Handler.thy ===== *)
theory Handler
  imports Cgroup Rate_Limit Snapshot Crictl Manifest Events Config
begin

text \<open>
  \<open>src/handler.rs\<close>: the capture handler that the kernel runs on a crash. \<open>run\<close> is the whole
  pipeline, stage by stage, over the components of the other theories; the world it changes is
  the file system (the rate-limiter state), the objects of the store, and the datagrams that
  reached the daemon.
\<close>

section \<open>Arguments\<close>

record capture_args =
  ca_host_pid :: int
  ca_signal :: int
  ca_timestamp :: int
  ca_exe :: string

datatype args_error = WrongCount nat | BadHostPid | BadSignal | BadTimestamp

definition parse_number :: "int \<Rightarrow> int \<Rightarrow> bytes \<Rightarrow> int option" where
  "parse_number lo hi arg = (if utf8_valid arg then parse_signed lo hi arg else None)"

definition capture_args_parse :: "bytes list \<Rightarrow> args_error + capture_args" where
  "capture_args_parse args =
     (case args of
        [pid, sig, ts, exe] \<Rightarrow>
          (case parse_number i32_min i32_max pid of
             None \<Rightarrow> Inl BadHostPid
           | Some p \<Rightarrow>
          (case parse_number i32_min i32_max sig of
             None \<Rightarrow> Inl BadSignal
           | Some g \<Rightarrow>
          (case parse_number i64_min i64_max ts of
             None \<Rightarrow> Inl BadTimestamp
           | Some t \<Rightarrow> Inr \<lparr>ca_host_pid = p, ca_signal = g, ca_timestamp = t, ca_exe = utf8_lossy exe\<rparr>)))
      | _ \<Rightarrow> Inl (WrongCount (length args)))"

section \<open>The environment and the world\<close>

text \<open>
  Foreign code and the machine, as parameters: the overflow checks of the build, I/O faults,
  directory listings, \<open>serde_json\<close>'s text form, the upload library, \<open>ObjectPath::from\<close> and the
  store's answers to a PUT, \<open>tar\<close>, the \<open>crictl\<close> process, the sockets, \<open>chrono\<close>, and the texts of
  the drain's errors.
\<close>

record ('z, 'b) capture_env =
  en_chk :: bool
  en_io :: io_env
  en_ls :: dir_lister
  en_rate_codec :: rate_codec
  en_upload :: "'z upload_env"
  en_path_of :: "string \<Rightarrow> string"
  en_put :: "string \<Rightarrow> put_ev"
  en_tar :: "'b tar_lib"
  en_crictl :: "command \<Rightarrow> cmd_run"
  en_json_parse :: "bytes \<Rightarrow> json option"
  en_json_pretty :: "json \<Rightarrow> bytes option"
  en_json_print :: "json \<Rightarrow> bytes option"
  en_net :: dgram_env
  en_rfc3339 :: "int \<Rightarrow> string option"
  en_drain_error :: "drain_error \<Rightarrow> string"

record world =
  wo_fs :: fs
  wo_objects :: objects
  wo_sent :: "(path \<times> bytes) list"

datatype run_end = RunOk | RunErr drain_error | RunPanics | RunHangs

section \<open>Helpers\<close>

definition node_hostname :: "io_env \<Rightarrow> fs \<Rightarrow> string" where
  "node_hostname io s =
     (case read_to_string io s ''/proc/sys/kernel/hostname'' of
        Inl _ \<Rightarrow> ''localhost''
      | Inr c \<Rightarrow> unwrap_or (opt_filter (\<lambda>x. x \<noteq> []) (Some (trim c))) ''localhost'')"

definition read_cgroup_identity :: "io_env \<Rightarrow> fs \<Rightarrow> path \<Rightarrow> int \<Rightarrow> cgroup_identity option" where
  "read_cgroup_identity io s proc_root pid =
     (case read_to_string io s (path_join (path_join proc_root (show_int pid)) ''cgroup'') of
        Inl _ \<Rightarrow> None
      | Inr content \<Rightarrow> parse_cgroup content)"

definition format_timestamp :: "(int \<Rightarrow> string option) \<Rightarrow> int \<Rightarrow> string" where
  "format_timestamp rfc3339 epoch_secs = (case rfc3339 epoch_secs of None \<Rightarrow> show_int epoch_secs | Some s \<Rightarrow> s)"

definition signal_name :: "int \<Rightarrow> string option" where
  "signal_name sig = map_of
     [(1, ''SIGHUP''), (2, ''SIGINT''), (3, ''SIGQUIT''), (4, ''SIGILL''), (6, ''SIGABRT''), (7, ''SIGBUS''),
      (8, ''SIGFPE''), (9, ''SIGKILL''), (11, ''SIGSEGV''), (13, ''SIGPIPE''), (15, ''SIGTERM'')] sig"

definition base_payload :: "capture_args \<Rightarrow> outcome \<Rightarrow> capture_event" where
  "base_payload args oc =
     \<lparr>ce_namespace = None, ce_pod_name = None, ce_pod_uid = None, ce_container_id = None, ce_container_name = None,
      ce_host_pid = ca_host_pid args, ce_exe = ca_exe args, ce_signal = ca_signal args,
      ce_signal_name = signal_name (ca_signal args), ce_outcome = oc, ce_manifest_key = None, ce_core_bytes = 0,
      ce_stored_bytes = None, ce_truncated = False, ce_error = None, ce_timestamp = ca_timestamp args\<rparr>"

definition report :: "('z, 'b) capture_env \<Rightarrow> handler_config \<Rightarrow> capture_event \<Rightarrow> world \<Rightarrow> world" where
  "report env config payload w =
     w\<lparr>wo_sent := wo_sent w @
        send_capture_event (\<lambda>p. en_json_print env (payload_to_json p)) (en_net env) (hc_event_socket_path config) payload\<rparr>"

section \<open>The stages\<close>

type_synonym target = "(cgroup_identity \<times> object_keys) option"

definition handler_keys :: "handler_config \<Rightarrow> capture_args \<Rightarrow> cgroup_identity \<Rightarrow> object_keys" where
  "handler_keys config args i =
     object_keys_new (hc_cluster config) (cg_pod_uid i) (cg_container_id i) (ca_timestamp args) (ca_host_pid args)"

text \<open>Identity and store both resolved: the only case where anything uploads.\<close>

definition handler_target :: "cgroup_identity option \<Rightarrow> 's option \<Rightarrow> object_keys option \<Rightarrow> target" where
  "handler_target identity store keys =
     map_option (\<lambda>((i, st), ks). (i, ks)) (opt_zip (opt_zip identity store) keys)"

definition handler_limiter :: "handler_config \<Rightarrow> rate_limiter" where
  "handler_limiter config = \<lparr>rl_state_path = hc_rate_state_path config, rl_max_per_hour = hc_max_cores_per_hour config\<rparr>"

text \<open>\<open>(rate_recorded, rate_suppressed)\<close>\<close>

definition rate_stage ::
  "('z, 'b) capture_env \<Rightarrow> handler_config \<Rightarrow> capture_args \<Rightarrow> target \<Rightarrow> fs \<Rightarrow> (bool \<times> bool) \<times> fs" where
  "rate_stage env config args target s =
     (case target of
        None \<Rightarrow> ((False, False), s)
      | Some (i, _) \<Rightarrow>
          (case check_and_record (en_rate_codec env) (en_io env) (handler_limiter config) (cg_pod_uid i) (ca_timestamp args) s of
             (Suppressed _, s') \<Rightarrow> ((False, True), s')
           | (Allowed, s') \<Rightarrow> ((True, False), s')))"

definition drain_stage ::
  "('z, 'b) capture_env \<Rightarrow> handler_config \<Rightarrow> target \<Rightarrow> bool \<Rightarrow> pipe \<Rightarrow> objects \<Rightarrow> drain_result \<times> objects" where
  "drain_stage env config target rate_suppressed core_in objs =
     (let deadline = hc_upload_deadline_secs config \<noteq> 0
      in if rate_suppressed then (discard_drain deadline core_in, objs)
         else (case target of
                 Some (_, keys) \<Rightarrow>
                   standalone_drain (en_upload env)
                     (standalone_new (en_path_of env) (key_core keys) (hc_max_core_bytes config)) deadline core_in objs
               | None \<Rightarrow> (discard_drain deadline core_in, objs)))"

text \<open>The two uploads after the drain have no deadline: \<open>None\<close> is a store that never answers.\<close>

definition snapshot_stage ::
  "('z, 'b) capture_env \<Rightarrow> target \<Rightarrow> proc_snapshot \<Rightarrow> objects \<Rightarrow> string option option \<times> objects" where
  "snapshot_stage env target snapshot objs =
     (case target of
        None \<Rightarrow> (Some None, objs)
      | Some (_, keys) \<Rightarrow>
          (case to_tar (en_tar env) snapshot of
             None \<Rightarrow> (Some None, objs)
           | Some tar \<Rightarrow>
               (case put_object (en_path_of env) (en_put env) objs (key_proc_snapshot keys) tar of
                  (None, objs') \<Rightarrow> (None, objs')
                | (Some True, objs') \<Rightarrow> (Some (Some (key_proc_snapshot keys)), objs')
                | (Some False, objs') \<Rightarrow> (Some None, objs'))))"

definition crictl_stage ::
  "('z, 'b) capture_env \<Rightarrow> handler_config \<Rightarrow> cgroup_identity option \<Rightarrow> container_info option option" where
  "crictl_stage env config identity =
     (case identity of
        None \<Rightarrow> Some None
      | Some i \<Rightarrow> inspect (en_crictl env) (en_json_parse env) (cg_container_id i) config)"

definition build_identity :: "cgroup_identity option \<Rightarrow> container_info option \<Rightarrow> manifest_identity" where
  "build_identity identity container_info =
     (let (pod_uid, container_id) = (case identity of None \<Rightarrow> ([], []) | Some i \<Rightarrow> (cg_pod_uid i, cg_container_id i));
          info = unwrap_or container_info container_info_default
      in \<lparr>mi_pod_uid = pod_uid, mi_container_id = container_id, mi_namespace = ci_namespace info,
          mi_pod_name = ci_pod_name info, mi_container_name = ci_container_name info, mi_image = ci_image info,
          mi_image_digest = ci_image_digest info, mi_restart_count = ci_restart_count info\<rparr>)"

definition build_core_ref :: "core_stats \<Rightarrow> string option \<Rightarrow> bool \<Rightarrow> core_ref" where
  "build_core_ref stats core_key rate_suppressed =
     (let uploaded = cs_sha256 stats \<noteq> None
      in \<lparr>cr_present = uploaded, cr_object_key = opt_filter (\<lambda>_. uploaded) core_key, cr_sha256 = cs_sha256 stats,
          cr_size_bytes = (if uploaded then Some (cs_bytes stats) else None),
          cr_stored_bytes = (if uploaded then Some (cs_stored_bytes stats) else None),
          cr_truncated = cs_truncated stats, cr_truncated_reason = cs_truncated_reason stats,
          cr_skipped_reason = (if rate_suppressed then Some ''rate_limit'' else None), cr_codec = ''zstd''\<rparr>)"

definition build_manifest ::
  "('z, 'b) capture_env \<Rightarrow> handler_config \<Rightarrow> capture_args \<Rightarrow> fs \<Rightarrow> proc_snapshot \<Rightarrow> manifest_identity \<Rightarrow> core_ref
     \<Rightarrow> string option \<Rightarrow> manifest" where
  "build_manifest env config args s snapshot identity core proc_snapshot_key =
     \<lparr>mf_schema_version = 1, mf_captured_at = format_timestamp (en_rfc3339 env) (ca_timestamp args),
      mf_cluster = hc_cluster config, mf_node = node_hostname (en_io env) s, mf_signal = ca_signal args,
      mf_signal_name = signal_name (ca_signal args), mf_exe = ca_exe args, mf_build_id = sn_build_id snapshot,
      mf_identity = identity, mf_core = core,
      mf_proc_snapshot = map_option (\<lambda>key.
        \<lparr>ps_object_key = key, ps_truncated = list_ex sf_truncated (sn_files snapshot),
         ps_file_count = of_nat (length (sn_files snapshot))\<rparr>) proc_snapshot_key\<rparr>"

definition manifest_stage ::
  "('z, 'b) capture_env \<Rightarrow> target \<Rightarrow> manifest \<Rightarrow> objects \<Rightarrow> string option option \<times> objects" where
  "manifest_stage env target m objs =
     (case target of
        None \<Rightarrow> (Some None, objs)
      | Some (_, keys) \<Rightarrow>
          (case en_json_pretty env (manifest_to_json m) of
             None \<Rightarrow> (Some None, objs)
           | Some json \<Rightarrow>
               (case put_object (en_path_of env) (en_put env) objs (key_manifest keys) json of
                  (None, objs') \<Rightarrow> (None, objs')
                | (Some True, objs') \<Rightarrow> (Some (Some (key_manifest keys)), objs')
                | (Some False, objs') \<Rightarrow> (Some None, objs'))))"

definition outcome_of :: "cgroup_identity option \<Rightarrow> bool \<Rightarrow> 's option \<Rightarrow> bool \<Rightarrow> outcome" where
  "outcome_of identity rate_suppressed store uploaded =
     (if identity = None then SkippedNonK8s
      else if rate_suppressed then SuppressedRateLimit
      else if store = None then NoStoreDiscard
      else if uploaded then Uploaded
      else Failed)"

definition failure_payload :: "('z, 'b) capture_env \<Rightarrow> capture_args \<Rightarrow> cgroup_identity option \<Rightarrow> drain_error \<Rightarrow> capture_event" where
  "failure_payload env args identity e =
     (base_payload args Failed)\<lparr>ce_pod_uid := map_option cg_pod_uid identity,
        ce_container_id := map_option cg_container_id identity,
        ce_error := Some (''draining core stream: '' @ en_drain_error env e)\<rparr>"

definition final_payload ::
  "capture_args \<Rightarrow> cgroup_identity option \<Rightarrow> manifest_identity \<Rightarrow> string option \<Rightarrow> core_stats \<Rightarrow> outcome \<Rightarrow> capture_event" where
  "final_payload args identity mi manifest_key stats oc =
     (base_payload args oc)\<lparr>ce_namespace := mi_namespace mi, ce_pod_name := mi_pod_name mi,
        ce_pod_uid := map_option cg_pod_uid identity, ce_container_id := map_option cg_container_id identity,
        ce_container_name := mi_container_name mi, ce_manifest_key := manifest_key, ce_core_bytes := cs_bytes stats,
        ce_stored_bytes := (if cs_sha256 stats \<noteq> None then Some (cs_stored_bytes stats) else None),
        ce_truncated := cs_truncated stats\<rparr>"

section \<open>\<open>run\<close>\<close>

text \<open>What follows a drain that succeeded: snapshot, enrichment, manifest, report.\<close>

definition finish_capture ::
  "('z, 'b) capture_env \<Rightarrow> handler_config \<Rightarrow> capture_args \<Rightarrow> proc_snapshot \<Rightarrow> cgroup_identity option \<Rightarrow> 's option
     \<Rightarrow> target \<Rightarrow> bool \<Rightarrow> core_stats \<Rightarrow> world \<Rightarrow> run_end \<times> world" where
  "finish_capture env config args snapshot identity store target rate_suppressed stats w =
     (case snapshot_stage env target snapshot (wo_objects w) of
        (None, objs1) \<Rightarrow> (RunHangs, w\<lparr>wo_objects := objs1\<rparr>)
      | (Some proc_snapshot_key, objs1) \<Rightarrow>
     (case crictl_stage env config identity of
        None \<Rightarrow> (RunHangs, w\<lparr>wo_objects := objs1\<rparr>)
      | Some container_info \<Rightarrow>
          (let mi = build_identity identity container_info;
               core_key = map_option (\<lambda>i. key_core (handler_keys config args i)) identity;
               m = build_manifest env config args (wo_fs w) snapshot mi
                     (build_core_ref stats core_key rate_suppressed) proc_snapshot_key;
               oc = outcome_of identity rate_suppressed store (cs_sha256 stats \<noteq> None)
           in case manifest_stage env target m objs1 of
                (None, objs2) \<Rightarrow> (RunHangs, w\<lparr>wo_objects := objs2\<rparr>)
              | (Some manifest_key, objs2) \<Rightarrow>
                  (RunOk, report env config (final_payload args identity mi manifest_key stats oc)
                     (w\<lparr>wo_objects := objs2\<rparr>)))))"

text \<open>
  \<open>capture\<close> gives a snapshot, panics (an overflow in a checked build) or, with a loop that does not
  end, nothing; it never gives \<open>Nothing\<close>, which the type has for the parts of the build-id reader.
\<close>

definition run ::
  "('u, 'k, 's) store_lib \<Rightarrow> ('z, 'b) capture_env \<Rightarrow> capture_args \<Rightarrow> handler_config \<Rightarrow> pipe \<Rightarrow> 's option \<Rightarrow> world
     \<Rightarrow> run_end \<times> world" where
  "run lib env args config core_in store_override w =
     (let redactor = (if hc_no_redact config then redactor_disabled else redactor_default)
      in case capture (en_chk env) (en_io env) (en_ls env) (wo_fs w) (hc_proc_root config) (ca_host_pid args) redactor of
           None \<Rightarrow> (RunHangs, w)
         | Some Panic \<Rightarrow> (RunPanics, w)
         | Some Nothing \<Rightarrow> (RunPanics, w)
         | Some (Got snapshot) \<Rightarrow>
      (let identity = read_cgroup_identity (en_io env) (wo_fs w) (hc_proc_root config) (ca_host_pid args);
           store = (case store_override of Some st \<Rightarrow> Some st | None \<Rightarrow> config_object_store lib config);
           keys = map_option (handler_keys config args) identity;
           target = handler_target identity store keys;
           ((rate_recorded, rate_suppressed), s1) = rate_stage env config args target (wo_fs w);
           (drained, objs1) = drain_stage env config target rate_suppressed core_in (wo_objects w);
           w1 = w\<lparr>wo_fs := s1, wo_objects := objs1\<rparr>
       in case drained of
            None \<Rightarrow> (RunHangs, w1)
          | Some (Inl e) \<Rightarrow>
              (let s2 = (case target of
                           Some (i, _) \<Rightarrow>
                             if rate_recorded
                             then refund (en_rate_codec env) (en_io env) (handler_limiter config) (cg_pod_uid i) (ca_timestamp args) s1
                             else s1
                         | None \<Rightarrow> s1)
               in (RunErr e, report env config (failure_payload env args identity e) (w1\<lparr>wo_fs := s2\<rparr>)))
          | Some (Inr stats) \<Rightarrow>
              finish_capture env config args snapshot identity store target rate_suppressed stats w1))"

section \<open>The stages, one by one\<close>

text \<open>The three keys of a capture differ.\<close>

lemma keys_distinct [simp]:
  "key_core k \<noteq> key_proc_snapshot k" "key_core k \<noteq> key_manifest k" "key_proc_snapshot k \<noteq> key_manifest k"
  "key_proc_snapshot k \<noteq> key_core k" "key_manifest k \<noteq> key_core k" "key_manifest k \<noteq> key_proc_snapshot k"
  by (simp_all add: key_core_def key_proc_snapshot_def key_manifest_def)

definition run_identity :: "('z, 'b) capture_env \<Rightarrow> capture_args \<Rightarrow> handler_config \<Rightarrow> world \<Rightarrow> cgroup_identity option" where
  "run_identity env args config w = read_cgroup_identity (en_io env) (wo_fs w) (hc_proc_root config) (ca_host_pid args)"

definition run_store :: "('u, 'k, 's) store_lib \<Rightarrow> handler_config \<Rightarrow> 's option \<Rightarrow> 's option" where
  "run_store lib config store_override =
     (case store_override of Some st \<Rightarrow> Some st | None \<Rightarrow> config_object_store lib config)"

definition run_target ::
  "('u, 'k, 's) store_lib \<Rightarrow> ('z, 'b) capture_env \<Rightarrow> capture_args \<Rightarrow> handler_config \<Rightarrow> 's option \<Rightarrow> world \<Rightarrow> target" where
  "run_target lib env args config so w =
     (case (run_identity env args config w, run_store lib config so) of
        (Some i, Some _) \<Rightarrow> Some (i, handler_keys config args i)
      | _ \<Rightarrow> None)"

lemma handler_target_eq:
  "handler_target (run_identity env args config w) (run_store lib config so)
     (map_option (handler_keys config args) (run_identity env args config w)) = run_target lib env args config so w"
  by (auto simp: handler_target_def run_target_def opt_zip_def split: option.split)

lemma run_captured:
  assumes "capture (en_chk env) (en_io env) (en_ls env) (wo_fs w) (hc_proc_root config) (ca_host_pid args)
        (if hc_no_redact config then redactor_disabled else redactor_default) = Some (Got snap)"
    and "rate_stage env config args (run_target lib env args config so w) (wo_fs w) = ((rec, supp), s1)"
    and "drain_stage env config (run_target lib env args config so w) supp p (wo_objects w) = (d, objs1)"
  shows "run lib env args config p so w =
    (case d of
       None \<Rightarrow> (RunHangs, w\<lparr>wo_fs := s1, wo_objects := objs1\<rparr>)
     | Some (Inl e) \<Rightarrow>
         (RunErr e, report env config (failure_payload env args (run_identity env args config w) e)
            (w\<lparr>wo_objects := objs1, wo_fs := (case run_target lib env args config so w of
               Some (i, _) \<Rightarrow> if rec then refund (en_rate_codec env) (en_io env) (handler_limiter config) (cg_pod_uid i) (ca_timestamp args) s1 else s1
             | None \<Rightarrow> s1)\<rparr>))
     | Some (Inr stats) \<Rightarrow>
         finish_capture env config args snap (run_identity env args config w) (run_store lib config so)
           (run_target lib env args config so w) supp stats (w\<lparr>wo_fs := s1, wo_objects := objs1\<rparr>))"
  unfolding run_def Let_def assms(1) option.case parsed.case run_identity_def [symmetric] run_store_def [symmetric]
    handler_target_eq assms(2,3) prod.case
  by (auto split: option.split sum.split)

text \<open>The ways a run can go.\<close>

lemma run_cases:
  assumes "run lib env args config p so w = (fin, w')"
  obtains (early) "fin = RunPanics \<or> fin = RunHangs" "w' = w"
  | (hung) rec supp s1 objs1 where
      "rate_stage env config args (run_target lib env args config so w) (wo_fs w) = ((rec, supp), s1)"
      "drain_stage env config (run_target lib env args config so w) supp p (wo_objects w) = (None, objs1)"
      "fin = RunHangs" "w' = w\<lparr>wo_fs := s1, wo_objects := objs1\<rparr>"
  | (failed) rec supp s1 objs1 e where
      "rate_stage env config args (run_target lib env args config so w) (wo_fs w) = ((rec, supp), s1)"
      "drain_stage env config (run_target lib env args config so w) supp p (wo_objects w) = (Some (Inl e), objs1)"
      "fin = RunErr e"
      "w' = report env config (failure_payload env args (run_identity env args config w) e)
        (w\<lparr>wo_objects := objs1, wo_fs := (case run_target lib env args config so w of
           Some (i, _) \<Rightarrow> if rec then refund (en_rate_codec env) (en_io env) (handler_limiter config) (cg_pod_uid i) (ca_timestamp args) s1 else s1
         | None \<Rightarrow> s1)\<rparr>)"
  | (drained) snap rec supp s1 objs1 stats where
      "capture (en_chk env) (en_io env) (en_ls env) (wo_fs w) (hc_proc_root config) (ca_host_pid args)
        (if hc_no_redact config then redactor_disabled else redactor_default) = Some (Got snap)"
      "rate_stage env config args (run_target lib env args config so w) (wo_fs w) = ((rec, supp), s1)"
      "drain_stage env config (run_target lib env args config so w) supp p (wo_objects w) = (Some (Inr stats), objs1)"
      "finish_capture env config args snap (run_identity env args config w) (run_store lib config so)
        (run_target lib env args config so w) supp stats (w\<lparr>wo_fs := s1, wo_objects := objs1\<rparr>) = (fin, w')"
proof -
  let ?cap = "capture (en_chk env) (en_io env) (en_ls env) (wo_fs w) (hc_proc_root config) (ca_host_pid args)
        (if hc_no_redact config then redactor_disabled else redactor_default)"
  let ?t = "run_target lib env args config so w"
  obtain rec supp s1 where rs: "rate_stage env config args ?t (wo_fs w) = ((rec, supp), s1)" by (metis prod.exhaust)
  obtain d objs1 where ds: "drain_stage env config ?t supp p (wo_objects w) = (d, objs1)" by fastforce
  show thesis
  proof (cases "\<exists>snap. ?cap = Some (Got snap)")
    case False
    with assms have "(fin = RunPanics \<or> fin = RunHangs) \<and> w' = w"
      by (auto simp: run_def Let_def split: option.splits parsed.splits)
    then show thesis using early by blast
  next
    case True
    then obtain snap where cap: "?cap = Some (Got snap)" by blast
    note r = run_captured [OF cap rs ds, symmetric, unfolded assms]
    show thesis
    proof (cases d)
      case None
      with r show thesis using hung rs ds by simp
    next
      case (Some x)
      show thesis
      proof (cases x)
        case (Inl e)
        with Some r show thesis using failed [OF rs] ds by simp
      next
        case (Inr stats)
        with Some r show thesis using drained [OF cap rs] ds by simp
      qed
    qed
  qed
qed

lemma finish_cases:
  assumes "finish_capture env config args snap identity store target supp stats w = (fin, w')"
  obtains (stopped) key objs1 where
      "snapshot_stage env target snap (wo_objects w) = (key, objs1)" "key = None \<or> crictl_stage env config identity = None"
      "fin = RunHangs" "w' = w\<lparr>wo_objects := objs1\<rparr>"
  | (unanswered) key objs1 info m objs2 where
      "snapshot_stage env target snap (wo_objects w) = (Some key, objs1)" "crictl_stage env config identity = Some info"
      "m = build_manifest env config args (wo_fs w) snap (build_identity identity info)
        (build_core_ref stats (map_option (\<lambda>i. key_core (handler_keys config args i)) identity) supp) key"
      "manifest_stage env target m objs1 = (None, objs2)" "fin = RunHangs" "w' = w\<lparr>wo_objects := objs2\<rparr>"
  | (reported) key objs1 info m mkey objs2 where
      "snapshot_stage env target snap (wo_objects w) = (Some key, objs1)" "crictl_stage env config identity = Some info"
      "m = build_manifest env config args (wo_fs w) snap (build_identity identity info)
        (build_core_ref stats (map_option (\<lambda>i. key_core (handler_keys config args i)) identity) supp) key"
      "manifest_stage env target m objs1 = (Some mkey, objs2)" "fin = RunOk"
      "w' = report env config (final_payload args identity (mf_identity m) mkey stats
        (outcome_of identity supp store (cs_sha256 stats \<noteq> None))) (w\<lparr>wo_objects := objs2\<rparr>)"
proof -
  obtain k objs1 where ss: "snapshot_stage env target snap (wo_objects w) = (k, objs1)" by fastforce
  show thesis
  proof (cases "k = None \<or> crictl_stage env config identity = None")
    case True
    with assms ss have "fin = RunHangs \<and> w' = w\<lparr>wo_objects := objs1\<rparr>"
      by (cases k) (auto simp: finish_capture_def)
    then show thesis using stopped [OF ss True] by blast
  next
    case False
    then obtain key info where ki: "k = Some key" "crictl_stage env config identity = Some info" by auto
    let ?m = "build_manifest env config args (wo_fs w) snap (build_identity identity info)
        (build_core_ref stats (map_option (\<lambda>i. key_core (handler_keys config args i)) identity) supp) key"
    obtain mk objs2 where ms: "manifest_stage env target ?m objs1 = (mk, objs2)" by fastforce
    have mi: "mf_identity ?m = build_identity identity info" by (simp add: build_manifest_def)
    show thesis
    proof (cases mk)
      case None
      with assms ss ki ms show thesis using unanswered [OF ss [unfolded ki] ki(2) refl] by (simp add: finish_capture_def)
    next
      case (Some mkey)
      with assms ss ki ms mi show thesis using reported [OF ss [unfolded ki] ki(2) refl] by (simp add: finish_capture_def)
    qed
  qed
qed

text \<open>The store after the end of a capture, whether or not the manifest's upload was answered.\<close>

lemma finish_objects:
  assumes "finish_capture env config args snap identity store target supp stats w = (fin, w')"
  obtains (stopped) key objs1 where
      "snapshot_stage env target snap (wo_objects w) = (key, objs1)" "wo_objects w' = objs1"
  | (manifest) key objs1 info m mkey where
      "snapshot_stage env target snap (wo_objects w) = (Some key, objs1)"
      "m = build_manifest env config args (wo_fs w) snap (build_identity identity info)
        (build_core_ref stats (map_option (\<lambda>i. key_core (handler_keys config args i)) identity) supp) key"
      "manifest_stage env target m objs1 = (mkey, wo_objects w')"
  using assms
proof (cases rule: finish_cases)
  case (reported key objs1 info m mkey objs2)
  then have "manifest_stage env target m objs1 = (Some mkey, wo_objects w')" by (simp add: report_def)
  with reported(1,3) show thesis by (rule manifest)
next
  case (unanswered key objs1 info m objs2)
  then have "manifest_stage env target m objs1 = (None, wo_objects w')" by simp
  with unanswered(1,3) show thesis by (rule manifest)
next
  case (stopped key objs1)
  then show thesis using that(1) by simp
qed

section \<open>An upload after the drain\<close>

lemma put_object_cases:
  assumes "put_object path_of answer store key bs = (ok, store')"
  shows "(k \<noteq> path_of key \<longrightarrow> store' k = store k) \<and> (ok = Some True \<longrightarrow> store' (path_of key) = Some bs) \<and>
    (store' (path_of key) = store (path_of key) \<or> store' (path_of key) = Some bs) \<and>
    (answer key = PutOk \<longrightarrow> ok = Some True) \<and> (ok = None \<longrightarrow> (\<exists>b. answer key = PutNever b))"
  using assms by (auto simp: put_object_def split: put_ev.splits if_splits)

text \<open>
  The contract that both uploads share: with a target, what can be rendered is put under one
  key, which is the result exactly when the store confirmed it.
\<close>

locale put_stage =
  fixes stage :: "target \<Rightarrow> 'a \<Rightarrow> objects \<Rightarrow> string option option \<times> objects" and key_of :: "object_keys \<Rightarrow> string"
    and render :: "'a \<Rightarrow> bytes option" and path_of :: "string \<Rightarrow> string" and answer :: "string \<Rightarrow> put_ev"
  assumes no_target: "stage None x objs = (Some None, objs)"
    and unrendered: "render x = None \<Longrightarrow> stage (Some (i, ks)) x objs = (Some None, objs)"
    and rendered: "render x = Some bs \<Longrightarrow> put_object path_of answer objs (key_of ks) bs = (ok, objs') \<Longrightarrow>
      stage (Some (i, ks)) x objs = (map_option (\<lambda>b. if b then Some (key_of ks) else None) ok, objs')"
begin

lemma stage_cases:
  assumes "stage target x objs = (r, objs')"
  obtains (untouched) "r = Some None" "objs' = objs" "target = None \<or> render x = None"
  | (put) i ks bs ok where "target = Some (i, ks)" "render x = Some bs" "put_object path_of answer objs (key_of ks) bs = (ok, objs')"
      "r = map_option (\<lambda>b. if b then Some (key_of ks) else None) ok"
proof (cases "target = None \<or> render x = None")
  case True
  with assms no_target unrendered have "r = Some None \<and> objs' = objs" by (cases target) auto
  with untouched True show thesis by blast
next
  case False
  then obtain i ks bs where t: "target = Some (i, ks)" "render x = Some bs" by (cases target) auto
  obtain ok objs2 where p: "put_object path_of answer objs (key_of ks) bs = (ok, objs2)" by fastforce
  from rendered [OF t(2) p, of i] t assms p show thesis using put by simp
qed

lemma frame:
  assumes "stage target x objs = (r, objs')" "\<And>i ks. target = Some (i, ks) \<Longrightarrow> k \<noteq> path_of (key_of ks)"
  shows "objs' k = objs k"
  using assms(1) by (cases rule: stage_cases) (use assms(2) put_object_cases in fastforce)+

lemma confirmed:
  assumes "stage target x objs = (Some (Some key), objs')"
  obtains i ks bs where "target = Some (i, ks)" "key = key_of ks" "render x = Some bs" "objs' (path_of key) = Some bs"
  using assms
proof (cases rule: stage_cases)
  case (put i ks bs ok)
  then have "ok = Some True \<and> key = key_of ks" by (cases ok) (auto split: if_splits)
  with put that put_object_cases [OF put(3)] show thesis by blast
qed simp

lemma appears:
  assumes "stage target x objs = (r, objs')" "target = Some (i, ks)"
    and "objs (path_of (key_of ks)) = None" "objs' (path_of (key_of ks)) = Some bs"
  shows "render x = Some bs"
  using assms(1)
proof (cases rule: stage_cases)
  case (put i' ks' bs' ok)
  with put_object_cases [OF put(3)] assms(2-4) show ?thesis by auto
qed (use assms in simp)

lemma stored:
  assumes "stage (Some (i, ks)) x objs = (r, objs')" "render x = Some bs" "answer (key_of ks) = PutOk"
  shows "objs' (path_of (key_of ks)) = Some bs"
  using assms(1)
proof (cases rule: stage_cases)
  case (put i' ks' bs' ok)
  with put_object_cases [OF put(3)] assms show ?thesis by auto
qed (use assms in simp)

lemma answered:
  assumes "stage target x objs = (r, objs')" "\<And>key b. answer key \<noteq> PutNever b"
  shows "r \<noteq> None"
  using assms(1)
proof (cases rule: stage_cases)
  case (put i ks bs ok)
  with put_object_cases [OF put(3)] assms(2) show ?thesis by auto
qed simp

lemma hangs:
  assumes "stage (Some (i, ks)) x objs = (r, objs')" "render x = Some bs" "answer (key_of ks) = PutNever b"
  shows "r = None"
  using assms rendered [OF assms(2), of objs ks _ _ i] by (auto simp: put_object_def)

end

interpretation snapshot_put: put_stage "snapshot_stage env" key_proc_snapshot "to_tar (en_tar env)" "en_path_of env" "en_put env" for env
  by unfold_locales (auto simp: snapshot_stage_def split: option.split bool.split)

interpretation manifest_put: put_stage "manifest_stage env" key_manifest "\<lambda>m. en_json_pretty env (manifest_to_json m)"
    "en_path_of env" "en_put env" for env
  by unfold_locales (auto simp: manifest_stage_def split: option.split bool.split)

section \<open>The drain\<close>

lemma drain_stage_discard:
  "supp \<or> target = None \<Longrightarrow> drain_stage env config target supp p objs = (discard_drain (hc_upload_deadline_secs config \<noteq> 0) p, objs)"
  by (cases supp) (simp_all add: drain_stage_def)

lemma drain_stage_frame:
  assumes "drain_stage env config target supp p objs = (r, objs')" "\<And>i ks. target = Some (i, ks) \<Longrightarrow> k \<noteq> en_path_of env (key_core ks)"
  shows "objs' k = objs k"
proof (cases "supp \<or> target = None")
  case False
  then obtain i ks where t: "target = Some (i, ks)" "\<not> supp" by auto
  with assms(2) have "k \<noteq> sb_key (standalone_new (en_path_of env) (key_core ks) m)" for m by (simp add: standalone_new_def)
  from standalone_drain_other [OF this] assms(1) t show ?thesis by (auto simp: drain_stage_def Let_def dest!: arg_cong [where f = snd])
qed (use assms(1) drain_stage_discard [of supp target env config p objs] in simp)

lemma discard_no_sha: "discard_drain deadline p = Some (Inr st) \<Longrightarrow> cs_sha256 st = None"
  by (auto simp: discard_drain_def discard_loop_stream split: prod.splits pipe_end.splits if_splits)

lemma drain_stage_discards:
  assumes "drain_stage env config target supp p objs = (r, objs')" "supp \<or> target = None"
  shows "objs' = objs \<and> (\<forall>st. r = Some (Inr st) \<longrightarrow> cs_sha256 st = None)"
  using assms(1) drain_stage_discard [OF assms(2), of env config p objs] discard_no_sha by auto

lemma drain_stage_stores:
  assumes "drain_stage env config (Some (i, ks)) False p objs = (Some (Inr st), objs')"
    and "length (fst (stream_of p)) < 2 ^ 64"
  obtains cs obj where "concat cs = capped (hc_max_core_bytes config) (fst (stream_of p))"
    "obj = z_stream (ue_zstd (en_upload env)) cs" "objs' = objs(en_path_of env (key_core ks) \<mapsto> obj)"
    "cs_sha256 st = Some (hex_lower (ue_sha256 (en_upload env) obj))" "cs_stored_bytes st = of_nat (length obj)"
    "cs_truncated_reason st = (if snd (stream_of p) = AtError then Some ''stream_error''
       else if hc_max_core_bytes config \<noteq> 0 \<and> unat (hc_max_core_bytes config) < length (fst (stream_of p)) then Some ''size_cap'' else None)"
proof -
  let ?sb = "standalone_new (en_path_of env) (key_core ks) (hc_max_core_bytes config)"
  from assms(1) have "standalone_drain (en_upload env) ?sb (hc_upload_deadline_secs config \<noteq> 0) p objs = (Some (Inr st), objs')"
    by (simp add: drain_stage_def)
  from assms(2) this obtain cs obj where
    "concat cs = take (unat (core_cap (sb_max_core_bytes ?sb))) (fst (stream_of p))"
    "obj = z_stream (ue_zstd (en_upload env)) cs" "objs' = objs(sb_key ?sb \<mapsto> obj)"
    "st = standalone_stats (of_nat (length (fst (stream_of p))), of_nat (length obj), hex_lower (ue_sha256 (en_upload env) obj),
       expected_reason (core_cap (sb_max_core_bytes ?sb)) (fst (stream_of p)) (snd (stream_of p)))"
    by (rule standalone_drain_ok)
  with capped_take [OF assms(2)] assms(2) show thesis
    by (intro that) (simp_all add: standalone_new_def standalone_stats_def expected_reason_def unat_core_cap)
qed

lemma build_core_ref_simps [simp]:
  "cr_present (build_core_ref stats key supp) \<longleftrightarrow> cs_sha256 stats \<noteq> None"
  "cr_object_key (build_core_ref stats key supp) = opt_filter (\<lambda>_. cs_sha256 stats \<noteq> None) key"
  "cr_sha256 (build_core_ref stats key supp) = cs_sha256 stats"
  "cr_stored_bytes (build_core_ref stats key supp) = (if cs_sha256 stats \<noteq> None then Some (cs_stored_bytes stats) else None)"
  "cr_skipped_reason (build_core_ref stats key supp) = (if supp then Some ''rate_limit'' else None)"
  "cr_truncated (build_core_ref stats key supp) = cs_truncated stats"
  "cr_truncated_reason (build_core_ref stats key supp) = cs_truncated_reason stats"
  by (simp_all add: build_core_ref_def Let_def)

lemma build_manifest_simps [simp]:
  "mf_core (build_manifest env config args s snap mi core key) = core"
  "mf_identity (build_manifest env config args s snap mi core key) = mi"
  "mf_proc_snapshot (build_manifest env config args s snap mi core key) = Some ref \<longleftrightarrow>
     key = Some (ps_object_key ref) \<and> ps_truncated ref = list_ex sf_truncated (sn_files snap) \<and>
     ps_file_count ref = of_nat (length (sn_files snap))"
  by (auto simp: build_manifest_def)

text \<open>A core reference that says a core is present describes the object that the drain stored.\<close>

definition core_ref_sound ::
  "('z, 'b) capture_env \<Rightarrow> handler_config \<Rightarrow> (bytes \<Rightarrow> bytes option) \<Rightarrow> pipe \<Rightarrow> object_keys \<Rightarrow> objects \<Rightarrow> core_ref \<Rightarrow> bool" where
  "core_ref_sound env config decode p ks objs c \<longleftrightarrow>
     (cr_present c \<longrightarrow> cr_object_key c = Some (key_core ks) \<and>
      (\<exists>obj. objs (en_path_of env (key_core ks)) = Some obj \<and>
        decode obj = Some (capped (hc_max_core_bytes config) (fst (stream_of p))) \<and>
        cr_sha256 c = Some (hex_lower (ue_sha256 (en_upload env) obj)) \<and>
        cr_stored_bytes c = Some (of_nat (length obj))))"

lemma core_ref_sound_drained:
  assumes "drain_stage env config (Some (i, ks)) supp p objs = (Some (Inr stats), objs1)"
    and "zstd_ok (ue_zstd (en_upload env)) decode" "length (fst (stream_of p)) < 2 ^ 64"
  shows "core_ref_sound env config decode p ks objs1 (build_core_ref stats (Some (key_core ks)) supp)"
proof (cases "cs_sha256 stats")
  case (Some sha)
  with drain_stage_discards [OF assms(1)] have "\<not> supp" by auto
  with assms(1) have "drain_stage env config (Some (i, ks)) False p objs = (Some (Inr stats), objs1)" by simp
  from this assms(3) obtain cs obj where
    "concat cs = capped (hc_max_core_bytes config) (fst (stream_of p))" "obj = z_stream (ue_zstd (en_upload env)) cs"
    "objs1 = objs(en_path_of env (key_core ks) \<mapsto> obj)"
    "cs_sha256 stats = Some (hex_lower (ue_sha256 (en_upload env) obj))" "cs_stored_bytes stats = of_nat (length obj)"
    by (rule drain_stage_stores)
  with assms(2) show ?thesis by (simp add: core_ref_sound_def opt_filter_def zstd_ok_def)
qed (simp add: core_ref_sound_def)

lemma standalone_ok_sha:
  "fst (standalone_drain env sb d p store) = Some (Inr st) \<Longrightarrow> cs_sha256 st \<noteq> None"
  by (auto simp: standalone_drain_def standalone_stats_def split: option.splits prod.splits sum.splits)

text \<open>With a deadline and a timeout, every stage returns.\<close>

lemma drain_stage_returns:
  assumes "drain_stage env config target supp p objs = (d, objs')" "hc_upload_deadline_secs config \<noteq> 0"
    and "ue_abort_returns (en_upload env)"
  shows "d \<noteq> None"
proof (cases "supp \<or> target = None")
  case True
  from drain_stage_discard [OF this, of env config p objs] assms discard.deadline_returns [of p] show ?thesis by auto
next
  case False
  then obtain i ks where t: "target = Some (i, ks)" "\<not> supp" by auto
  with assms have "d = fst (standalone_drain (en_upload env) (standalone_new (en_path_of env) (key_core ks) (hc_max_core_bytes config)) True p objs)"
    by (simp add: drain_stage_def)
  moreover have "(en_upload env)\<lparr>ue_abort_returns := True\<rparr> = en_upload env" using assms(3) by simp
  ultimately show ?thesis using answered.deadline_returns [of "en_upload env" _ p objs] by fastforce
qed

lemma finish_capture_ends:
  assumes "hc_crictl_timeout_secs config \<noteq> 0" "\<And>key b. en_put env key \<noteq> PutNever b"
    and "finish_capture env config args snap identity store target supp stats w = (fin, w')"
  shows "fin = RunOk"
  using assms(3)
proof (cases rule: finish_cases)
  case (stopped key objs1)
  have "crictl_stage env config identity \<noteq> None"
    using inspect_returns [OF assms(1)] by (auto simp: crictl_stage_def split: option.split)
  with stopped snapshot_put.answered [OF stopped(1) assms(2)] show ?thesis by auto
next
  case (unanswered key objs1 info m objs2)
  with manifest_put.answered [OF unanswered(4) assms(2)] show ?thesis by simp
qed simp

text \<open>A drain that succeeds has a digest exactly when it went to the store.\<close>

lemma drain_stage_sha:
  assumes "drain_stage env config target supp p objs = (Some (Inr st), objs')"
  shows "cs_sha256 st \<noteq> None \<longleftrightarrow> \<not> supp \<and> target \<noteq> None"
proof (cases "supp \<or> target = None")
  case False
  then obtain i ks where t: "target = Some (i, ks)" "\<not> supp" by auto
  with assms have "fst (standalone_drain (en_upload env) (standalone_new (en_path_of env) (key_core ks) (hc_max_core_bytes config))
      (hc_upload_deadline_secs config \<noteq> 0) p objs) = Some (Inr st)" by (simp add: drain_stage_def)
  from standalone_ok_sha [OF this] t show ?thesis by simp
qed (use drain_stage_discards [OF assms] in auto)

lemma rate_stage_exclusive: "rate_stage env config args target s = ((rec, supp), s') \<Longrightarrow> \<not> (rec \<and> supp) \<and> (target = None \<longrightarrow> \<not> rec \<and> \<not> supp \<and> s' = s)"
  by (auto simp: rate_stage_def split: option.splits prod.splits rate_decision.splits)

lemma report_sent: "wo_sent (report env config payload w) = wo_sent w @
    send_capture_event (\<lambda>p. en_json_print env (payload_to_json p)) (en_net env) (hc_event_socket_path config) payload"
  and report_frame [simp]: "wo_objects (report env config payload w) = wo_objects w" "wo_fs (report env config payload w) = wo_fs w"
  by (simp_all add: report_def)

text \<open>Every run that returns makes one report, which carries the crash it was started for.\<close>

lemma run_target_None: "run_target lib env args config so w = None \<longleftrightarrow>
    run_identity env args config w = None \<or> run_store lib config so = None"
  by (auto simp: run_target_def split: option.splits)

definition payload_of_args :: "capture_args \<Rightarrow> capture_event \<Rightarrow> bool" where
  "payload_of_args args pl \<longleftrightarrow> ce_host_pid pl = ca_host_pid args \<and> ce_exe pl = ca_exe args \<and> ce_signal pl = ca_signal args \<and>
     ce_signal_name pl = signal_name (ca_signal args) \<and> ce_timestamp pl = ca_timestamp args"

lemma payload_of_args_simps [simp]:
  "payload_of_args args (failure_payload env args i e)" "payload_of_args args (final_payload args i mi mk st oc)"
  by (simp_all add: payload_of_args_def failure_payload_def final_payload_def base_payload_def)

lemma run_reports:
  assumes "run lib env args config p so w = (fin, w')" "fin = RunOk \<or> fin = RunErr e"
  shows "\<exists>pl. wo_sent w' = wo_sent w @
      send_capture_event (\<lambda>p. en_json_print env (payload_to_json p)) (en_net env) (hc_event_socket_path config) pl \<and>
    payload_of_args args pl \<and> (ce_outcome pl = Failed \<longleftrightarrow> fin = RunErr e)"
  using assms(1)
proof (cases rule: run_cases)
  case (failed rec supp s1 objs1 e')
  have "ce_outcome (failure_payload env args i e') = Failed" for i by (simp add: failure_payload_def base_payload_def)
  with failed assms(2) show ?thesis by (intro exI [of _ "failure_payload env args (run_identity env args config w) e'"]) (simp add: report_sent)
next
  case (drained snap rec supp s1 objs1 stats)
  let ?i = "run_identity env args config w" and ?st = "run_store lib config so"
  have "outcome_of ?i supp ?st (cs_sha256 stats \<noteq> None) \<noteq> Failed"
    using drain_stage_sha [OF drained(3)] by (auto simp: outcome_of_def run_target_None)
  moreover have "ce_outcome (final_payload args ?i mi mk stats oc) = oc" for mi mk oc by (simp add: final_payload_def base_payload_def)
  moreover from drained(4) obtain mi mk objs where "fin = RunOk"
    "w' = report env config (final_payload args ?i mi mk stats (outcome_of ?i supp ?st (cs_sha256 stats \<noteq> None))) (w\<lparr>wo_fs := s1, wo_objects := objs\<rparr>)"
    using assms(2) by (cases rule: finish_cases) auto
  ultimately show ?thesis
    by (intro exI [of _ "final_payload args ?i mi mk stats (outcome_of ?i supp ?st (cs_sha256 stats \<noteq> None))"]) (simp add: report_sent del: not_None_eq)
qed (use assms(2) in auto)

text \<open>Arguments that parse are in the range of their types.\<close>

lemma capture_args_range:
  assumes "capture_args_parse argv = Inr args"
  shows "i32_min \<le> ca_host_pid args \<and> ca_host_pid args \<le> i32_max \<and> i32_min \<le> ca_signal args \<and> ca_signal args \<le> i32_max \<and>
    i64_min \<le> ca_timestamp args \<and> ca_timestamp args \<le> i64_max \<and> utf8_valid (ca_exe args)"
  using assms
  by (auto simp: capture_args_parse_def parse_number_def utf8_lossy_valid split: list.splits option.splits if_splits dest!: parse_signed_range)

end
