(* ===== verification/Capture_Flow.thy ===== *)
theory Capture_Flow
  imports Handler
begin

text \<open>
  Properties of a whole capture (\<open>src/handler.rs\<close>, function \<open>run\<close>): what a run leaves in the store
  and in the limiter's file, what it reports, and that it ends. An example capture comes first,
  on which the properties are then evaluated.
\<close>

section \<open>An example capture\<close>

definition example_cgroup :: string where
  "example_cgroup = ''0::/kubepods/pod12-ab/'' @ replicate 64 (CHR ''a'')"

definition example_identity :: cgroup_identity where
  "example_identity = \<lparr>cg_pod_uid = ''12-ab'', cg_container_id = replicate 64 (CHR ''a'')\<rparr>"

text \<open>A rate-state codec that knows two states, which it prints as \<open>A\<close> and \<open>B\<close>, and reads \<open>J\<close> as a third.\<close>

definition example_codec2 :: "rate_state \<Rightarrow> rate_state \<Rightarrow> rate_state \<Rightarrow> rate_codec" where
  "example_codec2 j a b =
     \<lparr>rc_parse = (\<lambda>t. if t = ''A'' then Some a else if t = ''B'' then Some b else if t = ''J'' then Some j else None),
      rc_print = (\<lambda>st. if st = a then Some ''A'' else if st = b then Some ''B'' else None)\<rparr>"

abbreviation example_codec0 :: rate_codec where
  "example_codec0 \<equiv> example_codec2 rate_default rate_default rate_default"

text \<open>The report of a capture of this container whose core never came, and a text form for it.\<close>

definition example_report :: capture_event where
  "example_report =
     \<lparr>ce_namespace = None, ce_pod_name = None, ce_pod_uid = Some ''12-ab'', ce_container_id = Some (replicate 64 (CHR ''a'')),
      ce_container_name = None, ce_host_pid = 7, ce_exe = ''!bin!app'', ce_signal = 11, ce_signal_name = Some ''SIGSEGV'',
      ce_outcome = Failed, ce_manifest_key = None, ce_core_bytes = 0, ce_stored_bytes = None, ce_truncated = False,
      ce_error = Some ''draining core stream: late'', ce_timestamp = 1000\<rparr>"

definition example_print :: "json \<Rightarrow> bytes option" where
  "example_print v = (if v = payload_to_json example_report then Some ''E'' else None)"

definition example_unprint :: "bytes \<Rightarrow> json option" where
  "example_unprint b = (if b = ''E'' then Some (payload_to_json example_report) else None)"

definition example_capture_env :: "rate_codec \<Rightarrow> (nat, unit) capture_env" where
  "example_capture_env c =
     \<lparr>en_chk = False, en_io = no_faults, en_ls = (\<lambda>_. None), en_rate_codec = c, en_upload = example_env [] CloseOk,
      en_path_of = id, en_put = (\<lambda>_. PutOk),
      en_tar = \<lparr>tl_new = (), tl_append_data = (\<lambda>_ _ _ _. Some ()), tl_into_inner = (\<lambda>_. Some ''T'')\<rparr>,
      en_crictl = (\<lambda>_. CmdFails 0), en_json_parse = (\<lambda>_. None), en_json_pretty = (\<lambda>_. Some ''J''),
      en_json_print = example_print,
      en_net = \<lparr>dg_unbound_ok = True, dg_nonblocking_ok = True, dg_delivers = (\<lambda>_ _. True)\<rparr>,
      en_rfc3339 = (\<lambda>_. None), en_drain_error = (\<lambda>_. ''late'')\<rparr>"

definition example_args :: capture_args where
  "example_args = \<lparr>ca_host_pid = 7, ca_signal = 11, ca_timestamp = 1000, ca_exe = ''!bin!app''\<rparr>"

definition example_config :: "u32 \<Rightarrow> handler_config" where
  "example_config m = handler_config_default\<lparr>hc_max_cores_per_hour := m, hc_rate_state_path := ''/r'',
     hc_event_socket_path := Some ''/run/e''\<rparr>"

definition example_world :: world where
  "example_world = \<lparr>wo_fs = [''/'' \<mapsto> Dir mode_755, ''/r'' \<mapsto> File ''J'' mode_644, ''/proc/7/cgroup'' \<mapsto> File example_cgroup mode_644],
     wo_objects = Map.empty, wo_sent = []\<rparr>"

abbreviation example_run :: "rate_codec \<Rightarrow> u32 \<Rightarrow> pipe \<Rightarrow> run_end \<times> world" where
  "example_run c m p \<equiv> run example_lib (example_capture_env c) example_args (example_config m) p (Some ''s'') example_world"

lemma example_config_simps [simp]:
  "hc_proc_root (example_config m) = ''/proc''" "hc_no_redact (example_config m) = False"
  "hc_max_cores_per_hour (example_config m) = m" "hc_rate_state_path (example_config m) = ''/r''"
  "hc_event_socket_path (example_config m) = Some ''/run/e''" "hc_max_core_bytes (example_config m) = 2147483648"
  "hc_upload_deadline_secs (example_config m) = 300" "hc_crictl_timeout_secs (example_config m) = 10"
  by (simp_all add: example_config_def handler_config_default_def DEFAULT_PROC_ROOT_def DEFAULT_MAX_CORE_BYTES_def
      DEFAULT_UPLOAD_DEADLINE_SECS_def DEFAULT_CRICTL_TIMEOUT_SECS_def)

lemma example_env_simps [simp]:
  "en_chk (example_capture_env c) = False" "en_io (example_capture_env c) = no_faults" "en_ls (example_capture_env c) = (\<lambda>_. None)"
  "en_path_of (example_capture_env c) = id" "en_put (example_capture_env c) = (\<lambda>_. PutOk)"
  "en_json_pretty (example_capture_env c) = (\<lambda>_. Some ''J'')" "en_json_print (example_capture_env c) = example_print"
  "en_upload (example_capture_env c) = example_env [] CloseOk" "en_rate_codec (example_capture_env c) = c"
  "ca_host_pid example_args = 7" "ca_timestamp example_args = 1000" "wo_objects example_world = Map.empty" "wo_sent example_world = []"
  by (simp_all add: example_capture_env_def example_args_def example_world_def)

lemma example_paths_7:
  "path_join (path_join ''/proc'' (show_int 7)) ''cgroup'' = ''/proc/7/cgroup''" "proc_base ''/proc'' 7 = ''/proc/7''"
  "map (path_join ''/proc/7'') (SIMPLE_FILES @ [''environ'', ''cmdline'', ''fd'', ''exe'']) =
    [''/proc/7/maps'', ''/proc/7/smaps'', ''/proc/7/status'', ''/proc/7/limits'', ''/proc/7/stack'', ''/proc/7/environ'',
     ''/proc/7/cmdline'', ''/proc/7/fd'', ''/proc/7/exe'']"
  by code_simp+

lemma example_parse: "parse_cgroup example_cgroup = Some example_identity" "utf8_valid example_cgroup"
  by code_simp+

lemma example_run_identity: "run_identity (example_capture_env c) example_args (example_config m) example_world = Some example_identity"
  by (simp add: run_identity_def read_cgroup_identity_def example_paths_7
      example_world_def read_to_string_def fs_read_def node_at_plain example_parse)

lemma example_capture:
  "capture False no_faults (\<lambda>_. None) (wo_fs example_world) ''/proc'' 7 redactor_default =
    Some (Got \<lparr>sn_host_pid = 7, sn_build_id = None, sn_files = []\<rparr>)"
  using example_paths_7
  by (simp add: capture_def capture_files_def SIMPLE_FILES_def read_capped_def fs_read_def node_at_plain example_world_def
      snapshot_entry_def read_fd_listing_def read_link_def build_id_from_path_def)

definition example_keys :: object_keys where
  "example_keys = handler_keys (example_config 0) example_args example_identity"

lemma example_keys_eq: "handler_keys (example_config m) example_args example_identity = example_keys"
  by (simp add: example_keys_def handler_keys_def example_config_def)

lemma example_target:
  "run_target example_lib (example_capture_env c) example_args (example_config m) (Some ''s'') example_world =
    Some (example_identity, example_keys)"
  by (simp add: run_target_def example_run_identity run_store_def example_keys_eq)

lemma example_unlimited:
  "rate_stage (example_capture_env c) (example_config 0) example_args (Some (example_identity, example_keys)) s = ((True, False), s)"
  by (simp add: rate_stage_def check_and_record_def handler_limiter_def)

lemmas example_run_captured = run_captured
  [where lib = example_lib and env = "example_capture_env c" and args = example_args and config = "example_config m"
    and so = "Some ''s''" and w = example_world and snap = "\<lparr>sn_host_pid = 7, sn_build_id = None, sn_files = []\<rparr>" for c m,
   simplified, OF example_capture, unfolded example_target]

lemma example_drain_ok:
  "\<exists>st. drain_stage (example_capture_env c) (example_config m) (Some (example_identity, example_keys)) False [Data ''ab''] Map.empty =
    (Some (Inr st), [key_core example_keys \<mapsto> ''ab.''])"
  by (simp add: drain_stage_def standalone_new_def standalone_drain_def stream_core_through_zstd_def core_loop.simps CORE_READ_CHUNK_def core_cap_def
      encoder_write_all_def encoder_shutdown_def push.simps hw_poll_write_def bw_poll_write_def hw_poll_shutdown_def
      bw_shutdown_def fresh_writer_def example_env_def stored_zstd_def saturating_sub_def Let_def standalone_stats_def bw_object_def)

lemma example_drain_stalled:
  "\<exists>o1. drain_stage (example_capture_env c) (example_config m) (Some (example_identity, example_keys)) False [Stall] Map.empty =
    (Some (Inl DeadlineExceeded), o1)"
  by (simp add: drain_stage_def standalone_new_def standalone_drain_def stream_core_through_zstd_def core_loop.simps core_cap_def
      fresh_writer_def example_env_def stored_zstd_def Let_def)

text \<open>After a drain that succeeded, the example run writes its manifest and reports.\<close>

lemma example_finish:
  "\<exists>w'. finish_capture (example_capture_env c) (example_config m) example_args \<lparr>sn_host_pid = 7, sn_build_id = None, sn_files = []\<rparr>
      (Some example_identity) st (Some (example_identity, example_keys)) supp stats w = (RunOk, w') \<and>
    wo_objects w' (key_manifest example_keys) = Some ''J''"
  by (simp add: finish_capture_def snapshot_stage_def to_tar_def truncated_names_def crictl_stage_def inspect_def run_command_def
      crictl_timeout_def example_capture_env_def manifest_stage_def put_object_def Let_def)

lemma example_run_ok:
  "\<exists>w'. example_run c 0 [Data ''ab''] = (RunOk, w') \<and> wo_objects w' (key_manifest example_keys) = Some ''J''"
proof -
  from example_drain_ok [of c 0] obtain st where
    d: "drain_stage (example_capture_env c) (example_config 0) (Some (example_identity, example_keys)) False [Data ''ab''] Map.empty =
      (Some (Inr st), [key_core example_keys \<mapsto> ''ab.''])" by blast
  show ?thesis
    unfolding example_run_captured [OF example_unlimited d] option.case sum.case example_run_identity by (rule example_finish)
qed

lemma example_run_stalled:
  assumes "rate_stage (example_capture_env c) (example_config m) example_args (Some (example_identity, example_keys)) (wo_fs example_world) =
    ((rec, False), s1)"
  shows "\<exists>w'. example_run c m [Stall] = (RunErr DeadlineExceeded, w') \<and> wo_sent w' = [(''/run/e'', ''E'')]"
proof -
  from example_drain_stalled [of c m] obtain o1 where
    d: "drain_stage (example_capture_env c) (example_config m) (Some (example_identity, example_keys)) False [Stall] Map.empty =
      (Some (Inl DeadlineExceeded), o1)" by blast
  have "failure_payload (example_capture_env c) example_args (Some example_identity) DeadlineExceeded = example_report"
    by (simp add: failure_payload_def base_payload_def example_report_def signal_name_def example_identity_def)
      (simp add: example_capture_env_def example_args_def)
  then show ?thesis unfolding example_run_captured [OF assms d] example_run_identity
    by (simp add: report_sent send_capture_event_def example_print_def) (simp add: example_capture_env_def)
qed

section \<open>Properties of a capture\<close>

text \<open>What the end of a capture may put under the manifest's key, when the drain went to \<open>objs1\<close>.\<close>

lemma finish_manifest:
  assumes fin: "finish_capture env config args snap (Some i) store target supp stats w = (fin, w')"
    and t: "target = None \<or> target = Some (i, ks)" and k: "ks = handler_keys config args i"
    and inj: "inj_on (en_path_of env) {key_core ks, key_proc_snapshot ks, key_manifest ks}"
    and core: "target = Some (i, ks) \<Longrightarrow> core_ref_sound env config decode p ks (wo_objects w) (build_core_ref stats (Some (key_core ks)) supp)"
    and fresh: "wo_objects w (en_path_of env (key_manifest ks)) = None"
    and written: "wo_objects w' (en_path_of env (key_manifest ks)) = Some json"
  shows "\<exists>m. en_json_pretty env (manifest_to_json m) = Some json \<and> core_ref_sound env config decode p ks (wo_objects w') (mf_core m) \<and>
    (\<forall>ref. mf_proc_snapshot m = Some ref \<longrightarrow>
      (\<exists>tar. wo_objects w' (en_path_of env (ps_object_key ref)) = Some tar \<and> to_tar (en_tar env) snap = Some tar))"
  using fin
proof (cases rule: finish_objects)
  case (stopped key objs2)
  have "objs2 (en_path_of env (key_manifest ks)) = None"
    using snapshot_put.frame [OF stopped(1)] fresh t inj by (fastforce simp: inj_on_def)
  with stopped(2) written show ?thesis by simp
next
  case (manifest key objs2 info m mkey)
  let ?path = "en_path_of env"
  have ne: "?path (key_core ks) \<noteq> ?path (key_manifest ks)" "?path (key_core ks) \<noteq> ?path (key_proc_snapshot ks)"
    "?path (key_proc_snapshot ks) \<noteq> ?path (key_manifest ks)"
    using inj by (auto simp: inj_on_def)
  have m0: "objs2 (?path (key_manifest ks)) = None"
    using snapshot_put.frame [OF manifest(1), of "?path (key_manifest ks)"] fresh t ne(3) by fastforce
  have tgt: "target = Some (i, ks)" using t m0 written manifest(3) by (auto simp: manifest_stage_def)
  have js: "en_json_pretty env (manifest_to_json m) = Some json"
    using manifest_put.appears [OF manifest(3) tgt m0 written] .
  have keep: "wo_objects w' x = objs2 x" if "x \<noteq> ?path (key_manifest ks)" for x
    using manifest_put.frame [OF manifest(3)] tgt that by auto
  have "wo_objects w' (?path (key_core ks)) = wo_objects w (?path (key_core ks))"
    using keep [OF ne(1)] snapshot_put.frame [OF manifest(1), of "?path (key_core ks)"] tgt ne(2) by fastforce
  with core [OF tgt] k have "core_ref_sound env config decode p ks (wo_objects w') (mf_core m)"
    by (simp add: manifest(2) core_ref_sound_def)
  moreover have "\<exists>tar. wo_objects w' (?path (ps_object_key ref)) = Some tar \<and> to_tar (en_tar env) snap = Some tar"
    if "mf_proc_snapshot m = Some ref" for ref
  proof -
    from that manifest(2) have "key = Some (ps_object_key ref)" by simp
    with manifest(1) have "snapshot_stage env target snap (wo_objects w) = (Some (Some (ps_object_key ref)), objs2)" by simp
    from snapshot_put.confirmed [OF this] tgt keep ne(3) show ?thesis by (metis option.inject prod.inject)
  qed
  ultimately show ?thesis using js by blast
qed

text \<open>
  C1. A manifest never points at a missing core. Whatever the pipe, the store, the network and
  the file system do: a manifest that a run has put into the store is the serialised form of a
  manifest \<open>m\<close> such that, when \<open>m\<close> says that a core is present, the store holds under its key an
  object that decompresses to the crashed process's core (cut at the size cap), with the digest
  and the size that \<open>m\<close> gives; and the snapshot that \<open>m\<close> refers to, if any, is in the store and is
  the archive of the snapshot taken before the drain.
\<close>

theorem manifest_never_dangles:
  assumes r: "run lib env args config p so w = (fin, w')"
    and i: "run_identity env args config w = Some i" and k: "ks = handler_keys config args i"
    and inj: "inj_on (en_path_of env) {key_core ks, key_proc_snapshot ks, key_manifest ks}"
    and z: "zstd_ok (ue_zstd (en_upload env)) decode" and len: "length (fst (stream_of p)) < 2 ^ 64"
    and fresh: "wo_objects w (en_path_of env (key_manifest ks)) = None"
    and written: "wo_objects w' (en_path_of env (key_manifest ks)) = Some json"
  shows "\<exists>m. en_json_pretty env (manifest_to_json m) = Some json \<and>
    core_ref_sound env config decode p ks (wo_objects w') (mf_core m) \<and>
    (\<forall>ref. mf_proc_snapshot m = Some ref \<longrightarrow>
      (\<exists>snap tar. wo_objects w' (en_path_of env (ps_object_key ref)) = Some tar \<and> to_tar (en_tar env) snap = Some tar \<and>
        capture (en_chk env) (en_io env) (en_ls env) (wo_fs w) (hc_proc_root config) (ca_host_pid args)
          (if hc_no_redact config then redactor_disabled else redactor_default) = Some (Got snap)))"
proof -
  let ?t = "run_target lib env args config so w"
  have t: "?t = None \<or> ?t = Some (i, ks)" using i k by (auto simp: run_target_def split: option.splits)
  have drain: "objs1 (en_path_of env (key_manifest ks)) = None"
    if "drain_stage env config ?t supp p (wo_objects w) = (d, objs1)" for supp d objs1
    using drain_stage_frame [OF that] fresh t inj by (fastforce simp: inj_on_def)
  from r show ?thesis
  proof (cases rule: run_cases)
    case (drained snap rec supp s1 objs1 stats)
    have "?t = Some (i, ks) \<Longrightarrow> core_ref_sound env config decode p ks objs1 (build_core_ref stats (Some (key_core ks)) supp)"
      using core_ref_sound_drained [OF _ z len] drained(3) by simp
    with finish_manifest [OF drained(4) [unfolded i] t k inj, of decode p json] drain [OF drained(3)] written drained(1)
    show ?thesis by fastforce
  next
    case (hung rec supp s1 objs1)
    with drain [OF hung(2)] written show ?thesis by simp
  next
    case (failed rec supp s1 objs1 e)
    with drain [OF failed(2)] written show ?thesis by simp
  qed (use fresh written in simp)
qed

theorem manifest_never_dangles_witness:
  "\<exists>(m :: manifest) w'. example_run (example_codec0) 0 [Data ''ab''] = (RunOk, w') \<and>
     core_ref_sound (example_capture_env (example_codec0)) (example_config 0) stored_decode [Data ''ab''] example_keys (wo_objects w') (mf_core m)"
proof -
  from example_run_ok obtain w' where w': "example_run (example_codec0) 0 [Data ''ab''] = (RunOk, w')" "wo_objects w' (key_manifest example_keys) = Some ''J''"
    by blast
  have z: "zstd_ok (ue_zstd (en_upload (example_capture_env (example_codec0)))) stored_decode" by (simp add: example_env_def stored_zstd_ok)
  from manifest_never_dangles [OF w'(1) example_run_identity example_keys_eq [symmetric] _ z, of "''J''"] w'(2) obtain m :: manifest where
    "core_ref_sound (example_capture_env (example_codec0)) (example_config 0) stored_decode [Data ''ab''] example_keys (wo_objects w') (mf_core m)"
    by auto
  with w'(1) show ?thesis by blast
qed

text \<open>
  A failed drain is reported once and leaves no record: no snapshot and no manifest is
  written (at most the core's own key can have changed), and exactly one report goes out, with
  outcome \<open>failed\<close>, the identity known so far, and the reason.
\<close>

theorem failed_capture_reported:
  assumes "run lib env args config p so w = (RunErr e, w')"
  shows "(\<forall>k. (\<forall>i. run_identity env args config w = Some i \<longrightarrow> k \<noteq> en_path_of env (key_core (handler_keys config args i))) \<longrightarrow>
      wo_objects w' k = wo_objects w k) \<and>
    (\<exists>pl. wo_sent w' = wo_sent w @
        send_capture_event (\<lambda>p. en_json_print env (payload_to_json p)) (en_net env) (hc_event_socket_path config) pl \<and>
      ce_outcome pl = Failed \<and> ce_error pl = Some (''draining core stream: '' @ en_drain_error env e) \<and>
      ce_manifest_key pl = None \<and> ce_pod_uid pl = map_option cg_pod_uid (run_identity env args config w))"
proof -
  from assms show ?thesis
  proof (cases rule: run_cases)
    case (failed rec supp s1 objs1 e')
    have "wo_objects w' k = wo_objects w k"
      if "\<And>i. run_identity env args config w = Some i \<Longrightarrow> k \<noteq> en_path_of env (key_core (handler_keys config args i))" for k
      using drain_stage_frame [OF failed(2), of k] that failed(4)
      by (auto simp: run_target_def split: option.splits)
    moreover have "ce_outcome (failure_payload env args x e) = Failed" "ce_manifest_key (failure_payload env args x e) = None"
      "ce_error (failure_payload env args x e) = Some (''draining core stream: '' @ en_drain_error env e)"
      "ce_pod_uid (failure_payload env args x e) = map_option cg_pod_uid x" for x
      by (simp_all add: failure_payload_def base_payload_def)
    ultimately show ?thesis using failed(3,4) by (auto simp: report_sent)
  next
    case (drained snap rec supp s1 objs1 stats)
    from drained(4) show ?thesis by (cases rule: finish_cases) simp_all
  qed simp_all
qed

theorem failed_capture_reported_witness:
  "\<exists>w' pl. example_run (example_codec0) 0 [Stall] = (RunErr DeadlineExceeded, w') \<and> ce_outcome pl = Failed \<and>
     ce_error (pl :: capture_event) = Some ''draining core stream: late''"
proof -
  from example_run_stalled [OF example_unlimited] obtain w' where w': "example_run (example_codec0) 0 [Stall] = (RunErr DeadlineExceeded, w')" by blast
  have "en_drain_error (example_capture_env c) e = ''late''" for c e by (simp add: example_capture_env_def)
  with failed_capture_reported [OF w'] w' show ?thesis by auto
qed

text \<open>
  C9. The outcome that is reported says what happened, and a run that ends normally reports
  exactly once: \<open>skipped-non-k8s\<close> without an identity, \<open>suppressed-rate-limit\<close> when the limiter
  said so, \<open>no-store-discard\<close> without a store, and \<open>uploaded\<close> otherwise, in which case a core was
  stored. \<open>failed\<close> is reported only by a run that ends with an error.
\<close>

theorem outcome_exact:
  assumes "run lib env args config p so w = (RunOk, w')"
  shows "\<exists>pl. wo_sent w' = wo_sent w @
        send_capture_event (\<lambda>p. en_json_print env (payload_to_json p)) (en_net env) (hc_event_socket_path config) pl \<and>
      ce_outcome pl \<noteq> Failed \<and>
      (ce_outcome pl = SkippedNonK8s \<longleftrightarrow> run_identity env args config w = None) \<and>
      (ce_outcome pl = NoStoreDiscard \<longleftrightarrow> run_identity env args config w \<noteq> None \<and> run_store lib config so = None) \<and>
      (ce_outcome pl = SuppressedRateLimit \<longleftrightarrow> (\<exists>i r. run_target lib env args config so w = Some i \<and>
         fst (check_and_record (en_rate_codec env) (en_io env) (handler_limiter config) (cg_pod_uid (fst i)) (ca_timestamp args) (wo_fs w)) =
           Suppressed r)) \<and>
      (ce_outcome pl = Uploaded \<longleftrightarrow> ce_stored_bytes pl \<noteq> None)"
  using assms
proof (cases rule: run_cases)
  case (drained snap rec supp s1 objs1 stats)
  let ?t = "run_target lib env args config so w"
  have sh: "cs_sha256 stats \<noteq> None \<longleftrightarrow> \<not> supp \<and> ?t \<noteq> None"
    by (rule drain_stage_sha [OF drained(3)])
  have sp: "supp \<longleftrightarrow> (\<exists>i r. ?t = Some i \<and>
      fst (check_and_record (en_rate_codec env) (en_io env) (handler_limiter config) (cg_pod_uid (fst i)) (ca_timestamp args) (wo_fs w)) = Suppressed r)"
    using drained(2) by (auto simp: rate_stage_def split: option.splits prod.splits rate_decision.splits)
  from drained(4) show ?thesis
  proof (cases rule: finish_cases)
    case (reported key objs2 info m mkey objs3)
    let ?pl = "final_payload args (run_identity env args config w) (mf_identity m) mkey stats
        (outcome_of (run_identity env args config w) supp (run_store lib config so) (cs_sha256 stats \<noteq> None))"
    have pl: "ce_outcome ?pl = outcome_of (run_identity env args config w) supp (run_store lib config so) (cs_sha256 stats \<noteq> None)"
      "ce_stored_bytes ?pl \<noteq> None \<longleftrightarrow> cs_sha256 stats \<noteq> None"
      by (simp_all add: final_payload_def base_payload_def)
    have tn: "?t = None \<longleftrightarrow> run_identity env args config w = None \<or> run_store lib config so = None"
      by (auto simp: run_target_def split: option.splits)
    have "wo_sent w' = wo_sent w @
        send_capture_event (\<lambda>p. en_json_print env (payload_to_json p)) (en_net env) (hc_event_socket_path config) ?pl"
      using reported(6) by (simp add: report_sent del: not_None_eq)
    moreover have "supp \<longrightarrow> ?t \<noteq> None" using rate_stage_exclusive [OF drained(2)] by blast
    with sh tn have "outcome_of (run_identity env args config w) supp (run_store lib config so) (cs_sha256 stats \<noteq> None) = oc \<longleftrightarrow>
      (case oc of Failed \<Rightarrow> False | SkippedNonK8s \<Rightarrow> run_identity env args config w = None
       | NoStoreDiscard \<Rightarrow> run_identity env args config w \<noteq> None \<and> run_store lib config so = None
       | SuppressedRateLimit \<Rightarrow> supp | Uploaded \<Rightarrow> cs_sha256 stats \<noteq> None)" for oc
      by (cases oc) (auto simp: outcome_of_def)
    ultimately show ?thesis unfolding sp [symmetric] by (intro exI [of _ ?pl]) (simp add: pl del: not_None_eq)
  qed simp_all
qed simp_all

theorem outcome_exact_witness:
  "\<exists>w' pl. example_run (example_codec0) 0 [Data ''ab''] = (RunOk, w') \<and> ce_outcome (pl :: capture_event) = Uploaded"
proof -
  from example_run_ok obtain w' where w': "example_run (example_codec0) 0 [Data ''ab''] = (RunOk, w')" by blast
  from outcome_exact [OF w'] obtain pl :: capture_event where
    pl: "ce_outcome pl \<noteq> Failed" "ce_outcome pl \<noteq> SkippedNonK8s" "ce_outcome pl \<noteq> NoStoreDiscard"
      "ce_outcome pl = SuppressedRateLimit \<longrightarrow> False"
    by (auto simp: example_run_identity example_target run_store_def check_and_record_def handler_limiter_def)
  then have "ce_outcome pl = Uploaded" by (cases "ce_outcome pl") simp_all
  with w' show ?thesis by blast
qed

text \<open>
  C8. A capture always ends: in a release build, with the upload deadline and the \<open>crictl\<close>
  timeout set, a run returns, whatever the pipe, the child process and the file system do and
  whether the store takes a request or not, as long as it answers the requests that run outside
  the deadline (the abort of a multipart upload and the two single uploads); it neither hangs
  nor panics.
\<close>

theorem capture_ends:
  assumes "\<not> en_chk env" "hc_upload_deadline_secs config \<noteq> 0" "hc_crictl_timeout_secs config \<noteq> 0"
    and "ue_abort_returns (en_upload env)" "\<And>key b. en_put env key \<noteq> PutNever b"
  shows "\<exists>fin w'. run lib env args config p so w = (fin, w') \<and> (fin = RunOk \<or> (\<exists>e. fin = RunErr e))"
proof -
  let ?t = "run_target lib env args config so w"
  obtain snap where cap: "capture (en_chk env) (en_io env) (en_ls env) (wo_fs w) (hc_proc_root config) (ca_host_pid args)
      (if hc_no_redact config then redactor_disabled else redactor_default) = Some (Got snap)"
    using capture_release assms(1) by fastforce
  obtain rec supp s1 where rs: "rate_stage env config args ?t (wo_fs w) = ((rec, supp), s1)" by (metis prod.exhaust)
  obtain d objs1 where ds: "drain_stage env config ?t supp p (wo_objects w) = (d, objs1)" by fastforce
  have "d \<noteq> None" by (rule drain_stage_returns [OF ds assms(2,4)])
  then obtain x where x: "d = Some x" by blast
  note r = run_captured [OF cap rs ds, unfolded x]
  show ?thesis
  proof (cases x)
    case (Inr stats)
    obtain fin w' where "finish_capture env config args snap (run_identity env args config w) (run_store lib config so) ?t supp stats
        (w\<lparr>wo_fs := s1, wo_objects := objs1\<rparr>) = (fin, w')"
      by fastforce
    moreover from this have "fin = RunOk" by (rule finish_capture_ends [OF assms(3,5)])
    ultimately
    show ?thesis using r Inr by simp
  qed (use r in simp)
qed

theorem capture_ends_witness:
  "\<exists>fin w'. example_run (example_codec0) 0 [Data ''ab'', Stall] = (fin, w') \<and> (fin = RunOk \<or> (\<exists>e. fin = RunErr e))"
  by (rule capture_ends) (simp_all add: example_env_def)

text \<open>
  C12. A capture writes only its own objects: whatever happens, a run changes at most the three
  objects of its own pod, container, crash time and pid, and nothing at all when the identity
  or the store is missing.
\<close>

theorem capture_frame:
  assumes "run lib env args config p so w = (fin, w')"
    and "\<And>i. run_identity env args config w = Some i \<Longrightarrow> run_store lib config so \<noteq> None \<Longrightarrow>
      k \<notin> en_path_of env ` {key_core (handler_keys config args i), key_proc_snapshot (handler_keys config args i),
        key_manifest (handler_keys config args i)}"
  shows "wo_objects w' k = wo_objects w k"
proof -
  let ?t = "run_target lib env args config so w"
  have t: "k \<noteq> en_path_of env (key_core ks)" "k \<noteq> en_path_of env (key_proc_snapshot ks)" "k \<noteq> en_path_of env (key_manifest ks)"
    if "?t = Some (i, ks)" for i ks
    using assms(2) that by (auto simp: run_target_def split: option.splits)
  from assms(1) show ?thesis
  proof (cases rule: run_cases)
    case (hung rec supp s1 objs1)
    with drain_stage_frame [OF hung(2) t(1)] show ?thesis by simp
  next
    case (failed rec supp s1 objs1 e)
    with drain_stage_frame [OF failed(2) t(1)] show ?thesis by simp
  next
    case (drained snap rec supp s1 objs1 stats)
    note d = drain_stage_frame [OF drained(3) t(1)]
    from drained(4) show ?thesis
    proof (cases rule: finish_objects)
      case (stopped key objs2)
      with d snapshot_put.frame [OF stopped(1) t(2)] show ?thesis by simp
    next
      case (manifest key objs2 info m mkey)
      with d snapshot_put.frame [OF manifest(1) t(2)] manifest_put.frame [OF manifest(3) t(3)] show ?thesis by simp
    qed
  qed simp
qed

theorem capture_frame_witness:
  "\<exists>fin w'. example_run (example_codec0) 0 [Data ''ab''] = (fin, w') \<and> wo_objects w' ''other'' = None"
proof -
  obtain fin w' where w': "example_run (example_codec0) 0 [Data ''ab''] = (fin, w')" by fastforce
  have "wo_objects w' ''other'' = wo_objects example_world ''other''"
    by (rule capture_frame [OF w'])
      (simp add: example_run_identity key_core_def key_proc_snapshot_def key_manifest_def handler_keys_def object_keys_new_def
        example_config_def handler_config_default_def DEFAULT_CLUSTER_def)
  with w' show ?thesis by simp
qed

text \<open>
  C11. A crash storm costs the core, never the record: when the limiter suppresses a capture,
  the object under the core's key is left alone, and the snapshot and a manifest are still
  written (as far as the store takes them); the manifest says that no core is present and why.
\<close>

theorem suppressed_capture_keeps_record:
  assumes r: "run lib env args config p so w = (RunOk, w')"
    and t: "run_target lib env args config so w = Some (i, ks)"
    and sup: "fst (check_and_record (en_rate_codec env) (en_io env) (handler_limiter config) (cg_pod_uid i) (ca_timestamp args) (wo_fs w)) =
      Suppressed n"
    and inj: "inj_on (en_path_of env) {key_core ks, key_proc_snapshot ks, key_manifest ks}"
  shows "wo_objects w' (en_path_of env (key_core ks)) = wo_objects w (en_path_of env (key_core ks)) \<and>
    (\<exists>snap m. capture (en_chk env) (en_io env) (en_ls env) (wo_fs w) (hc_proc_root config) (ca_host_pid args)
        (if hc_no_redact config then redactor_disabled else redactor_default) = Some (Got snap) \<and>
      \<not> cr_present (mf_core m) \<and> cr_object_key (mf_core m) = None \<and> cr_skipped_reason (mf_core m) = Some ''rate_limit'' \<and>
      (\<forall>tar. to_tar (en_tar env) snap = Some tar \<and> en_put env (key_proc_snapshot ks) = PutOk \<longrightarrow>
        wo_objects w' (en_path_of env (key_proc_snapshot ks)) = Some tar) \<and>
      (\<forall>json. en_json_pretty env (manifest_to_json m) = Some json \<and> en_put env (key_manifest ks) = PutOk \<longrightarrow>
        wo_objects w' (en_path_of env (key_manifest ks)) = Some json))"
proof -
  let ?path = "en_path_of env"
  have ne: "?path (key_core ks) \<noteq> ?path (key_manifest ks)" "?path (key_core ks) \<noteq> ?path (key_proc_snapshot ks)"
    "?path (key_proc_snapshot ks) \<noteq> ?path (key_manifest ks)"
    using inj by (auto simp: inj_on_def)
  from r show ?thesis
  proof (cases rule: run_cases)
    case (drained snap rec supp s1 objs1 stats)
    have supp: "supp" using drained(2) sup t by (auto simp: rate_stage_def split: prod.splits rate_decision.splits)
    have dr: "objs1 = wo_objects w" "cs_sha256 stats = None"
      using drain_stage_discards [OF drained(3)] supp by auto
    from drained(4) show ?thesis
    proof (cases rule: finish_cases)
      case (reported key objs2 info m mkey objs3)
      have w': "wo_objects w' = objs3" using reported(6) by simp
      have keep: "objs3 x = objs2 x" if "x \<noteq> ?path (key_manifest ks)" for x
        using manifest_put.frame [OF reported(4)] t that by auto
      have "objs3 (?path (key_core ks)) = wo_objects w (?path (key_core ks))"
        using keep [OF ne(1)] snapshot_put.frame [OF reported(1), of "?path (key_core ks)"] t ne(2) dr(1) by simp
      moreover have "objs3 (?path (key_proc_snapshot ks)) = Some tar"
        if "to_tar (en_tar env) snap = Some tar" "en_put env (key_proc_snapshot ks) = PutOk" for tar
        using snapshot_put.stored [OF reported(1) [unfolded t] that] keep [OF ne(3)] by simp
      moreover have "objs3 (?path (key_manifest ks)) = Some json"
        if "en_json_pretty env (manifest_to_json m) = Some json" "en_put env (key_manifest ks) = PutOk" for json
        using manifest_put.stored [OF reported(4) [unfolded t] that] .
      moreover have "\<not> cr_present (mf_core m)" "cr_object_key (mf_core m) = None" "cr_skipped_reason (mf_core m) = Some ''rate_limit''"
        using dr(2) supp by (simp_all add: reported(3) opt_filter_def split: option.split)
      ultimately show ?thesis using drained(1) w' by blast
    qed simp_all
  qed simp_all
qed

text \<open>The limiter of the example on a file that records \<open>j\<close>.\<close>

lemma example_locked_check:
  assumes "check_update 1 ''12-ab'' 1000 j = (d, a)"
  shows "\<exists>s1. locked_check_and_record (example_codec2 j a b) no_faults (handler_limiter (example_config 1)) ''12-ab'' 1000
      (wo_fs example_world) = (Inr d, s1) \<and> s1 ''/r'' = Some (File ''A'' mode_600) \<and> s1 ''/'' = Some (Dir mode_700)"
  using assms
  by (simp add: locked_check_and_record_def with_locked_state_def handler_limiter_def fs_call_defs
      rate_file_example_simps example_world_def example_codec2_def Let_def)

theorem suppressed_capture_keeps_record_witness:
  "\<exists>w'. example_run (example_codec2 \<lparr>rs_events = [''12-ab'' \<mapsto> [999]]\<rparr> \<lparr>rs_events = [''12-ab'' \<mapsto> [999]]\<rparr> rate_default) 1 [Data ''ab''] =
      (RunOk, w') \<and> wo_objects w' (key_core example_keys) = None"
proof -
  let ?j = "\<lparr>rs_events = [''12-ab'' \<mapsto> [999]]\<rparr>"
  let ?c = "example_codec2 ?j ?j rate_default"
  have "check_update 1 ''12-ab'' 1000 ?j = (Suppressed 1, ?j)"
    by (auto simp: check_update_def u32_saturate_def vec_len_def prune_events_def i64_sub_def wrap_i64_def
        RATE_WINDOW_SECS_def Let_def)
  from example_locked_check [OF this] obtain s1 where
    "locked_check_and_record ?c no_faults (handler_limiter (example_config 1)) ''12-ab'' 1000 (wo_fs example_world) = (Inr (Suppressed 1), s1)"
    by blast
  then have cr: "check_and_record ?c no_faults (handler_limiter (example_config 1)) ''12-ab'' 1000 (wo_fs example_world) = (Suppressed 1, s1)"
    by (simp add: check_and_record_def handler_limiter_def)
  then have rs: "rate_stage (example_capture_env ?c) (example_config 1) example_args (Some (example_identity, example_keys)) (wo_fs example_world) =
      ((False, True), s1)" by (simp add: rate_stage_def example_identity_def)
  have d: "\<exists>st. discard_drain True [Data ''ab''] = Some (Inr st)" by (simp add: discard_drain_def discard_loop_stream)
  then obtain st where d: "drain_stage (example_capture_env ?c) (example_config 1) (Some (example_identity, example_keys)) True [Data ''ab'']
      Map.empty = (Some (Inr st), Map.empty)" by (auto simp: drain_stage_discard)
  have "\<exists>w'. example_run ?c 1 [Data ''ab''] = (RunOk, w')"
    unfolding example_run_captured [OF rs d] option.case sum.case example_run_identity using example_finish by blast
  then obtain w' where w': "example_run ?c 1 [Data ''ab''] = (RunOk, w')" by blast
  from suppressed_capture_keeps_record [OF w' example_target, of 1] cr w' show ?thesis
    by (auto simp: example_identity_def)
qed

text \<open>
  C10. A failed capture costs no budget: when the limiter could record the admission and give it
  back, the state file stands afterwards for the state it stood for before, less what has left
  the window; so a store outage cannot exhaust a pod's budget with no core kept.
\<close>

theorem failed_capture_costs_no_budget:
  assumes rt: "\<And>st json. rc_print (en_rate_codec env) st = Some json \<Longrightarrow> rc_parse (en_rate_codec env) json = Some st"
    and r: "run lib env args config p so w = (RunErr e, w')"
    and t: "run_target lib env args config so w = Some (i, ks)" and m: "hc_max_cores_per_hour config \<noteq> 0"
    and check: "locked_check_and_record (en_rate_codec env) (en_io env) (handler_limiter config) (cg_pod_uid i) (ca_timestamp args)
      (wo_fs w) = (Inr Allowed, s1)"
    and refd: "locked_refund (en_rate_codec env) (en_io env) (handler_limiter config) (cg_pod_uid i) (ca_timestamp args) s1 = (Inr (), s2)"
  shows "used (rate_abs (en_rate_codec env) (handler_limiter config) (wo_fs w')) pod =
    filter (\<lambda>t. i64_sub (ca_timestamp args) RATE_WINDOW_SECS < t) (used (rate_abs (en_rate_codec env) (handler_limiter config) (wo_fs w)) pod)"
proof -
  let ?abs = "rate_abs (en_rate_codec env) (handler_limiter config)"
  have "rate_stage env config args (Some (i, ks)) (wo_fs w) = ((True, False), s1)"
    using check m by (simp add: rate_stage_def check_and_record_def handler_limiter_def)
  moreover from r obtain s' where "wo_fs w' = (case Some (i, ks) of
      Some (i, _) \<Rightarrow> if fst (fst (rate_stage env config args (Some (i, ks)) (wo_fs w)))
        then refund (en_rate_codec env) (en_io env) (handler_limiter config) (cg_pod_uid i) (ca_timestamp args) s' else s' | None \<Rightarrow> s')"
    "s' = snd (rate_stage env config args (Some (i, ks)) (wo_fs w))"
  proof (cases rule: run_cases)
    case (drained snap rec supp s1 objs1 stats)
    from drained(4) show ?thesis by (cases rule: finish_cases) simp_all
  qed (use t that in auto)
  ultimately have w': "wo_fs w' = s2" using refd m by (simp add: refund_def handler_limiter_def)
  have "check_update (rl_max_per_hour (handler_limiter config)) (cg_pod_uid i) (ca_timestamp args) (?abs (wo_fs w)) = (Allowed, ?abs s1)"
    using rate_abs_refines(1) [OF rt check [unfolded locked_check_and_record_def]] .
  from refund_after_check [OF this]
  have "refund_update (cg_pod_uid i) (ca_timestamp args) (?abs s1) =
      (?abs (wo_fs w))\<lparr>rs_events := prune_events (i64_sub (ca_timestamp args) RATE_WINDOW_SECS) (rs_events (?abs (wo_fs w)))\<rparr>" .
  moreover have "refund_update (cg_pod_uid i) (ca_timestamp args) (?abs s1) = ?abs s2"
    using rate_abs_refines(1) [OF rt refd [unfolded locked_refund_def]] by simp
  ultimately show ?thesis using w' by (simp add: used_def used_prune)
qed

theorem failed_capture_costs_no_budget_witness:
  "\<exists>s1 w'. example_run (example_codec2 rate_default (snd (check_update 1 ''12-ab'' 1000 rate_default)) rate_default) 1 [Stall] =
      (RunErr DeadlineExceeded, w') \<and> s1 = wo_fs w' \<and>
    used (rate_abs (example_codec2 rate_default (snd (check_update 1 ''12-ab'' 1000 rate_default)) rate_default)
      (handler_limiter (example_config 1)) s1) ''12-ab'' = []"
proof -
  let ?a = "snd (check_update 1 ''12-ab'' 1000 rate_default)"
  let ?c = "example_codec2 rate_default ?a rate_default"
  have cu: "check_update 1 ''12-ab'' 1000 rate_default = (Allowed, ?a)"
    using check_update_decision [of 1 "''12-ab''" 1000 rate_default] by (simp add: used_def rate_default_def prod_eq_iff)
  have ab: "?a \<noteq> rate_default"
    by (auto simp: check_update_def prune_events_def rate_default_def u32_saturate_def vec_len_def Let_def fun_eq_iff)
  have rt: "rc_print ?c st = Some json \<Longrightarrow> rc_parse ?c json = Some st" for st json
    by (auto simp: example_codec2_def split: if_splits)
  from example_locked_check [OF cu, of rate_default] obtain s1 where
    s1: "locked_check_and_record ?c no_faults (handler_limiter (example_config 1)) ''12-ab'' 1000 (wo_fs example_world) = (Inr Allowed, s1)"
      "s1 ''/r'' = Some (File ''A'' mode_600)" "s1 ''/'' = Some (Dir mode_700)" by blast
  have "refund_update ''12-ab'' 1000 ?a = rate_default"
    using refund_after_check [OF cu] by (simp add: rate_default_def prune_events_def fun_eq_iff)
  then have "\<exists>s2. locked_refund ?c no_faults (handler_limiter (example_config 1)) ''12-ab'' 1000 s1 = (Inr (), s2)"
    using s1(2,3) ab
    by (simp add: locked_refund_def with_locked_state_def handler_limiter_def fs_call_defs rate_file_example_simps example_codec2_def Let_def)
  then obtain s2 where s2: "locked_refund ?c no_faults (handler_limiter (example_config 1)) ''12-ab'' 1000 s1 = (Inr (), s2)" by blast
  have "rate_stage (example_capture_env ?c) (example_config 1) example_args (Some (example_identity, example_keys)) (wo_fs example_world) =
      ((True, False), s1)"
    using s1(1) by (simp add: rate_stage_def check_and_record_def example_identity_def) (simp add: handler_limiter_def)
  from example_run_stalled [OF this] obtain w' where w': "example_run ?c 1 [Stall] = (RunErr DeadlineExceeded, w')" by blast
  have id: "cg_pod_uid example_identity = ''12-ab''" by (simp add: example_identity_def)
  have j: "rate_abs ?c (handler_limiter (example_config 1)) (wo_fs example_world) = rate_default"
    by (simp add: rate_abs_def handler_limiter_def rate_file_example_simps example_world_def example_codec2_def)
  from failed_capture_costs_no_budget [OF _ w' example_target, of s1 s2 "''12-ab''"] rt s1(1) s2 w' j show ?thesis
    by (simp add: id used_def rate_default_def)
qed

end
