(* ===== verification/Capture_Spec.thy ===== *)
theory Capture_Spec
  imports Capture_Flow Rate_Limit_File
begin

text \<open>
  What \<open>coredrop\<close> promises of a series of crashes, without files, objects, encoders and datagrams:
  a ledger with the limiter's state and one record per crash, which says whether the core was
  kept and how much of it. On a healthy node (the store takes what it is given, calls succeed,
  the deadlines are set) the handler of \<open>src/handler.rs\<close> refines it, crash by crash: reading the
  manifests of the store and following their references gives the ledger, and the reports
  that are sent carry the outcomes. Pipes may stall and fail, cores may be larger than the cap,
  and pods may crash more often than their budget allows.
\<close>

section \<open>The specification\<close>

record crash =
  cx_args :: capture_args
  cx_core :: pipe

record crash_record =
  rd_core :: "bytes option"
  rd_truncated :: "string option"
  rd_skipped :: "string option"
  rd_snapshot :: bool

text \<open>A crash is known by its container, its second and its pid.\<close>

type_synonym crash_id = "cgroup_identity \<times> int \<times> int"

record ledger =
  lg_limiter :: rate_state
  lg_records :: "crash_id \<rightharpoonup> crash_record"

text \<open>
  The outcome of a crash of a process that belongs to \<open>who pid\<close>, under a budget \<open>m\<close> and a size cap;
  a pipe that stalls fails it and gives an admission back.
\<close>

definition capture_spec ::
  "u32 \<Rightarrow> u64 \<Rightarrow> bool \<Rightarrow> (int \<Rightarrow> cgroup_identity option) \<Rightarrow> crash \<Rightarrow> ledger \<Rightarrow> outcome \<times> ledger" where
  "capture_spec m cap has_store who c lg =
     (let (s, fin) = stream_of (cx_core c); t = ca_timestamp (cx_args c); pid = ca_host_pid (cx_args c)
      in case who pid of
           None \<Rightarrow> (if fin = AtStall then Failed else SkippedNonK8s, lg)
         | Some i \<Rightarrow>
             if \<not> has_store then (if fin = AtStall then Failed else NoStoreDiscard, lg)
             else (case job_update m (Check (cg_pod_uid i) t) (lg_limiter lg) of
                 (Some (Suppressed _), st) \<Rightarrow>
                   if fin = AtStall then (Failed, lg\<lparr>lg_limiter := st\<rparr>)
                   else (SuppressedRateLimit, lg\<lparr>lg_limiter := st, lg_records := (lg_records lg)((i, t, pid) \<mapsto>
                     \<lparr>rd_core = None, rd_truncated = (if fin = AtError then Some ''stream_error'' else None),
                      rd_skipped = Some ''rate_limit'', rd_snapshot = True\<rparr>)\<rparr>)
               | (_, st) \<Rightarrow>
                   if fin = AtStall then (Failed, lg\<lparr>lg_limiter := snd (job_update m (Refund (cg_pod_uid i) t) st)\<rparr>)
                   else (Uploaded, lg\<lparr>lg_limiter := st, lg_records := (lg_records lg)((i, t, pid) \<mapsto>
                     \<lparr>rd_core = Some (capped cap s),
                      rd_truncated = (if fin = AtError then Some ''stream_error''
                        else if cap \<noteq> 0 \<and> unat cap < length s then Some ''size_cap'' else None),
                      rd_skipped = None, rd_snapshot = True\<rparr>)\<rparr>)))"

text \<open>What an observer sees of a crash: whether the handler exited with success, and the reports.\<close>

definition spec_step where
  "spec_step m cap has_store who c lg =
     (let (oc, lg') = capture_spec m cap has_store who c lg in ((oc \<noteq> Failed, [Some oc]), lg'))"

section \<open>What a world stands for\<close>

definition crash_keys :: "handler_config \<Rightarrow> crash_id \<Rightarrow> object_keys" where
  "crash_keys config x =
     (case x of (i, t, pid) \<Rightarrow> object_keys_new (hc_cluster config) (cg_pod_uid i) (cg_container_id i) t pid)"

definition valid_crash :: "crash_id \<Rightarrow> bool" where
  "valid_crash x \<longleftrightarrow> is_pod_uid (cg_pod_uid (fst x)) \<and> is_container_id (cg_container_id (fst x))"

definition manifest_at ::
  "(string \<Rightarrow> string) \<Rightarrow> (bytes \<Rightarrow> json option) \<Rightarrow> object_keys \<Rightarrow> objects \<Rightarrow> manifest option" where
  "manifest_at path_of parse ks objs =
     Option.bind (objs (path_of (key_manifest ks))) (\<lambda>b. Option.bind (parse b) manifest_of_json)"

text \<open>A reader of the store follows the references of the manifest.\<close>

definition read_record ::
  "(string \<Rightarrow> string) \<Rightarrow> (bytes \<Rightarrow> bytes option) \<Rightarrow> objects \<Rightarrow> manifest \<Rightarrow> crash_record" where
  "read_record path_of decode objs m =
     \<lparr>rd_core = (if cr_present (mf_core m)
        then Option.bind (cr_object_key (mf_core m)) (\<lambda>k. Option.bind (objs (path_of k)) decode) else None),
      rd_truncated = cr_truncated_reason (mf_core m), rd_skipped = cr_skipped_reason (mf_core m),
      rd_snapshot = (case mf_proc_snapshot m of None \<Rightarrow> False | Some r \<Rightarrow> objs (path_of (ps_object_key r)) \<noteq> None)\<rparr>"

definition abs_record where
  "abs_record path_of decode parse ks objs = map_option (read_record path_of decode objs) (manifest_at path_of parse ks objs)"

definition abs_records ::
  "('z, 'b) capture_env \<Rightarrow> handler_config \<Rightarrow> (bytes \<Rightarrow> bytes option) \<Rightarrow> (bytes \<Rightarrow> json option) \<Rightarrow> objects
     \<Rightarrow> (crash_id \<rightharpoonup> crash_record)" where
  "abs_records env config decode parse objs =
     (\<lambda>x. if valid_crash x then abs_record (en_path_of env) decode parse (crash_keys config x) objs else None)"

definition abs_ledger ::
  "('z, 'b) capture_env \<Rightarrow> handler_config \<Rightarrow> (bytes \<Rightarrow> bytes option) \<Rightarrow> (bytes \<Rightarrow> json option) \<Rightarrow> world \<Rightarrow> ledger" where
  "abs_ledger env config decode parse w =
     \<lparr>lg_limiter = rate_abs (en_rate_codec env) (handler_limiter config) (wo_fs w),
      lg_records = abs_records env config decode parse (wo_objects w)\<rparr>"

text \<open>The outcomes in the datagrams that were sent.\<close>

definition sent_outcomes :: "(bytes \<Rightarrow> json option) \<Rightarrow> (path \<times> bytes) list \<Rightarrow> outcome option list" where
  "sent_outcomes parse ds = map (\<lambda>(_, b). map_option ce_outcome (Option.bind (parse b) payload_of_json)) ds"

definition handler_step where
  "handler_step lib env config so parse c w =
     (let (fin, w') = run lib env (cx_args c) config (cx_core c) so w
      in ((fin = RunOk, sent_outcomes parse (drop (length (wo_sent w)) (wo_sent w'))), w'))"

section \<open>A healthy node\<close>

text \<open>The store, the libraries and the settings; the codecs read back what they print.\<close>

definition healthy_env ::
  "('z, 'b) capture_env \<Rightarrow> handler_config \<Rightarrow> (bytes \<Rightarrow> bytes option) \<Rightarrow> (bytes \<Rightarrow> json option) \<Rightarrow> bool" where
  "healthy_env env config decode parse \<longleftrightarrow>
     \<not> en_chk env \<and> hc_upload_deadline_secs config \<noteq> 0 \<and> hc_crictl_timeout_secs config \<noteq> 0 \<and>
     accepting (fresh_writer (en_upload env)) \<and> ue_abort_returns (en_upload env) \<and> (\<forall>k. en_put env k = PutOk) \<and>
     zstd_ok (ue_zstd (en_upload env)) decode \<and> (\<forall>snap. to_tar (en_tar env) snap \<noteq> None) \<and>
     (\<forall>v. \<exists>b. en_json_pretty env v = Some b \<and> parse b = Some v) \<and> (\<forall>v. \<exists>b. en_json_print env v = Some b \<and> parse b = Some v) \<and>
     inj_on (en_path_of env) (\<Union>x\<in>Collect valid_crash. {key_core (crash_keys config x), key_proc_snapshot (crash_keys config x),
       key_manifest (crash_keys config x)}) \<and>
     (\<exists>q. hc_event_socket_path config = Some q) \<and> dg_unbound_ok (en_net env) \<and> dg_nonblocking_ok (en_net env) \<and>
     (\<forall>q b. dg_delivers (en_net env) q b)"

text \<open>A manifest that refers to nothing but the objects of its own crash.\<close>

definition own_refs :: "object_keys \<Rightarrow> manifest \<Rightarrow> bool" where
  "own_refs ks m \<longleftrightarrow> (\<forall>k. cr_object_key (mf_core m) = Some k \<longrightarrow> k = key_core ks) \<and>
     (\<forall>r. mf_proc_snapshot m = Some r \<longrightarrow> ps_object_key r = key_proc_snapshot ks)"

definition cgroup_path :: "handler_config \<Rightarrow> int \<Rightarrow> path" where
  "cgroup_path config pid = path_join (path_join (hc_proc_root config) (show_int pid)) ''cgroup''"

text \<open>The node: the limiter's file has its directory, and it is none of the cgroup files.\<close>

definition healthy_node ::
  "('z, 'b) capture_env \<Rightarrow> handler_config \<Rightarrow> (bytes \<Rightarrow> json option) \<Rightarrow> (int \<Rightarrow> cgroup_identity option) \<Rightarrow> world \<Rightarrow> bool" where
  "healthy_node env config parse who w \<longleftrightarrow>
     healthy_limiter (en_rate_codec env) (en_io env) (handler_limiter config) (wo_fs w) \<and>
     (\<forall>pid. read_cgroup_identity (en_io env) (wo_fs w) (hc_proc_root config) pid = who pid \<and>
        follow (wo_fs w) (cgroup_path config pid) \<noteq> Some (hc_rate_state_path config)) \<and>
     (\<forall>x m. valid_crash x \<longrightarrow> manifest_at (en_path_of env) parse (crash_keys config x) (wo_objects w) = Some m \<longrightarrow>
        own_refs (crash_keys config x) m)"

definition crash_ok :: "crash \<Rightarrow> bool" where
  "crash_ok c \<longleftrightarrow> i32_min \<le> ca_host_pid (cx_args c) \<and> ca_host_pid (cx_args c) \<le> i32_max \<and>
     i32_min \<le> ca_signal (cx_args c) \<and> ca_signal (cx_args c) \<le> i32_max \<and>
     i64_min \<le> ca_timestamp (cx_args c) \<and> ca_timestamp (cx_args c) \<le> i64_max \<and> length (fst (stream_of (cx_core c))) < 2 ^ 64"

section \<open>Reading the store\<close>

text \<open>The record of a crash depends on its own objects only.\<close>

lemma manifest_at_agree:
  "objs' (path_of (key_manifest ks)) = objs (path_of (key_manifest ks)) \<Longrightarrow>
    manifest_at path_of parse ks objs' = manifest_at path_of parse ks objs"
  by (simp add: manifest_at_def)

lemma abs_record_agree:
  assumes "\<And>k. k \<in> {key_core ks, key_proc_snapshot ks, key_manifest ks} \<Longrightarrow> objs' (path_of k) = objs (path_of k)"
    and "\<And>m. manifest_at path_of parse ks objs = Some m \<Longrightarrow> own_refs ks m"
  shows "abs_record path_of decode parse ks objs' = abs_record path_of decode parse ks objs"
proof -
  have m: "manifest_at path_of parse ks objs' = manifest_at path_of parse ks objs"
    by (rule manifest_at_agree) (simp add: assms(1))
  have "read_record path_of decode objs' mf = read_record path_of decode objs mf"
    if "manifest_at path_of parse ks objs = Some mf" for mf
    using assms(1) assms(2) [OF that]
    by (cases "cr_object_key (mf_core mf)"; cases "mf_proc_snapshot mf") (auto simp: read_record_def own_refs_def)
  with m show ?thesis by (cases "manifest_at path_of parse ks objs") (simp_all add: abs_record_def)
qed

lemma valid_no_slash: "valid_crash (i, t, pid) \<Longrightarrow> CHR ''/'' \<notin> set (cg_pod_uid i) \<and> CHR ''/'' \<notin> set (cg_container_id i)"
  using uid_byte_ascii container_id_no_slash
  by (fastforce simp: valid_crash_def is_pod_uid_def list_all_iff)

lemma crash_keys_apart:
  assumes "valid_crash x" "valid_crash y" "x \<noteq> y"
  shows "{key_core (crash_keys config x), key_proc_snapshot (crash_keys config x), key_manifest (crash_keys config x)} \<inter>
    {key_core (crash_keys config y), key_proc_snapshot (crash_keys config y), key_manifest (crash_keys config y)} = {}"
proof (rule ccontr)
  assume meet: "\<not> ?thesis"
  obtain i t pid j u qid where xy: "x = (i, t, pid)" "y = (j, u, qid)" by (metis prod.exhaust)
  have ns: "\<forall>a\<in>set [cg_pod_uid i, cg_container_id i, cg_pod_uid j, cg_container_id j]. CHR ''/'' \<notin> set a"
    using valid_no_slash [of i t pid] valid_no_slash [of j u qid] assms(1,2) xy by simp
  have "cg_pod_uid i = cg_pod_uid j \<and> cg_container_id i = cg_container_id j \<and> t = u \<and> pid = qid"
    using object_keys_meet [OF ns refl refl, of "hc_cluster config" t pid "hc_cluster config" u qid]
      meet [unfolded xy crash_keys_def prod.case] by blast
  with assms(3) xy show False by simp
qed

lemma healthy_env_simps:
  assumes "healthy_env env config decode parse"
  shows "\<not> en_chk env" "hc_upload_deadline_secs config \<noteq> 0" "hc_crictl_timeout_secs config \<noteq> 0"
    "accepting (fresh_writer (en_upload env))" "ue_abort_returns (en_upload env)" "en_put env k = PutOk"
    "zstd_ok (ue_zstd (en_upload env)) decode" "\<exists>tar. to_tar (en_tar env) snap = Some tar"
    "\<exists>b. en_json_pretty env v = Some b \<and> parse b = Some v" "\<exists>b. en_json_print env v = Some b \<and> parse b = Some v"
    "\<exists>q. hc_event_socket_path config = Some q"
  using assms by (simp_all add: healthy_env_def)

lemma healthy_path_eq:
  assumes "healthy_env env config decode parse" "valid_crash x" "valid_crash y"
    and "k \<in> {key_core (crash_keys config x), key_proc_snapshot (crash_keys config x), key_manifest (crash_keys config x)}"
    and "l \<in> {key_core (crash_keys config y), key_proc_snapshot (crash_keys config y), key_manifest (crash_keys config y)}"
  shows "en_path_of env k = en_path_of env l \<longleftrightarrow> k = l"
proof -
  have "inj_on (en_path_of env) (\<Union>x\<in>Collect valid_crash. {key_core (crash_keys config x), key_proc_snapshot (crash_keys config x),
       key_manifest (crash_keys config x)})" using assms(1) by (simp add: healthy_env_def)
  moreover have "k \<in> (\<Union>x\<in>Collect valid_crash. {key_core (crash_keys config x), key_proc_snapshot (crash_keys config x),
       key_manifest (crash_keys config x)})" using assms(2,4) by (intro UN_I [of x]) simp_all
  moreover have "l \<in> (\<Union>x\<in>Collect valid_crash. {key_core (crash_keys config x), key_proc_snapshot (crash_keys config x),
       key_manifest (crash_keys config x)})" using assms(3,5) by (intro UN_I [of y]) simp_all
  ultimately show ?thesis by (rule inj_on_eq_iff)
qed

text \<open>One report, which the daemon can read.\<close>

lemma healthy_report:
  assumes "healthy_env env config decode parse" "payload_of_args (cx_args c) pl" "crash_ok c" "wo_sent w1 = wo_sent w"
  shows "sent_outcomes parse (drop (length (wo_sent w)) (wo_sent (report env config pl w1))) = [Some (ce_outcome pl)]"
proof -
  from assms(1) obtain q b where q: "hc_event_socket_path config = Some q"
    and b: "en_json_print env (payload_to_json pl) = Some b" "parse b = Some (payload_to_json pl)"
    using healthy_env_simps(10,11) by blast
  have "payload_ok pl" using assms(2,3) by (simp add: payload_of_args_def payload_ok_def crash_ok_def)
  then have "payload_of_json (payload_to_json pl) = Some pl" by (rule payload.decodes)
  moreover have "send_capture_event (\<lambda>p. en_json_print env (payload_to_json p)) (en_net env) (hc_event_socket_path config) pl = [(q, b)]"
    using assms(1) q b by (simp add: send_capture_event_def healthy_env_def)
  ultimately show ?thesis using assms(4) b by (simp add: report_sent sent_outcomes_def)
qed

text \<open>The end of a capture with a target, and without.\<close>

lemma healthy_finish:
  assumes env: "healthy_env env config decode parse"
    and "t = None \<or> t = Some (i, ks) \<and> ident = Some i" and ks: "ks = handler_keys config (cx_args c) i"
  obtains m mi mkey objs where
    "finish_capture env config (cx_args c) snap ident store t supp stats w =
      (RunOk, report env config (final_payload (cx_args c) ident mi mkey stats
        (outcome_of ident supp store (cs_sha256 stats \<noteq> None))) (w\<lparr>wo_objects := objs\<rparr>))"
    "t = None \<Longrightarrow> objs = wo_objects w"
    "t \<noteq> None \<Longrightarrow> \<exists>tar json. parse json = Some (manifest_to_json m) \<and> mf_signal m = ca_signal (cx_args c) \<and>
       mf_core m = build_core_ref stats (Some (key_core ks)) supp \<and>
       (\<exists>r. mf_proc_snapshot m = Some r \<and> ps_object_key r = key_proc_snapshot ks) \<and>
       objs = (wo_objects w)(en_path_of env (key_proc_snapshot ks) \<mapsto> tar,
         en_path_of env (key_manifest ks) \<mapsto> json)"
proof -
  have put: "\<And>k. en_put env k = PutOk" using env by (simp add: healthy_env_def)
  obtain fin w' where f: "finish_capture env config (cx_args c) snap ident store t supp stats w = (fin, w')" by fastforce
  have "fin = RunOk" by (rule finish_capture_ends [OF _ _ f]) (use env in \<open>simp_all add: healthy_env_def\<close>)
  from f show thesis
  proof (cases rule: finish_cases)
    case (reported key objs1 info m mkey objs2)
    show thesis
    proof (rule that [of "mf_identity m" mkey objs2 m], goal_cases)
      case 1
      then show ?case using f reported(5,6) by simp
    next
      case 2
      then show ?case using reported(1,4) by (simp add: snapshot_stage_def manifest_stage_def)
    next
      case 3
      from 3 assms(2) have t: "t = Some (i, ks)" "ident = Some i" by auto
      from env obtain tar where tar: "to_tar (en_tar env) snap = Some tar" using healthy_env_simps(8) by blast
      from env obtain json where json: "en_json_pretty env (manifest_to_json m) = Some json" "parse json = Some (manifest_to_json m)"
        using healthy_env_simps(9) by blast
      have 1: "objs1 = (wo_objects w)(en_path_of env (key_proc_snapshot ks) \<mapsto> tar)" "key = Some (key_proc_snapshot ks)"
        using reported(1) t tar put by (auto simp: snapshot_stage_def put_object_def)
      have 2: "objs2 = objs1(en_path_of env (key_manifest ks) \<mapsto> json)"
        using reported(4) t json put by (auto simp: manifest_stage_def put_object_def)
      show ?case
        by (rule exI [of _ tar], rule exI [of _ json]) (use 1 2 json t ks reported(3) in \<open>simp add: build_manifest_def\<close>)
    qed
  qed (use \<open>fin = RunOk\<close> in simp_all)
qed

section \<open>The refinement\<close>

lemma records_stored:
  assumes env: "healthy_env env config decode parse" and x: "valid_crash x"
    and refs: "\<And>y m. valid_crash y \<Longrightarrow> manifest_at (en_path_of env) parse (crash_keys config y) objs = Some m \<Longrightarrow> own_refs (crash_keys config y) m"
    and frame: "\<And>k. k \<notin> en_path_of env ` {key_core (crash_keys config x), key_proc_snapshot (crash_keys config x),
      key_manifest (crash_keys config x)} \<Longrightarrow> objs' k = objs k"
    and json: "objs' (en_path_of env (key_manifest (crash_keys config x))) = Some json" "parse json = Some (manifest_to_json m)"
    and m: "i32_min \<le> mf_signal m" "mf_signal m \<le> i32_max" "own_refs (crash_keys config x) m"
  shows "abs_records env config decode parse objs' =
      (abs_records env config decode parse objs)(x \<mapsto> read_record (en_path_of env) decode objs' m)"
    and "valid_crash y \<Longrightarrow> manifest_at (en_path_of env) parse (crash_keys config y) objs' = Some m' \<Longrightarrow> own_refs (crash_keys config y) m'"
proof -
  have here: "manifest_at (en_path_of env) parse (crash_keys config x) objs' = Some m"
    using json manifest_json.decodes [of m] m by (simp add: manifest_at_def)
  have keep: "objs' (en_path_of env k) = objs (en_path_of env k)" if "valid_crash y" "y \<noteq> x"
      "k \<in> {key_core (crash_keys config y), key_proc_snapshot (crash_keys config y), key_manifest (crash_keys config y)}" for y k
  proof (rule frame)
    show "en_path_of env k \<notin> en_path_of env ` {key_core (crash_keys config x), key_proc_snapshot (crash_keys config x),
        key_manifest (crash_keys config x)}"
      using healthy_path_eq [OF env that(1) x that(3)] crash_keys_apart [OF that(1) x that(2), of config] that(3) by blast
  qed
  show "abs_records env config decode parse objs' =
      (abs_records env config decode parse objs)(x \<mapsto> read_record (en_path_of env) decode objs' m)"
  proof
    fix y
    show "abs_records env config decode parse objs' y =
        ((abs_records env config decode parse objs)(x \<mapsto> read_record (en_path_of env) decode objs' m)) y"
    proof (cases "y = x \<or> \<not> valid_crash y")
      case False
      then have "abs_record (en_path_of env) decode parse (crash_keys config y) objs' = abs_record (en_path_of env) decode parse (crash_keys config y) objs"
        by (intro abs_record_agree keep refs) auto
      with False show ?thesis by (simp add: abs_records_def)
    qed (use x here in \<open>auto simp: abs_records_def abs_record_def\<close>)
  qed
  show "own_refs (crash_keys config y) m'" if "valid_crash y" "manifest_at (en_path_of env) parse (crash_keys config y) objs' = Some m'"
  proof (cases "y = x")
    case False
    have "manifest_at (en_path_of env) parse (crash_keys config y) objs' = manifest_at (en_path_of env) parse (crash_keys config y) objs"
      by (rule manifest_at_agree, rule keep [OF that(1) False]) simp
    with that refs show ?thesis by simp
  qed (use here that m(3) in simp)
qed

lemma node_limited:
  assumes "healthy_node env config parse who w" "differs_at (hc_rate_state_path config) (wo_fs w) s'"
    and "healthy_limiter (en_rate_codec env) (en_io env) (handler_limiter config) s'"
  shows "healthy_node env config parse who (w\<lparr>wo_fs := s'\<rparr>)"
proof -
  have fl: "follow s' q = follow (wo_fs w) q" for q using assms(2) by (simp add: differs_at_def same_links_follow)
  have "read_cgroup_identity (en_io env) s' (hc_proc_root config) pid = read_cgroup_identity (en_io env) (wo_fs w) (hc_proc_root config) pid" for pid
    using assms(1) differs_at_read [OF assms(2), of "cgroup_path config pid" "en_io env"]
    by (simp add: healthy_node_def read_cgroup_identity_def read_to_string_def cgroup_path_def)
  with assms(1,3) fl show ?thesis by (simp add: healthy_node_def)
qed

text \<open>A run that ends reports its outcome and leaves what its last state stands for.\<close>

lemma step_reported:
  assumes "healthy_env env config decode parse" "crash_ok c"
    and "run lib env (cx_args c) config (cx_core c) so w = (fin, report env config pl w1)" "wo_sent w1 = wo_sent w"
    and "payload_of_args (cx_args c) pl"
  shows "fst (handler_step lib env config so parse c w) = (fin = RunOk, [Some (ce_outcome pl)])"
    "abs_ledger env config decode parse (snd (handler_step lib env config so parse c w)) = abs_ledger env config decode parse w1"
    "healthy_node env config parse who (snd (handler_step lib env config so parse c w)) = healthy_node env config parse who w1"
  using assms(3) healthy_report [OF assms(1,5,2,4)]
  by (simp_all add: handler_step_def abs_ledger_def healthy_node_def)

lemma discard_result:
  "discard_drain True p = (if snd (stream_of p) = AtStall then Some (Inl DeadlineExceeded)
     else Some (Inr \<lparr>cs_bytes = of_nat (length (fst (stream_of p))), cs_stored_bytes = 0, cs_sha256 = None,
       cs_truncated = (snd (stream_of p) = AtError),
       cs_truncated_reason = (if snd (stream_of p) = AtError then Some ''stream_error'' else None)\<rparr>))"
  by (auto simp: discard_drain_def discard_loop_stream split: prod.split pipe_end.split)

definition refines_step where
  "refines_step lib env config so decode parse who c w \<longleftrightarrow>
     healthy_node env config parse who (snd (handler_step lib env config so parse c w)) \<and>
     fst (handler_step lib env config so parse c w) =
       fst (spec_step (hc_max_cores_per_hour config) (hc_max_core_bytes config) (run_store lib config so \<noteq> None) who c
         (abs_ledger env config decode parse w)) \<and>
     abs_ledger env config decode parse (snd (handler_step lib env config so parse c w)) =
       snd (spec_step (hc_max_cores_per_hour config) (hc_max_core_bytes config) (run_store lib config so \<noteq> None) who c
         (abs_ledger env config decode parse w))"

lemma payload_outcome [simp]:
  "ce_outcome (failure_payload env args i e) = Failed" "ce_outcome (final_payload args i mi mk st oc) = oc"
  by (simp_all add: failure_payload_def final_payload_def base_payload_def)

lemma refines_untargeted:
  assumes env: "healthy_env env config decode parse" and node: "healthy_node env config parse who w" and c: "crash_ok c"
    and t: "run_target lib env (cx_args c) config so w = None"
  shows "refines_step lib env config so decode parse who c w"
proof -
  let ?pid = "ca_host_pid (cx_args c)" and ?p = "cx_core c"
  have i: "run_identity env (cx_args c) config w = who ?pid" using node by (simp add: run_identity_def healthy_node_def)
  obtain snap where cap: "capture (en_chk env) (en_io env) (en_ls env) (wo_fs w) (hc_proc_root config) ?pid
      (if hc_no_redact config then redactor_disabled else redactor_default) = Some (Got snap)"
    using capture_release healthy_env_simps(1) [OF env] by fastforce
  have rs: "rate_stage env config (cx_args c) (run_target lib env (cx_args c) config so w) (wo_fs w) = ((False, False), wo_fs w)"
    by (simp add: t rate_stage_def)
  have ds: "drain_stage env config (run_target lib env (cx_args c) config so w) False ?p (wo_objects w) = (discard_drain True ?p, wo_objects w)"
    using healthy_env_simps(2) [OF env] by (simp add: t drain_stage_def)
  note r = run_captured [OF cap rs ds, unfolded t i]
  have spec: "spec_step m cap (run_store lib config so \<noteq> None) who c lg =
      (let oc = (if snd (stream_of ?p) = AtStall then Failed else if who ?pid = None then SkippedNonK8s else NoStoreDiscard)
       in ((oc \<noteq> Failed, [Some oc]), lg))" for m cap lg
    using t i by (cases "stream_of ?p") (auto simp: run_target_None spec_step_def capture_spec_def Let_def split: option.split)
  show ?thesis
  proof (cases "snd (stream_of ?p) = AtStall")
    case True
    with r have "run lib env (cx_args c) config ?p so w = (RunErr DeadlineExceeded, report env config
        (failure_payload env (cx_args c) (who ?pid) DeadlineExceeded) w)" by (simp add: discard_result)
    from step_reported [OF env c this] node True show ?thesis unfolding refines_step_def spec by simp
  next
    case False
    then obtain st where st: "discard_drain True ?p = Some (Inr st)" by (simp add: discard_result)
    obtain mi mk where fin: "finish_capture env config (cx_args c) snap (who ?pid) (run_store lib config so) None False st w =
        (RunOk, report env config (final_payload (cx_args c) (who ?pid) mi mk st
          (outcome_of (who ?pid) False (run_store lib config so) (cs_sha256 st \<noteq> None))) w)"
    proof (rule healthy_finish [OF env _ refl, where c = c and i = undefined and t = None and ident = "who ?pid" and w = w and snap = snap
          and store = "run_store lib config so" and supp = False and stats = st], goal_cases)
      case (2 m mi mk objs)
      then show ?case by (intro that [of mi mk]) simp
    qed simp
    have oc: "outcome_of (who ?pid) False (run_store lib config so) (cs_sha256 st \<noteq> None) = (if who ?pid = None then SkippedNonK8s else NoStoreDiscard)"
      using t i by (auto simp: outcome_of_def run_target_None)
    from r st fin have "run lib env (cx_args c) config ?p so w = (RunOk, report env config (final_payload (cx_args c) (who ?pid) mi mk st
        (if who ?pid = None then SkippedNonK8s else NoStoreDiscard)) w)" unfolding oc by simp
    from step_reported [OF env c this] node False show ?thesis unfolding refines_step_def spec by simp
  qed
qed

lemma crash_recorded:
  assumes env: "healthy_env env config decode parse" and node: "healthy_node env config parse who (w\<lparr>wo_fs := s1\<rparr>)"
    and x: "valid_crash x" and ks: "ks = crash_keys config x"
    and frame: "\<And>k. k \<noteq> en_path_of env (key_core ks) \<Longrightarrow> objs1 k = wo_objects w k"
    and objs: "objs = objs1(en_path_of env (key_proc_snapshot ks) \<mapsto> tar, en_path_of env (key_manifest ks) \<mapsto> json)"
    and m: "parse json = Some (manifest_to_json m)" "i32_min \<le> mf_signal m" "mf_signal m \<le> i32_max"
      "mf_core m = build_core_ref stats (Some (key_core ks)) supp" "mf_proc_snapshot m = Some r" "ps_object_key r = key_proc_snapshot ks"
    and core: "if cs_sha256 stats = None then core = None else Option.bind (objs1 (en_path_of env (key_core ks))) decode = core"
  shows "abs_records env config decode parse objs = (abs_records env config decode parse (wo_objects w))(x \<mapsto>
      \<lparr>rd_core = core, rd_truncated = cs_truncated_reason stats, rd_skipped = (if supp then Some ''rate_limit'' else None), rd_snapshot = True\<rparr>)"
    and "healthy_node env config parse who (w\<lparr>wo_fs := s1, wo_objects := objs\<rparr>)"
proof -
  let ?path = "en_path_of env"
  note eq = healthy_path_eq [OF env x x, folded ks]
  have ne: "?path (key_core ks) \<noteq> ?path (key_manifest ks)" "?path (key_core ks) \<noteq> ?path (key_proc_snapshot ks)"
    "?path (key_proc_snapshot ks) \<noteq> ?path (key_manifest ks)"
    by (simp_all add: eq)
  have own: "own_refs ks m" using m(4-6) by (auto simp: own_refs_def opt_filter_def split: if_splits)
  have refs: "own_refs (crash_keys config y) m'"
    if "valid_crash y" "manifest_at ?path parse (crash_keys config y) (wo_objects w) = Some m'" for y m'
    using node that by (simp add: healthy_node_def del: split_paired_All)
  have fr: "objs k = wo_objects w k" if "k \<notin> ?path ` {key_core ks, key_proc_snapshot ks, key_manifest ks}" for k
    using that frame [of k] by (simp add: objs)
  have man: "objs (?path (key_manifest ks)) = Some json" by (simp add: objs)
  note st = records_stored [where objs = "wo_objects w" and objs' = objs, OF env x refs fr [unfolded ks] man [unfolded ks] m(1-3) own [unfolded ks]]
  have rr: "read_record ?path decode objs m =
      \<lparr>rd_core = core, rd_truncated = cs_truncated_reason stats, rd_skipped = (if supp then Some ''rate_limit'' else None), rd_snapshot = True\<rparr>"
    using core m(4-6) ne by (auto simp: read_record_def objs opt_filter_def split: if_splits)
  show "abs_records env config decode parse objs = (abs_records env config decode parse (wo_objects w))(x \<mapsto>
      \<lparr>rd_core = core, rd_truncated = cs_truncated_reason stats, rd_skipped = (if supp then Some ''rate_limit'' else None), rd_snapshot = True\<rparr>)"
    unfolding rr [symmetric] by (rule st(1))
  have "\<forall>y m'. valid_crash y \<longrightarrow> manifest_at ?path parse (crash_keys config y) objs = Some m' \<longrightarrow> own_refs (crash_keys config y) m'"
    using st(2) by blast
  with node show "healthy_node env config parse who (w\<lparr>wo_fs := s1, wo_objects := objs\<rparr>)"
    by (simp add: healthy_node_def del: split_paired_All)
qed

text \<open>A drain that succeeded, with a target: the crash is in the ledger.\<close>

lemma healthy_captured:
  assumes "healthy_env env config decode parse"
  obtains snap where "capture (en_chk env) (en_io env) (en_ls env) (wo_fs w) (hc_proc_root config) pid
      (if hc_no_redact config then redactor_disabled else redactor_default) = Some (Got snap)"
  using capture_release healthy_env_simps(1) [OF assms] by fastforce

lemma healthy_run:
  assumes env: "healthy_env env config decode parse" and i: "run_identity env (cx_args c) config w = Some i"
    and t: "run_target lib env (cx_args c) config so w = Some (i, ks)" and ks: "ks = handler_keys config (cx_args c) i"
    and rs: "rate_stage env config (cx_args c) (run_target lib env (cx_args c) config so w) (wo_fs w) = ((rec, supp), s1)"
    and ds: "drain_stage env config (run_target lib env (cx_args c) config so w) supp (cx_core c) (wo_objects w) = (Some (Inr stats), objs1)"
  obtains m mi mk objs tar json rf where
    "run lib env (cx_args c) config (cx_core c) so w = (RunOk, report env config (final_payload (cx_args c) (Some i) mi mk stats
      (outcome_of (Some i) supp (run_store lib config so) (cs_sha256 stats \<noteq> None))) (w\<lparr>wo_fs := s1, wo_objects := objs\<rparr>))"
    "parse json = Some (manifest_to_json m)" "mf_signal m = ca_signal (cx_args c)"
    "mf_core m = build_core_ref stats (Some (key_core ks)) supp" "mf_proc_snapshot m = Some rf" "ps_object_key rf = key_proc_snapshot ks"
    "objs = objs1(en_path_of env (key_proc_snapshot ks) \<mapsto> tar, en_path_of env (key_manifest ks) \<mapsto> json)"
proof -
  let ?w1 = "w\<lparr>wo_fs := s1, wo_objects := objs1\<rparr>"
  obtain snap where cap: "capture (en_chk env) (en_io env) (en_ls env) (wo_fs w) (hc_proc_root config) (ca_host_pid (cx_args c))
      (if hc_no_redact config then redactor_disabled else redactor_default) = Some (Got snap)" using env by (rule healthy_captured)
  show thesis
  proof (rule healthy_finish [OF env _ ks, where t = "Some (i, ks)" and ident = "Some i" and w = ?w1 and snap = snap
        and store = "run_store lib config so" and supp = supp and stats = stats], goal_cases)
    case (2 m mi mk objs)
    from 2(3) obtain tar json rf where m: "parse json = Some (manifest_to_json m)" "mf_signal m = ca_signal (cx_args c)"
      "mf_core m = build_core_ref stats (Some (key_core ks)) supp" "mf_proc_snapshot m = Some rf" "ps_object_key rf = key_proc_snapshot ks"
      "objs = objs1(en_path_of env (key_proc_snapshot ks) \<mapsto> tar, en_path_of env (key_manifest ks) \<mapsto> json)" by auto
    show ?case by (rule that [OF _ m]) (use run_captured [OF cap rs ds] 2(1) i t in simp)
  qed simp
qed

lemma run_recorded:
  assumes env: "healthy_env env config decode parse" and node: "healthy_node env config parse who (w\<lparr>wo_fs := s1\<rparr>)" and c: "crash_ok c"
    and t: "run_target lib env (cx_args c) config so w = Some (i, handler_keys config (cx_args c) i)" and x: "valid_crash x"
    and ks: "handler_keys config (cx_args c) i = crash_keys config x"
    and rs: "rate_stage env config (cx_args c) (run_target lib env (cx_args c) config so w) (wo_fs w) = ((rec, supp), s1)"
    and ds: "drain_stage env config (run_target lib env (cx_args c) config so w) supp (cx_core c) (wo_objects w) = (Some (Inr stats), objs1)"
    and core: "if cs_sha256 stats = None then core = None else Option.bind (objs1 (en_path_of env (key_core (crash_keys config x)))) decode = core"
  shows "fst (handler_step lib env config so parse c w) =
      (True, [Some (outcome_of (Some i) supp (run_store lib config so) (cs_sha256 stats \<noteq> None))])"
    and "abs_ledger env config decode parse (snd (handler_step lib env config so parse c w)) =
      \<lparr>lg_limiter = rate_abs (en_rate_codec env) (handler_limiter config) s1,
       lg_records = (abs_records env config decode parse (wo_objects w))(x \<mapsto>
         \<lparr>rd_core = core, rd_truncated = cs_truncated_reason stats, rd_skipped = (if supp then Some ''rate_limit'' else None), rd_snapshot = True\<rparr>)\<rparr>"
    and "healthy_node env config parse who (snd (handler_step lib env config so parse c w))"
proof -
  have i: "run_identity env (cx_args c) config w = Some i" using t by (auto simp: run_target_def split: option.splits)
  from healthy_run [OF env i t refl rs ds, unfolded ks] obtain m mi mk objs tar json rf where
    r: "run lib env (cx_args c) config (cx_core c) so w = (RunOk, report env config (final_payload (cx_args c) (Some i) mi mk stats
      (outcome_of (Some i) supp (run_store lib config so) (cs_sha256 stats \<noteq> None))) (w\<lparr>wo_fs := s1, wo_objects := objs\<rparr>))"
    and m: "parse json = Some (manifest_to_json m)" "mf_signal m = ca_signal (cx_args c)"
      "mf_core m = build_core_ref stats (Some (key_core (crash_keys config x))) supp" "mf_proc_snapshot m = Some rf"
      "ps_object_key rf = key_proc_snapshot (crash_keys config x)"
      "objs = objs1(en_path_of env (key_proc_snapshot (crash_keys config x)) \<mapsto> tar, en_path_of env (key_manifest (crash_keys config x)) \<mapsto> json)" .
  note rep = step_reported [OF env c r]
  have "objs1 k = wo_objects w k" if "k \<noteq> en_path_of env (key_core (crash_keys config x))" for k
    using drain_stage_frame [OF ds] that t ks by auto
  moreover have "i32_min \<le> ca_signal (cx_args c)" "ca_signal (cx_args c) \<le> i32_max" using c by (simp_all add: crash_ok_def)
  ultimately have stored: "abs_records env config decode parse objs = (abs_records env config decode parse (wo_objects w))(x \<mapsto>
         \<lparr>rd_core = core, rd_truncated = cs_truncated_reason stats, rd_skipped = (if supp then Some ''rate_limit'' else None), rd_snapshot = True\<rparr>)"
      "healthy_node env config parse who (w\<lparr>wo_fs := s1, wo_objects := objs\<rparr>)"
    using crash_recorded [OF env node x refl, of objs1 objs tar json m stats supp rf core] core m by simp_all
  show "fst (handler_step lib env config so parse c w) =
      (True, [Some (outcome_of (Some i) supp (run_store lib config so) (cs_sha256 stats \<noteq> None))])"
    using rep(1) by simp
  show "abs_ledger env config decode parse (snd (handler_step lib env config so parse c w)) =
      \<lparr>lg_limiter = rate_abs (en_rate_codec env) (handler_limiter config) s1,
       lg_records = (abs_records env config decode parse (wo_objects w))(x \<mapsto>
         \<lparr>rd_core = core, rd_truncated = cs_truncated_reason stats, rd_skipped = (if supp then Some ''rate_limit'' else None), rd_snapshot = True\<rparr>)\<rparr>"
    using rep(2) stored(1) by (simp add: abs_ledger_def)
  show "healthy_node env config parse who (snd (handler_step lib env config so parse c w))"
    using rep(3) stored(2) by simp
qed

text \<open>
  The state of a capture with a target once the limiter was asked: \<open>s1\<close> is the file system, \<open>d\<close> the
  decision.
\<close>

definition asked where
  "asked lib env config so parse who c w i x d s1 \<longleftrightarrow>
     run_target lib env (cx_args c) config so w = Some (i, crash_keys config x) \<and>
     x = (i, ca_timestamp (cx_args c), ca_host_pid (cx_args c)) \<and> valid_crash x \<and> who (ca_host_pid (cx_args c)) = Some i \<and>
     check_and_record (en_rate_codec env) (en_io env) (handler_limiter config) (cg_pod_uid i) (ca_timestamp (cx_args c)) (wo_fs w) = (d, s1) \<and>
     job_update (hc_max_cores_per_hour config) (Check (cg_pod_uid i) (ca_timestamp (cx_args c)))
       (rate_abs (en_rate_codec env) (handler_limiter config) (wo_fs w)) =
       (Some d, rate_abs (en_rate_codec env) (handler_limiter config) s1) \<and>
     healthy_limiter (en_rate_codec env) (en_io env) (handler_limiter config) s1 \<and>
     differs_at (hc_rate_state_path config) (wo_fs w) s1 \<and> healthy_node env config parse who (w\<lparr>wo_fs := s1\<rparr>)"

lemma handler_limiter_simps [simp]:
  "rl_max_per_hour (handler_limiter config) = hc_max_cores_per_hour config"
  "rl_state_path (handler_limiter config) = hc_rate_state_path config"
  by (simp_all add: handler_limiter_def)

lemma target_asked:
  assumes node: "healthy_node env config parse who w" and t: "run_target lib env (cx_args c) config so w = Some (i, ks)"
  obtains x d s1 where "asked lib env config so parse who c w i x d s1"
proof -
  let ?pid = "ca_host_pid (cx_args c)" and ?ts = "ca_timestamp (cx_args c)"
  let ?codec = "en_rate_codec env" and ?io = "en_io env" and ?rl = "handler_limiter config"
  have i: "run_identity env (cx_args c) config w = Some i" and ks: "ks = handler_keys config (cx_args c) i"
    using t by (auto simp: run_target_def split: option.splits)
  have "valid_crash (i, ?ts, ?pid)"
    using i parse_cgroup_valid by (auto simp: run_identity_def read_cgroup_identity_def valid_crash_def split: sum.splits)
  moreover have "who ?pid = Some i" using i node by (simp add: run_identity_def healthy_node_def)
  moreover have hl: "healthy_limiter ?codec ?io ?rl (wo_fs w)" using node by (simp add: healthy_node_def)
  moreover obtain d s1 where cr: "check_and_record ?codec ?io ?rl (cg_pod_uid i) ?ts (wo_fs w) = (d, s1)" by fastforce
  moreover from file_job_total [OF hl, of "Check (cg_pod_uid i) ?ts"] cr
  have "job_update (hc_max_cores_per_hour config) (Check (cg_pod_uid i) ?ts) (rate_abs ?codec ?rl (wo_fs w)) = (Some d, rate_abs ?codec ?rl s1)"
    "healthy_limiter ?codec ?io ?rl s1" "differs_at (hc_rate_state_path config) (wo_fs w) s1"
    by (simp_all add: file_job_def prod_eq_iff)
  moreover from this(2,3) have "healthy_node env config parse who (w\<lparr>wo_fs := s1\<rparr>)" using node_limited [OF node] by blast
  ultimately show thesis
    using t ks by (intro that [of "(i, ?ts, ?pid)" d s1]) (simp add: asked_def crash_keys_def handler_keys_def)
qed

lemma asked_identity:
  assumes "asked lib env config so parse who c w i x d s1"
  shows "run_identity env (cx_args c) config w = Some i" "run_store lib config so \<noteq> None"
    "handler_keys config (cx_args c) i = crash_keys config x"
  using assms by (auto simp: asked_def run_target_def split: option.splits)

lemma refines_suppressed:
  assumes env: "healthy_env env config decode parse" and c: "crash_ok c"
    and a: "asked lib env config so parse who c w i x (Suppressed n) s1"
  shows "refines_step lib env config so decode parse who c w"
proof -
  let ?p = "cx_core c" and ?t = "run_target lib env (cx_args c) config so w"
  obtain s e where se: "stream_of ?p = (s, e)" by fastforce
  note spec = refines_step_def spec_step_def capture_spec_def se abs_ledger_def
  note id = asked_identity [OF a]
  have rs: "rate_stage env config (cx_args c) ?t (wo_fs w) = ((False, True), s1)"
    using a by (simp add: asked_def rate_stage_def)
  have ds: "drain_stage env config ?t True ?p (wo_objects w) = (discard_drain True ?p, wo_objects w)"
    using healthy_env_simps(2) [OF env] by (simp add: drain_stage_def)
  show ?thesis
  proof (cases "e = AtStall")
    case True
    obtain snap where cap: "capture (en_chk env) (en_io env) (en_ls env) (wo_fs w) (hc_proc_root config) (ca_host_pid (cx_args c))
      (if hc_no_redact config then redactor_disabled else redactor_default) = Some (Got snap)" using env by (rule healthy_captured)
    from True run_captured [OF cap rs ds] se id have "run lib env (cx_args c) config ?p so w = (RunErr DeadlineExceeded, report env config
        (failure_payload env (cx_args c) (Some i) DeadlineExceeded) (w\<lparr>wo_fs := s1\<rparr>))" by (simp add: discard_result split: option.split)
    from step_reported [OF env c this] True id(2) a show ?thesis by (simp add: spec asked_def)
  next
    case False
    with ds se obtain stats where d: "drain_stage env config ?t True ?p (wo_objects w) = (Some (Inr stats), wo_objects w)"
        "cs_sha256 stats = None" "cs_truncated_reason stats = (if e = AtError then Some ''stream_error'' else None)"
      by (simp add: discard_result)
    have "?t = Some (i, handler_keys config (cx_args c) i)" "valid_crash x" "healthy_node env config parse who (w\<lparr>wo_fs := s1\<rparr>)"
      using a unfolding asked_def id(3) by blast+
    from run_recorded [OF env this(3) c this(1,2) id(3) rs d(1), of None] d(2,3) False id(2) a show ?thesis
      by (simp add: spec asked_def outcome_of_def)
  qed
qed

lemma admitted_stages:
  assumes "healthy_env env config decode parse" "asked lib env config so parse who c w i x Allowed s1"
  shows "rate_stage env config (cx_args c) (run_target lib env (cx_args c) config so w) (wo_fs w) = ((True, False), s1)"
    and "drain_stage env config (run_target lib env (cx_args c) config so w) False (cx_core c) (wo_objects w) =
      standalone_drain (en_upload env) (standalone_new (en_path_of env) (key_core (crash_keys config x)) (hc_max_core_bytes config))
        True (cx_core c) (wo_objects w)"
  using assms(2) healthy_env_simps(2) [OF assms(1)] by (simp_all add: asked_def rate_stage_def drain_stage_def)

text \<open>The pipe stalls: the admission is given back, and nothing is stored.\<close>

lemma refines_stalled:
  assumes env: "healthy_env env config decode parse" and node: "healthy_node env config parse who w" and c: "crash_ok c"
    and a: "asked lib env config so parse who c w i x Allowed s1" and stall: "stream_of (cx_core c) = (s, AtStall)"
  shows "refines_step lib env config so decode parse who c w"
proof -
  note id = asked_identity [OF a] and stages = admitted_stages [OF env a]
  have t: "run_target lib env (cx_args c) config so w = Some (i, crash_keys config x)" using a unfolding asked_def by blast
  have "length (fst (stream_of (cx_core c))) < 2 ^ 64" using c by (simp add: crash_ok_def)
  with stalled_drain [OF _ this healthy_env_simps(5) [OF env]] stall stages(2) obtain er where
    d: "drain_stage env config (run_target lib env (cx_args c) config so w) False (cx_core c) (wo_objects w) = (Some (Inl er), wo_objects w)"
    by fastforce
  define s2 where "s2 = refund (en_rate_codec env) (en_io env) (handler_limiter config) (cg_pod_uid i) (ca_timestamp (cx_args c)) s1"
  have "healthy_limiter (en_rate_codec env) (en_io env) (handler_limiter config) s1" using a by (simp add: asked_def)
  from file_job_total [OF this, of "Refund (cg_pod_uid i) (ca_timestamp (cx_args c))"]
  have j2: "rate_abs (en_rate_codec env) (handler_limiter config) s2 = snd (job_update (hc_max_cores_per_hour config)
      (Refund (cg_pod_uid i) (ca_timestamp (cx_args c))) (rate_abs (en_rate_codec env) (handler_limiter config) s1))"
    and l2: "healthy_limiter (en_rate_codec env) (en_io env) (handler_limiter config) s2"
    and d2: "differs_at (hc_rate_state_path config) s1 s2" by (simp_all add: file_job_def s2_def)
  have "differs_at (hc_rate_state_path config) (wo_fs w) s2" using a d2 differs_at_trans by (auto simp: asked_def)
  then have n2: "healthy_node env config parse who (w\<lparr>wo_fs := s2\<rparr>)" by (rule node_limited [OF node _ l2])
  obtain snap where cap: "capture (en_chk env) (en_io env) (en_ls env) (wo_fs w) (hc_proc_root config) (ca_host_pid (cx_args c))
    (if hc_no_redact config then redactor_disabled else redactor_default) = Some (Got snap)" using env by (rule healthy_captured)
  from run_captured [OF cap stages(1) d] have "run lib env (cx_args c) config (cx_core c) so w = (RunErr er, report env config
      (failure_payload env (cx_args c) (Some i) er) (w\<lparr>wo_fs := s2\<rparr>))" by (simp add: id t s2_def)
  from step_reported [OF env c this] n2 id(2) a j2 show ?thesis
    by (simp add: refines_step_def spec_step_def capture_spec_def stall abs_ledger_def asked_def)
qed

text \<open>The pipe ends: the core is stored, up to the cap, and the crash is recorded.\<close>

lemma refines_uploaded:
  assumes env: "healthy_env env config decode parse" and c: "crash_ok c"
    and a: "asked lib env config so parse who c w i x Allowed s1" and se: "stream_of (cx_core c) = (s, e)" "e \<noteq> AtStall"
  shows "refines_step lib env config so decode parse who c w"
proof -
  let ?t = "run_target lib env (cx_args c) config so w" and ?ks = "crash_keys config x"
  note id = asked_identity [OF a] and stages = admitted_stages [OF env a]
  have len: "length (fst (stream_of (cx_core c))) < 2 ^ 64" using c by (simp add: crash_ok_def)
  have t: "?t = Some (i, ?ks)" "valid_crash x" "healthy_node env config parse who (w\<lparr>wo_fs := s1\<rparr>)"
    using a unfolding asked_def by blast+
  have "snd (stream_of (cx_core c)) \<noteq> AtStall" using se by simp
  then obtain stats objs1 where
    d: "drain_stage env config ?t False (cx_core c) (wo_objects w) = (Some (Inr stats), objs1)"
    using accepting_drain [OF healthy_env_simps(4) [OF env]] unfolding stages(2) by blast
  from d [unfolded t] len obtain cs obj where st: "concat cs = capped (hc_max_core_bytes config) (fst (stream_of (cx_core c)))"
    "obj = z_stream (ue_zstd (en_upload env)) cs" "objs1 = (wo_objects w)(en_path_of env (key_core ?ks) \<mapsto> obj)"
    "cs_sha256 stats = Some (hex_lower (ue_sha256 (en_upload env) obj))"
    "cs_truncated_reason stats = (if snd (stream_of (cx_core c)) = AtError then Some ''stream_error''
      else if hc_max_core_bytes config \<noteq> 0 \<and> unat (hc_max_core_bytes config) < length (fst (stream_of (cx_core c))) then Some ''size_cap'' else None)"
    by (rule drain_stage_stores)
  with healthy_env_simps(7) [OF env]
  have "Option.bind (objs1 (en_path_of env (key_core ?ks))) decode = Some (capped (hc_max_core_bytes config) s)" by (simp add: zstd_ok_def se)
  with st(4,5) run_recorded [OF env t(3) c t(1) [folded id(3)] t(2) id(3) stages(1) d, of "Some (capped (hc_max_core_bytes config) s)"] id(2) a se
  show ?thesis by (simp add: refines_step_def spec_step_def capture_spec_def abs_ledger_def asked_def outcome_of_def)
qed

lemma refines_admitted:
  assumes "healthy_env env config decode parse" "healthy_node env config parse who w" "crash_ok c"
    and "asked lib env config so parse who c w i x Allowed s1"
  shows "refines_step lib env config so decode parse who c w"
  using refines_stalled [OF assms] refines_uploaded [OF assms(1,3,4)] by (metis prod.collapse)

definition on_healthy_node where
  "on_healthy_node env config decode parse who w \<longleftrightarrow> healthy_env env config decode parse \<and> healthy_node env config parse who w"

interpretation captures: simulation "on_healthy_node env config decode parse who" crash_ok "abs_ledger env config decode parse"
    "handler_step lib env config so parse"
    "spec_step (hc_max_cores_per_hour config) (hc_max_core_bytes config) (run_store lib config so \<noteq> None) who"
  for lib env config so decode parse who
proof -
  have "refines_step lib env config so decode parse who c w" if "on_healthy_node env config decode parse who w" "crash_ok c" for c w
  proof (cases "run_target lib env (cx_args c) config so w")
    case None
    with that show ?thesis by (simp add: on_healthy_node_def refines_untargeted)
  next
    case (Some a)
    obtain i ks where "a = (i, ks)" by fastforce
    with that Some obtain x d s1 where "asked lib env config so parse who c w i x d s1"
      by (auto simp: on_healthy_node_def elim: target_asked)
    with that show ?thesis by (cases d) (auto simp: on_healthy_node_def intro: refines_suppressed refines_admitted)
  qed
  then show "simulation (on_healthy_node env config decode parse who) crash_ok (abs_ledger env config decode parse)
      (handler_step lib env config so parse)
      (spec_step (hc_max_cores_per_hour config) (hc_max_core_bytes config) (run_store lib config so \<noteq> None) who)"
    by unfold_locales (auto simp: refines_step_def on_healthy_node_def)
qed

section \<open>A healthy example\<close>

text \<open>JSON values as decimal numbers, for a printer that takes every value.\<close>

instance json :: countable
  by countable_datatype

definition decimal_print :: "json \<Rightarrow> bytes option" where
  "decimal_print v = Some (show_nat (to_nat v))"

definition decimal_parse :: "bytes \<Rightarrow> json option" where
  "decimal_parse b = map_option from_nat (parse_nat b)"

lemma decimal_inverse: "\<exists>b. decimal_print v = Some b \<and> decimal_parse b = Some v"
  by (simp add: decimal_print_def decimal_parse_def parse_show_nat)

definition decimal_env :: "(nat, unit) capture_env" where
  "decimal_env = (example_capture_env decimal_codec)\<lparr>en_json_pretty := decimal_print, en_json_print := decimal_print\<rparr>"

definition example_who :: "int \<Rightarrow> cgroup_identity option" where
  "example_who pid = (if pid = 7 then Some example_identity else None)"

lemma example_healthy_env: "healthy_env decimal_env (example_config m) stored_decode decimal_parse"
proof -
  have "to_tar (en_tar decimal_env) snap \<noteq> None" for snap
  proof -
    have "append_files (en_tar decimal_env) b fs = Some ()" for b fs
      by (induction fs arbitrary: b) (auto simp: decimal_env_def example_capture_env_def append_tar_def)
    then show ?thesis by (simp add: to_tar_entries decimal_env_def example_capture_env_def)
  qed
  moreover have "inj_on (en_path_of decimal_env) A" for A by (simp add: decimal_env_def)
  ultimately show ?thesis
    by (simp add: healthy_env_def decimal_env_def decimal_inverse accepting_def fresh_writer_def example_env_def stored_zstd_ok)
      (simp add: example_capture_env_def)
qed

lemma example_cgroup_path: "cgroup_path (example_config m) pid = ''/proc/'' @ show_int pid @ ''/cgroup''"
proof -
  have "show_int pid \<noteq> []" "CHR ''/'' \<notin> set (show_int pid)" using show_int_no_slash by (simp_all add: show_int_def)
  moreover from this(2) have "drop n (show_int pid) \<noteq> ''/''" for n by (metis in_set_dropD list.set_intros(1))
  ultimately show ?thesis
    by (cases "show_int pid") (auto simp: cgroup_path_def path_join_def is_absolute_def starts_with_def ends_with_def)
qed

lemma example_healthy_node: "healthy_node decimal_env (example_config m) decimal_parse example_who example_world"
proof -
  have path: "''/proc/'' @ show_int pid @ ''/cgroup'' = ''/proc/7/cgroup'' \<longleftrightarrow> pid = 7" for pid
  proof -
    have "''/proc/7/cgroup'' = ''/proc/'' @ show_int 7 @ ''/cgroup''" by code_simp
    then show ?thesis using show_int_dash_unique [of pid "[]" 7 "[]"] by auto
  qed
  have fl: "follow (wo_fs example_world) q = Some q" for q
    by (auto intro!: follow_plain simp: example_world_def split: if_splits)
  have at: "wo_fs example_world (cgroup_path (example_config m) pid) = (if pid = 7 then Some (File example_cgroup mode_644) else None)" for pid
    unfolding example_cgroup_path using path [of pid] by (auto simp: example_world_def)
  have "read_to_string no_faults (wo_fs example_world) (cgroup_path (example_config m) pid) =
      (if pid = 7 then Inr example_cgroup else Inl NotFound)" for pid
    by (simp add: read_to_string_def fs_read_def node_at_def fl at example_parse)
  then have "read_cgroup_identity (en_io decimal_env) (wo_fs example_world) (hc_proc_root (example_config m)) pid = example_who pid" for pid
    by (simp add: read_cgroup_identity_def cgroup_path_def decimal_env_def example_who_def example_parse)
  moreover have "rate_home (handler_limiter (example_config m)) (wo_fs example_world)"
    by (simp add: rate_home_def rate_file_example_simps example_world_def)
  ultimately show ?thesis
    using decimal_codec_lossless
    by (simp add: healthy_node_def healthy_limiter_def decimal_env_def fl example_cgroup_path manifest_at_def)
qed

lemma example_rate_abs: "rate_abs decimal_codec (handler_limiter (example_config m)) (wo_fs example_world) = rate_default"
proof -
  have "parse_nat ''J'' = None" by code_simp
  then show ?thesis by (simp add: rate_abs_def rate_file_example_simps example_world_def decimal_codec_def)
qed

section \<open>Properties\<close>

text \<open>
  C2. A series of captures is the ledger of the crashes. On a healthy node, whatever the crashed
  processes write to their pipes and however often they crash, every run ends and sends one
  report; the outcomes are those of the specification, and afterwards the manifests in the
  store, with the objects that they refer to, are exactly the records that the specification
  keeps: a core cut at the cap for every crash that the budget admits and whose pipe ends, a
  record without core and with the reason for one that the budget suppresses, nothing for one
  whose pipe stalls, and the limiter's file stands for the specification's window.
\<close>

theorem captures_refine_ledger:
  assumes "healthy_env env config decode parse" "healthy_node env config parse who w" "list_all crash_ok cs"
  shows "fst (run_steps (handler_step lib env config so parse) cs w) =
      fst (run_steps (spec_step (hc_max_cores_per_hour config) (hc_max_core_bytes config) (run_store lib config so \<noteq> None) who) cs
        (abs_ledger env config decode parse w)) \<and>
    abs_ledger env config decode parse (snd (run_steps (handler_step lib env config so parse) cs w)) =
      snd (run_steps (spec_step (hc_max_cores_per_hour config) (hc_max_core_bytes config) (run_store lib config so \<noteq> None) who) cs
        (abs_ledger env config decode parse w))"
  using captures.series [of env config decode parse who w cs lib so] assms by (simp add: on_healthy_node_def)

theorem captures_refine_ledger_witness:
  "fst (run_steps (handler_step example_lib decimal_env (example_config 1) (Some ''s'') decimal_parse)
      [\<lparr>cx_args = example_args, cx_core = [Data ''ab'']\<rparr>, \<lparr>cx_args = example_args, cx_core = [Data ''cd'']\<rparr>,
       \<lparr>cx_args = example_args, cx_core = [Stall]\<rparr>] example_world) =
    [(True, [Some Uploaded]), (True, [Some SuppressedRateLimit]), (False, [Some Failed])]"
proof -
  let ?cs = "[\<lparr>cx_args = example_args, cx_core = [Data ''ab'']\<rparr>, \<lparr>cx_args = example_args, cx_core = [Data ''cd'']\<rparr>,
       \<lparr>cx_args = example_args, cx_core = [Stall]\<rparr>]"
  have ok: "list_all crash_ok ?cs"
    by (simp add: crash_ok_def i32_min_def i32_max_def i64_min_def i64_max_def) (simp add: example_args_def)
  let ?check = "job_update 1 (Check ''12-ab'' 1000)"
  obtain st1 st2 st3 where "?check rate_default = (Some Allowed, st1)" "?check st1 = (Some (Suppressed 1), st2)"
    "?check st2 = (Some (Suppressed 1), st3)"
  proof -
    have "fst (?check rate_default) = Some Allowed" "fst (?check (snd (?check rate_default))) = Some (Suppressed 1)"
      "fst (?check (snd (?check (snd (?check rate_default))))) = Some (Suppressed 1)" by code_simp+
    with that show thesis by (metis prod.collapse)
  qed
  then have "fst (run_steps (spec_step 1 2147483648 True example_who) ?cs \<lparr>lg_limiter = rate_default, lg_records = R\<rparr>) =
      [(True, [Some Uploaded]), (True, [Some SuppressedRateLimit]), (False, [Some Failed])]" for R
    by (simp add: spec_step_def capture_spec_def example_who_def example_identity_def)
  moreover have "abs_ledger decimal_env (example_config 1) stored_decode decimal_parse example_world =
      \<lparr>lg_limiter = rate_default, lg_records = abs_records decimal_env (example_config 1) stored_decode decimal_parse Map.empty\<rparr>"
    using example_rate_abs by (simp add: abs_ledger_def) (simp add: decimal_env_def)
  ultimately show ?thesis
    using captures_refine_ledger [OF example_healthy_env [of 1] example_healthy_node ok,
      where lib = example_lib and so = "Some ''s''"]
    by (simp add: run_store_def)
qed

text \<open>
  C3. A core that the budget admits is kept. On a healthy node, when the crashed process belongs to
  a container, a store is configured and fewer uploads than the budget lie in the pod's window
  (or there is no budget), a pipe that does not stall leads to a run that ends with success,
  after which the manifest of the crash is in the store and the core that it refers to
  decompresses to what the kernel wrote, up to the size cap.
\<close>

theorem admitted_core_kept:
  assumes "healthy_env env config decode parse" "healthy_node env config parse who w" "crash_ok c"
    and "who (ca_host_pid (cx_args c)) = Some i" "run_store lib config so \<noteq> None" "snd (stream_of (cx_core c)) \<noteq> AtStall"
    and "hc_max_cores_per_hour config = 0 \<or>
      length (filter (\<lambda>t. i64_sub (ca_timestamp (cx_args c)) RATE_WINDOW_SECS < t)
        (used (rate_abs (en_rate_codec env) (handler_limiter config) (wo_fs w)) (cg_pod_uid i))) < unat (hc_max_cores_per_hour config)"
  shows "\<exists>w' r. run lib env (cx_args c) config (cx_core c) so w = (RunOk, w') \<and>
    abs_record (en_path_of env) decode parse (handler_keys config (cx_args c) i) (wo_objects w') = Some r \<and>
    rd_core r = Some (capped (hc_max_core_bytes config) (fst (stream_of (cx_core c))))"
proof -
  let ?x = "(i, ca_timestamp (cx_args c), ca_host_pid (cx_args c))" and ?lg = "abs_ledger env config decode parse w"
  let ?spec = "spec_step (hc_max_cores_per_hour config) (hc_max_core_bytes config) (run_store lib config so \<noteq> None) who c ?lg"
  obtain fin w' where r: "run lib env (cx_args c) config (cx_core c) so w = (fin, w')" by fastforce
  have on: "on_healthy_node env config decode parse who w" using assms(1,2) by (simp add: on_healthy_node_def)
  obtain s e where se: "stream_of (cx_core c) = (s, e)" by fastforce
  have "fst (job_update (hc_max_cores_per_hour config) (Check (cg_pod_uid i) (ca_timestamp (cx_args c))) (lg_limiter ?lg)) = Some Allowed"
    using assms(7) check_update_decision [of "hc_max_cores_per_hour config" "cg_pod_uid i" "ca_timestamp (cx_args c)" "lg_limiter ?lg"]
    by (auto simp: job_update_def abs_ledger_def split: prod.splits)
  then obtain st where
    "job_update (hc_max_cores_per_hour config) (Check (cg_pod_uid i) (ca_timestamp (cx_args c))) (lg_limiter ?lg) = (Some Allowed, st)"
    by (metis prod.collapse)
  with assms(4-6) have spec: "fst ?spec = (True, [Some Uploaded])"
    "map_option rd_core (lg_records (snd ?spec) ?x) = Some (Some (capped (hc_max_core_bytes config) s))"
    by (simp_all add: spec_step_def capture_spec_def se)
  from captures.answers [OF on assms(3), of lib so] r spec(1) have "fin = RunOk" by (simp add: handler_step_def)
  moreover from captures.commutes [OF on assms(3), of lib so] r
  have "snd ?spec = abs_ledger env config decode parse w'" by (simp add: handler_step_def)
  then have "lg_records (snd ?spec) = abs_records env config decode parse (wo_objects w')" by (simp add: abs_ledger_def)
  moreover have "crash_keys config ?x = handler_keys config (cx_args c) i" by (simp add: crash_keys_def handler_keys_def)
  ultimately show ?thesis using r spec(2) se by (auto simp: abs_records_def split: if_splits)
qed

theorem admitted_core_kept_witness:
  "\<exists>w' r. run example_lib decimal_env example_args (example_config 1) [Data ''ab'', ReadErr] (Some ''s'') example_world = (RunOk, w') \<and>
    abs_record id stored_decode decimal_parse example_keys (wo_objects w') = Some r \<and> rd_core r = Some ''ab''"
proof -
  let ?c = "\<lparr>cx_args = example_args, cx_core = [Data ''ab'', ReadErr]\<rparr>"
  have ok: "crash_ok ?c"
    by (simp add: crash_ok_def i32_min_def i32_max_def i64_min_def i64_max_def) (simp add: example_args_def)
  have "used (rate_abs (en_rate_codec decimal_env) (handler_limiter (example_config 1)) (wo_fs example_world)) (cg_pod_uid example_identity) = []"
    using example_rate_abs by (simp add: decimal_env_def used_def rate_default_def)
  with admitted_core_kept [OF example_healthy_env [of 1] example_healthy_node ok, of example_identity example_lib "Some ''s''"]
  show ?thesis by (simp add: example_who_def run_store_def example_keys_eq capped_def) (simp add: decimal_env_def)
qed

end
