(* ===== verification/K8s_Events.thy ===== *)
theory K8s_Events
  imports Events Cgroup Filesystem Rust_Num
begin

text \<open>
  \<open>src/k8s_events.rs\<close>: the daemon's end of the event socket. Each datagram is logged and, when
  it names a pod, turned into a Kubernetes Event: created on the first crash of a pod for a
  reason, counted on repeats. The HTTP client, TLS, URLs and \<open>chrono\<close> are parameters; a request
  is a value, and what the API server answers is the environment's choice.

  Times are nanoseconds of the monotonic clock.
\<close>

section \<open>Constants\<close>

definition SERVICE_ACCOUNT_DIR :: path where
  "SERVICE_ACCOUNT_DIR = ''/var/run/secrets/kubernetes.io/serviceaccount''"

definition secs :: "nat \<Rightarrow> nat" where "secs n = n * 1000000000"

definition AGGREGATION_TTL :: nat where "AGGREGATION_TTL = secs (60 * 60)"
definition EVENT_SOCKET_MODE :: nat where "EVENT_SOCKET_MODE = 384"
definition MAX_AGGREGATION_KEYS :: nat where "MAX_AGGREGATION_KEYS = 10000"
definition AGGREGATION_SWEEP_INTERVAL :: nat where "AGGREGATION_SWEEP_INTERVAL = secs (5 * 60)"
definition RECV_ERROR_BACKOFF :: nat where "RECV_ERROR_BACKOFF = secs 1"
definition MAX_NAMESPACE_LEN :: nat where "MAX_NAMESPACE_LEN = 63"
definition RECV_BUF :: nat where "RECV_BUF = 64 * 1024"

section \<open>\<open>bind_socket\<close>\<close>

text \<open>\<open>bind\<close> makes the socket file; an existing path is in use.\<close>

definition socket_bind :: "io_env \<Rightarrow> fs \<Rightarrow> path \<Rightarrow> (io_error + unit) \<times> fs" where
  "socket_bind io s p =
     (if io_fails io OpBind p then (Inl (Fault OpBind), s)
      else if s p \<noteq> None then (Inl AlreadyExists, s)
      else if \<not> parent_is_dir s p then (Inl NotFound, s)
      else (Inr (), s(p \<mapsto> Socket mode_755)))"

definition bind_socket :: "io_env \<Rightarrow> path \<Rightarrow> fs \<Rightarrow> (io_error + unit) \<times> fs" where
  "bind_socket io p s =
     (case (case path_parent p of Some parent \<Rightarrow> ensure_private_dir io s parent | None \<Rightarrow> (Inr (), s)) of
        (Inl e, s1) \<Rightarrow> (Inl e, s1)
      | (Inr _, s1) \<Rightarrow>
     (case socket_bind io (snd (remove_file io s1 p)) p of
        (Inl e, s2) \<Rightarrow> (Inl e, s2)
      | (Inr _, s2) \<Rightarrow>
          if io_fails io OpNonblock p then (Inl (Fault OpNonblock), s2)
          else
     (case set_permissions io s2 p EVENT_SOCKET_MODE of
        (Inl e, s3) \<Rightarrow> (Inl e, s3)
      | (Inr _, s3) \<Rightarrow>
          if io_fails io OpRegister p then (Inl (Fault OpRegister), s3) else (Inr (), s3))))"

section \<open>\<open>Reason\<close>\<close>

datatype reason = CoreDumped | CoreDumpSuppressed | CoreDiscardedNoStore

fun reason_from_outcome :: "outcome \<Rightarrow> reason option" where
  "reason_from_outcome Uploaded = Some CoreDumped"
| "reason_from_outcome SuppressedRateLimit = Some CoreDumpSuppressed"
| "reason_from_outcome NoStoreDiscard = Some CoreDiscardedNoStore"
| "reason_from_outcome SkippedNonK8s = None"
| "reason_from_outcome Failed = None"

fun reason_as_str :: "reason \<Rightarrow> string" where
  "reason_as_str CoreDumped = ''CoreDumped''"
| "reason_as_str CoreDumpSuppressed = ''CoreDumpSuppressed''"
| "reason_as_str CoreDiscardedNoStore = ''CoreDiscardedNoStore''"

fun slug :: "reason \<Rightarrow> string" where
  "slug CoreDumped = ''coredumped''"
| "slug CoreDumpSuppressed = ''coredumpsuppressed''"
| "slug CoreDiscardedNoStore = ''corediscardednostore''"

section \<open>\<open>Aggregator\<close>\<close>

record agg_key =
  ak_namespace :: string
  ak_pod_uid :: string
  ak_reason :: reason

record agg_entry =
  ae_event_name :: string
  ae_count :: u32
  ae_created_at :: nat

text \<open>The hash map as an association list with distinct keys.\<close>

type_synonym aggregator = "(agg_key \<times> agg_entry) list"

record recorded =
  rc_event_name :: string
  rc_is_new :: bool
  rc_count :: u32

definition agg_default :: aggregator where "agg_default = []"

text \<open>\<open>duration_since\<close> saturates at zero.\<close>

definition agg_prune :: "nat \<Rightarrow> aggregator \<Rightarrow> aggregator" where
  "agg_prune now ag = filter (\<lambda>(_, e). now - ae_created_at e < AGGREGATION_TTL) ag"

definition agg_sweep :: "nat \<Rightarrow> aggregator \<Rightarrow> aggregator" where
  "agg_sweep now ag = agg_prune now ag"

text \<open>Writing through \<open>get_mut\<close>.\<close>

definition agg_put :: "agg_key \<Rightarrow> agg_entry \<Rightarrow> aggregator \<Rightarrow> aggregator" where
  "agg_put key entry ag = map (\<lambda>(k, e). (k, if k = key then entry else e)) ag"

definition agg_record :: "agg_key \<Rightarrow> nat \<Rightarrow> string \<Rightarrow> aggregator \<Rightarrow> recorded option \<times> aggregator" where
  "agg_record key now name ag =
     (let ag1 = agg_prune now ag
      in case map_of ag1 key of
           Some entry \<Rightarrow>
             (let entry' = entry\<lparr>ae_count := ae_count entry + 1\<rparr>
              in (Some \<lparr>rc_event_name = ae_event_name entry', rc_is_new = False, rc_count = ae_count entry'\<rparr>,
                  agg_put key entry' ag1))
         | None \<Rightarrow>
             if MAX_AGGREGATION_KEYS \<le> length ag1 then (None, ag1)
             else (Some \<lparr>rc_event_name = name, rc_is_new = True, rc_count = 1\<rparr>,
                   ag1 @ [(key, \<lparr>ae_event_name = name, ae_count = 1, ae_created_at = now\<rparr>)]))"

section \<open>Names and bodies\<close>

definition is_label_alnum :: "char \<Rightarrow> bool" where
  "is_label_alnum c \<longleftrightarrow> is_ascii_lowercase c \<or> is_ascii_digit c"

definition is_dns1123_label :: "string \<Rightarrow> bool" where
  "is_dns1123_label s \<longleftrightarrow>
     s \<noteq> [] \<and> length s \<le> MAX_NAMESPACE_LEN \<and> list_all (\<lambda>c. is_label_alnum c \<or> c = CHR ''-'') s \<and>
     is_label_alnum (hd s) \<and> is_label_alnum (last s)"

definition event_name :: "string \<Rightarrow> reason \<Rightarrow> int \<Rightarrow> string" where
  "event_name pod_uid r timestamp = ''coredrop-'' @ pod_uid @ ''-'' @ slug r @ ''-'' @ show_int timestamp"

record event_target =
  et_namespace :: string
  et_pod_name :: string
  et_pod_uid :: string

definition rfc3339_micro :: "(int \<Rightarrow> string option) \<Rightarrow> int \<Rightarrow> string" where
  "rfc3339_micro micros epoch_secs = (case micros epoch_secs of None \<Rightarrow> show_int epoch_secs | Some s \<Rightarrow> s)"

definition payload_signal :: "capture_event \<Rightarrow> string" where
  "payload_signal p = unwrap_or (ce_signal_name p) (show_int (ce_signal p))"

definition event_note :: "capture_event \<Rightarrow> string" where
  "event_note p =
     (case ce_manifest_key p of
        Some key \<Rightarrow> ''core dumped (signal '' @ payload_signal p @ ''); artifacts at '' @ key
      | None \<Rightarrow> ''core dumped (signal '' @ payload_signal p @ '')'')"

definition event_body :: "(int \<Rightarrow> string option) \<Rightarrow> string \<Rightarrow> string \<Rightarrow> reason \<Rightarrow> event_target \<Rightarrow> capture_event \<Rightarrow> json" where
  "event_body micros node name r target p = JObj
     [(''apiVersion'', JStr ''events.k8s.io/v1''), (''kind'', JStr ''Event''),
      (''metadata'', JObj [(''name'', JStr name), (''namespace'', JStr (et_namespace target))]),
      (''eventTime'', JStr (rfc3339_micro micros (ce_timestamp p))), (''reportingController'', JStr ''coredrop''),
      (''reportingInstance'', JStr node), (''action'', JStr ''CoreCaptured''), (''reason'', JStr (reason_as_str r)),
      (''regarding'', JObj [(''kind'', JStr ''Pod''), (''apiVersion'', JStr ''v1''), (''namespace'', JStr (et_namespace target)),
         (''name'', JStr (et_pod_name target)), (''uid'', JStr (et_pod_uid target))]),
      (''note'', JStr (event_note p)), (''type'', JStr ''Warning'')]"

definition series_patch :: "u32 \<Rightarrow> string \<Rightarrow> json" where
  "series_patch count last_observed =
     JObj [(''series'', JObj [(''count'', enc_word count), (''lastObservedTime'', JStr last_observed)])]"

section \<open>The API client\<close>

text \<open>
  \<open>reqwest\<close> and \<open>url\<close>: parsing a URL, appending path segments to it (which fails for a URL that
  cannot be a base), reading certificates, and building a client from a timeout and the only
  certificates it trusts.
\<close>

record ('u, 'c, 'h) http_lib =
  hl_url_parse :: "string \<Rightarrow> 'u option"
  hl_url_extend :: "'u \<Rightarrow> string list \<Rightarrow> 'u option"
  hl_pem_bundle :: "bytes \<Rightarrow> 'c list option"
  hl_build :: "nat \<Rightarrow> 'c list \<Rightarrow> 'h option"

datatype http_method = POST | PATCH

record 'u request =
  rq_method :: http_method
  rq_url :: 'u
  rq_bearer :: string
  rq_content_type :: string
  rq_body :: json

text \<open>The answer to a request: none, or a status and a body (a list of characters).\<close>

record response =
  rs_success :: bool
  rs_status :: string
  rs_text :: "string option"

datatype api_error = BadBase | SendFailed string | HttpStatus string string string

record ('u, 'h) event_client =
  ec_http :: 'h
  ec_events_base :: 'u
  ec_token :: string

definition build_http :: "('u, 'c, 'h) http_lib \<Rightarrow> bytes \<Rightarrow> 'h option" where
  "build_http lib ca_pem =
     (case hl_pem_bundle lib ca_pem of
        None \<Rightarrow> None
      | Some certs \<Rightarrow> if certs = [] then None else hl_build lib 30 certs)"

definition events_base :: "('u, 'c, 'h) http_lib \<Rightarrow> string \<Rightarrow> 'u option" where
  "events_base lib origin = hl_url_parse lib (origin @ ''/apis/events.k8s.io/v1/namespaces'')"

text \<open>\<open>vars\<close> are the environment variables that are valid Unicode.\<close>

definition client_from_env ::
  "('u, 'c, 'h) http_lib \<Rightarrow> io_env \<Rightarrow> fs \<Rightarrow> (string \<rightharpoonup> string) \<Rightarrow> ('u, 'h) event_client option" where
  "client_from_env lib io s vars =
     (case read_to_string io s (SERVICE_ACCOUNT_DIR @ ''/token'') of
        Inl _ \<Rightarrow> None
      | Inr tok \<Rightarrow>
     (case fs_read io s (SERVICE_ACCOUNT_DIR @ ''/ca.crt'') of
        Inl _ \<Rightarrow> None
      | Inr ca_pem \<Rightarrow>
     (case build_http lib ca_pem of
        None \<Rightarrow> None
      | Some http \<Rightarrow>
     (case vars ''KUBERNETES_SERVICE_HOST'' of
        None \<Rightarrow> None
      | Some host \<Rightarrow>
          (let port = unwrap_or (vars ''KUBERNETES_SERVICE_PORT'') ''443'';
               host' = (if CHR '':'' \<in> set host \<and> \<not> starts_with ''['' host then ''['' @ host @ '']'' else host)
           in case events_base lib (''https://'' @ host' @ '':'' @ port) of
                None \<Rightarrow> None
              | Some base \<Rightarrow> Some \<lparr>ec_http = http, ec_events_base = base, ec_token = trim tok\<rparr>)))))"

definition events_url :: "('u, 'c, 'h) http_lib \<Rightarrow> ('u, 'h) event_client \<Rightarrow> string \<Rightarrow> string option \<Rightarrow> 'u option" where
  "events_url lib client namespace name =
     hl_url_extend lib (ec_events_base client)
       ([namespace, ''events''] @ (case name of None \<Rightarrow> [] | Some n \<Rightarrow> [n]))"

definition api_result :: "response \<Rightarrow> string \<Rightarrow> api_error + unit" where
  "api_result resp what =
     (if rs_success resp then Inr ()
      else Inl (HttpStatus what (rs_status resp) (take 500 (unwrap_or (rs_text resp) []))))"

text \<open>A call's request, if one is made, and its result. \<open>net\<close> is the API server.\<close>

definition send_request :: "('u request \<Rightarrow> response option) \<Rightarrow> 'u request \<Rightarrow> string \<Rightarrow> 'u request list \<times> (api_error + unit)" where
  "send_request net rq what =
     ([rq], case net rq of None \<Rightarrow> Inl (SendFailed what) | Some resp \<Rightarrow> api_result resp what)"

definition create_event ::
  "('u, 'c, 'h) http_lib \<Rightarrow> ('u request \<Rightarrow> response option) \<Rightarrow> ('u, 'h) event_client \<Rightarrow> string \<Rightarrow> json
     \<Rightarrow> 'u request list \<times> (api_error + unit)" where
  "create_event lib net client namespace body =
     (case events_url lib client namespace None of
        None \<Rightarrow> ([], Inl BadBase)
      | Some url \<Rightarrow>
          send_request net \<lparr>rq_method = POST, rq_url = url, rq_bearer = ec_token client,
            rq_content_type = ''application/json'', rq_body = body\<rparr> ''create event'')"

definition patch_event_series ::
  "('u, 'c, 'h) http_lib \<Rightarrow> ('u request \<Rightarrow> response option) \<Rightarrow> ('u, 'h) event_client \<Rightarrow> string \<Rightarrow> string \<Rightarrow> json
     \<Rightarrow> 'u request list \<times> (api_error + unit)" where
  "patch_event_series lib net client namespace name body =
     (case events_url lib client namespace (Some name) of
        None \<Rightarrow> ([], Inl BadBase)
      | Some url \<Rightarrow>
          send_request net \<lparr>rq_method = PATCH, rq_url = url, rq_bearer = ec_token client,
            rq_content_type = ''application/merge-patch+json'', rq_body = body\<rparr> ''patch event series'')"

section \<open>The listener\<close>

record log_line =
  ll_warn :: bool
  ll_outcome :: string
  ll_fields :: "(string \<times> string) list"

definition log_capture :: "capture_event \<Rightarrow> log_line" where
  "log_capture p =
     (let str = (\<lambda>x. unwrap_or x ''<none>'')
      in \<lparr>ll_warn = (ce_outcome p = Failed), ll_outcome = outcome_as_str (ce_outcome p),
          ll_fields =
            [(''namespace'', str (ce_namespace p)), (''pod'', str (ce_pod_name p)), (''container'', str (ce_container_name p)),
             (''pod_uid'', str (ce_pod_uid p)), (''host_pid'', show_int (ce_host_pid p)), (''exe'', ce_exe p),
             (''signal'', payload_signal p), (''manifest_key'', str (ce_manifest_key p)),
             (''core_bytes'', show_nat (unat (ce_core_bytes p))), (''stored_bytes'', show_nat (unat (unwrap_or (ce_stored_bytes p) 0))),
             (''truncated'', if ce_truncated p then ''true'' else ''false''), (''error'', unwrap_or (ce_error p) [])]\<rparr>)"

definition handle_payload ::
  "('u, 'c, 'h) http_lib \<Rightarrow> ('u request \<Rightarrow> response option) \<Rightarrow> (int \<Rightarrow> string option) \<Rightarrow> ('u, 'h) event_client option
     \<Rightarrow> string \<Rightarrow> nat \<Rightarrow> capture_event \<Rightarrow> aggregator \<Rightarrow> 'u request list \<times> aggregator" where
  "handle_payload lib net micros client node now p ag =
     (case reason_from_outcome (ce_outcome p) of
        None \<Rightarrow> ([], ag)
      | Some r \<Rightarrow>
     (case client of
        None \<Rightarrow> ([], ag)
      | Some cl \<Rightarrow>
     (case (ce_namespace p, ce_pod_name p, ce_pod_uid p) of
        (Some namespace, Some pod_name, Some pod_uid) \<Rightarrow>
          if \<not> is_dns1123_label namespace \<or> \<not> is_pod_uid pod_uid then ([], ag)
          else
            (let target = \<lparr>et_namespace = namespace, et_pod_name = pod_name, et_pod_uid = pod_uid\<rparr>;
                 key = \<lparr>ak_namespace = namespace, ak_pod_uid = pod_uid, ak_reason = r\<rparr>
             in case agg_record key now (event_name pod_uid r (ce_timestamp p)) ag of
                  (None, ag') \<Rightarrow> ([], ag')
                | (Some rc, ag') \<Rightarrow>
                    (if rc_is_new rc
                     then fst (create_event lib net cl namespace (event_body micros node (rc_event_name rc) r target p))
                     else fst (patch_event_series lib net cl namespace (rc_event_name rc)
                            (series_patch (rc_count rc) (rfc3339_micro micros (ce_timestamp p)))), ag'))
      | _ \<Rightarrow> ([], ag))))"

text \<open>What the loop waits for: a datagram, a failed receive, or the sweep timer.\<close>

datatype listener_ev = Datagram nat bytes | RecvFailed | SweepTick nat

record 'u listener =
  li_aggregator :: aggregator
  li_logs :: "log_line list"
  li_requests :: "'u request list"

definition listener_init :: "'u listener" where
  "listener_init = \<lparr>li_aggregator = agg_default, li_logs = [], li_requests = []\<rparr>"

fun listener_step ::
  "('u, 'c, 'h) http_lib \<Rightarrow> ('u request \<Rightarrow> response option) \<Rightarrow> (int \<Rightarrow> string option) \<Rightarrow> (bytes \<Rightarrow> json option)
     \<Rightarrow> ('u, 'h) event_client option \<Rightarrow> string \<Rightarrow> listener_ev \<Rightarrow> 'u listener \<Rightarrow> 'u listener" where
  "listener_step lib net micros parse client node (Datagram now bs) li =
     (case Option.bind (parse (take RECV_BUF bs)) payload_of_json of
        None \<Rightarrow> li
      | Some p \<Rightarrow>
          (let (rqs, ag) = handle_payload lib net micros client node now p (li_aggregator li)
           in li\<lparr>li_aggregator := ag, li_logs := li_logs li @ [log_capture p], li_requests := li_requests li @ rqs\<rparr>))"
| "listener_step lib net micros parse client node RecvFailed li = li"
| "listener_step lib net micros parse client node (SweepTick now) li =
     li\<lparr>li_aggregator := agg_sweep now (li_aggregator li)\<rparr>"

text \<open>The loop has no end; a run is what it did for a finite sequence of events.\<close>

definition run_listener ::
  "('u, 'c, 'h) http_lib \<Rightarrow> ('u request \<Rightarrow> response option) \<Rightarrow> (int \<Rightarrow> string option) \<Rightarrow> (bytes \<Rightarrow> json option)
     \<Rightarrow> io_env \<Rightarrow> fs \<Rightarrow> (string \<rightharpoonup> string) \<Rightarrow> string \<Rightarrow> bool \<Rightarrow> listener_ev list \<Rightarrow> 'u listener" where
  "run_listener lib net micros parse io s vars node post_events evs =
     (let client = (if post_events then client_from_env lib io s vars else None)
      in fold (listener_step lib net micros parse client node) evs listener_init)"

section \<open>The aggregator as a map\<close>

definition agg_inv :: "aggregator \<Rightarrow> bool" where
  "agg_inv ag \<longleftrightarrow> distinct (map fst ag) \<and> length ag \<le> MAX_AGGREGATION_KEYS"

definition agg_live :: "nat \<Rightarrow> agg_entry \<Rightarrow> bool" where
  "agg_live now e \<longleftrightarrow> now - ae_created_at e < AGGREGATION_TTL"

lemma agg_default_inv [simp]: "agg_inv agg_default"
  by (simp add: agg_inv_def agg_default_def)

lemma agg_prune_live: "agg_prune now ag = filter (\<lambda>(_, e). agg_live now e) ag"
  by (simp add: agg_prune_def agg_live_def)

lemma agg_prune_inv [wf_intros]: "agg_inv ag \<Longrightarrow> agg_inv (agg_prune now ag)"
  by (auto simp: agg_inv_def agg_prune_def distinct_map_filter intro: order_trans [OF length_filter_le])

lemma map_of_prune:
  "distinct (map fst ag) \<Longrightarrow> map_of (agg_prune now ag) k = opt_filter (agg_live now) (map_of ag k)"
proof (induction ag)
  case (Cons a ag)
  have "map_of (agg_prune now ag) k = None" if "k \<notin> fst ` set ag"
    using that by (auto simp: agg_prune_def map_of_eq_None_iff)
  with Cons show ?case
    by (cases a) (auto simp: agg_prune_live opt_filter_def map_of_eq_None_iff split: option.splits)
qed (simp add: agg_prune_def opt_filter_def)

lemma map_of_put:
  "map_of (agg_put key e' ag) x = (if x = key then map_option (\<lambda>_. e') (map_of ag key) else map_of ag x)"
  by (induction ag) (auto simp: agg_put_def)

lemma agg_put_keys [simp]: "map fst (agg_put key e ag) = map fst ag" "length (agg_put key e ag) = length ag"
  by (induction ag) (auto simp: agg_put_def)

lemma agg_record_inv [wf_intros]:
  assumes "agg_inv ag"
  shows "agg_inv (snd (agg_record key now name ag))"
  using agg_prune_inv [OF assms, of now]
  by (auto simp: agg_record_def agg_inv_def Let_def map_of_eq_None_iff split: option.split)

text \<open>
  The contract of a map that counts repeats: a live entry is counted up under its name, and
  recording anything else leaves it alone; a new entry starts at one.
\<close>

locale event_series =
  fixes rec :: "'k \<Rightarrow> nat \<Rightarrow> string \<Rightarrow> 's \<Rightarrow> recorded option \<times> 's"
    and look :: "'s \<Rightarrow> 'k \<Rightarrow> agg_entry option" and ok :: "'s \<Rightarrow> bool"
  assumes keeps: "ok s \<Longrightarrow> ok (snd (rec k now n s))"
    and repeat: "ok s \<Longrightarrow> look s k = Some e \<Longrightarrow> agg_live now e \<Longrightarrow>
      fst (rec k now n s) = Some \<lparr>rc_event_name = ae_event_name e, rc_is_new = False, rc_count = ae_count e + 1\<rparr> \<and>
      look (snd (rec k now n s)) k = Some (e\<lparr>ae_count := ae_count e + 1\<rparr>)"
    and other: "ok s \<Longrightarrow> look s k = Some e \<Longrightarrow> agg_live now e \<Longrightarrow> k' \<noteq> k \<Longrightarrow> look (snd (rec k' now n s)) k = Some e"
    and fresh: "ok s \<Longrightarrow> fst (rec k now n s) = Some r \<Longrightarrow> rc_is_new r \<Longrightarrow>
      r = \<lparr>rc_event_name = n, rc_is_new = True, rc_count = 1\<rparr> \<and>
      look (snd (rec k now n s)) k = Some \<lparr>ae_event_name = n, ae_count = 1, ae_created_at = now\<rparr>"
begin

lemma counts_up:
  assumes "ok s" "look s k = Some e" "\<forall>(k', t, n) \<in> set ops. agg_live t e"
  shows "ok (fold (\<lambda>(k', t, n) s. snd (rec k' t n s)) ops s) \<and>
    look (fold (\<lambda>(k', t, n) s. snd (rec k' t n s)) ops s) k =
      Some (e\<lparr>ae_count := ae_count e + of_nat (length (filter (\<lambda>(k', _). k' = k) ops))\<rparr>)"
  using assms
proof (induction ops arbitrary: s e)
  case (Cons op ops)
  obtain k' t n where op: "op = (k', t, n)" by (cases op)
  with Cons.prems have live: "agg_live t e" "\<forall>(k', t, n) \<in> set ops. agg_live t e" by auto
  show ?case
  proof (cases "k' = k")
    case True
    let ?e = "e\<lparr>ae_count := ae_count e + 1\<rparr>"
    have "look (snd (rec k t n s)) k = Some ?e" using repeat Cons.prems(1,2) live(1) by blast
    moreover have "\<forall>(k', t, n) \<in> set ops. agg_live t ?e" using live(2) by (auto simp: agg_live_def)
    ultimately show ?thesis
      using Cons.IH [of "snd (rec k t n s)" ?e] keeps [OF Cons.prems(1)] True op by (simp add: add.assoc)
  next
    case False
    with Cons.IH [of "snd (rec k' t n s)" e] other [OF Cons.prems(1,2) live(1)] keeps [OF Cons.prems(1)] live(2) op
    show ?thesis by simp
  qed
qed simp

text \<open>After a new entry, the \<open>n\<close>-th further occurrence while it lives reports \<open>n + 1\<close>.\<close>

lemma series_count:
  assumes "ok s" "fst (rec k t0 n0 s) = Some r0" "rc_is_new r0"
    and "\<forall>(k', t, n) \<in> set ops. t - t0 < AGGREGATION_TTL" "t - t0 < AGGREGATION_TTL"
  shows "fst (rec k t n (fold (\<lambda>(k', t, n) s. snd (rec k' t n s)) ops (snd (rec k t0 n0 s)))) =
    Some \<lparr>rc_event_name = n0, rc_is_new = False, rc_count = of_nat (length (filter (\<lambda>(k', _). k' = k) ops) + 2)\<rparr>"
proof -
  let ?e = "\<lparr>ae_event_name = n0, ae_count = 1, ae_created_at = t0\<rparr>"
  have look: "look (snd (rec k t0 n0 s)) k = Some ?e" using fresh [OF assms(1-3)] by blast
  have "\<forall>(k', t, n) \<in> set ops. agg_live t ?e" using assms(4) by (auto simp: agg_live_def)
  from counts_up [OF keeps [OF assms(1)] look this]
    repeat [of _ k _ t n] assms(5) show ?thesis by (simp add: agg_live_def add.commute)
qed

end

interpretation aggregator: event_series agg_record map_of agg_inv
proof unfold_locales
  fix s :: aggregator and k now n e
  assume ok: "agg_inv s"
  note mp = map_of_prune [OF ok [unfolded agg_inv_def, THEN conjunct1]]
  show "agg_inv (snd (agg_record k now n s))" by (rule agg_record_inv [OF ok])
  show "fst (agg_record k now n s) = Some \<lparr>rc_event_name = ae_event_name e, rc_is_new = False, rc_count = ae_count e + 1\<rparr> \<and>
      map_of (snd (agg_record k now n s)) k = Some (e\<lparr>ae_count := ae_count e + 1\<rparr>)"
    if "map_of s k = Some e" "agg_live now e"
    using that mp by (simp add: agg_record_def opt_filter_def map_of_put)
  show "map_of (snd (agg_record k' now n s)) k = Some e" if "map_of s k = Some e" "agg_live now e" "k' \<noteq> k" for k'
    using that mp by (auto simp: agg_record_def opt_filter_def map_of_put map_add_Some_iff Let_def split: option.split)
  show "r = \<lparr>rc_event_name = n, rc_is_new = True, rc_count = 1\<rparr> \<and>
      map_of (snd (agg_record k now n s)) k = Some \<lparr>ae_event_name = n, ae_count = 1, ae_created_at = now\<rparr>"
    if "fst (agg_record k now n s) = Some r" "rc_is_new r" for r
    using that by (auto simp: agg_record_def map_add_Some_iff Let_def split: option.splits if_splits)
qed

section \<open>The listener\<close>

text \<open>Every tracked event has a validated namespace and pod, and the name made for them.\<close>

definition agg_named :: "aggregator \<Rightarrow> bool" where
  "agg_named ag \<longleftrightarrow> (\<forall>(k, e) \<in> set ag. is_dns1123_label (ak_namespace k) \<and> is_pod_uid (ak_pod_uid k) \<and>
     (\<exists>ts. ae_event_name e = event_name (ak_pod_uid k) (ak_reason k) ts))"

text \<open>Characters that cannot change a URL path or escape from a segment.\<close>

definition url_safe :: "string \<Rightarrow> bool" where
  "url_safe s \<longleftrightarrow> s \<noteq> [] \<and> (\<forall>c \<in> set s. is_ascii_lowercase c \<or> is_ascii_digit c \<or> c = CHR ''-'')"

lemma label_safe: "is_dns1123_label s \<Longrightarrow> url_safe s"
  by (auto simp: is_dns1123_label_def url_safe_def is_label_alnum_def list_all_iff)

lemma pod_uid_safe: "is_pod_uid s \<Longrightarrow> c \<in> set s \<Longrightarrow> is_ascii_lowercase c \<or> is_ascii_digit c \<or> c = CHR ''-''"
  by (fastforce simp: is_pod_uid_def is_uid_byte_def list_all_iff is_ascii_lowercase_def)

lemma slug_safe: "\<forall>c \<in> set (slug r). is_ascii_lowercase c"
  by (cases r) (simp_all add: is_ascii_lowercase_def)

lemma event_name_safe:
  assumes "is_pod_uid uid"
  shows "url_safe (event_name uid r ts)"
proof -
  have "\<forall>c \<in> set ''coredrop-''. is_ascii_lowercase c \<or> c = CHR ''-''" by code_simp
  with pod_uid_safe [OF assms] slug_safe [of r] show_int_chars [of _ ts] show ?thesis
    by (auto simp: event_name_def url_safe_def)
qed

text \<open>A request that the client may make.\<close>

definition request_ok :: "('u, 'c, 'h) http_lib \<Rightarrow> ('u, 'h) event_client \<Rightarrow> 'u request \<Rightarrow> bool" where
  "request_ok lib cl rq \<longleftrightarrow>
     (\<exists>ns. is_dns1123_label ns \<and> rq_bearer rq = ec_token cl \<and>
        (rq_method rq = POST \<and> hl_url_extend lib (ec_events_base cl) [ns, ''events''] = Some (rq_url rq) \<or>
         (\<exists>name. rq_method rq = PATCH \<and> url_safe name \<and>
            hl_url_extend lib (ec_events_base cl) [ns, ''events'', name] = Some (rq_url rq))))"

lemma agg_named_prune: "agg_named ag \<Longrightarrow> agg_named (agg_prune now ag)"
  by (auto simp: agg_named_def agg_prune_def)

lemma agg_record_named:
  assumes "agg_named ag" "is_dns1123_label (ak_namespace key)" "is_pod_uid (ak_pod_uid key)"
  shows "agg_named (snd (agg_record key now (event_name (ak_pod_uid key) (ak_reason key) ts) ag))"
    and "fst (agg_record key now (event_name (ak_pod_uid key) (ak_reason key) ts) ag) = Some rc \<Longrightarrow> url_safe (rc_event_name rc)"
proof -
  have p: "agg_named (agg_prune now ag)" by (rule agg_named_prune [OF assms(1)])
  have old: "\<exists>ts. ae_event_name e = event_name (ak_pod_uid key) (ak_reason key) ts" if "map_of (agg_prune now ag) key = Some e" for e
    using p map_of_SomeD [OF that] by (auto simp: agg_named_def)
  show "agg_named (snd (agg_record key now (event_name (ak_pod_uid key) (ak_reason key) ts) ag))"
  proof (cases "map_of (agg_prune now ag) key")
    case None
    with p assms(2,3) show ?thesis by (auto simp: agg_record_def agg_named_def Let_def)
  next
    case (Some e)
    with p old [OF Some] show ?thesis by (auto simp: agg_record_def agg_named_def agg_put_def Let_def)
  qed
  show "url_safe (rc_event_name rc)"
    if "fst (agg_record key now (event_name (ak_pod_uid key) (ak_reason key) ts) ag) = Some rc"
    using that old event_name_safe [OF assms(3)]
    by (fastforce simp: agg_record_def Let_def split: option.splits if_splits)
qed

lemma send_request_list [simp]: "fst (send_request net rq what) = [rq]"
  by (simp add: send_request_def)

lemma handle_payload_ok:
  assumes "handle_payload lib net micros (Some cl) node now p ag = (rqs, ag')" "agg_named ag" "agg_inv ag"
  shows "agg_named ag' \<and> agg_inv ag' \<and> length rqs \<le> 1 \<and> (\<forall>rq \<in> set rqs. request_ok lib cl rq)"
proof (cases "\<exists>r ns pn uid. reason_from_outcome (ce_outcome p) = Some r \<and> ce_namespace p = Some ns \<and> ce_pod_name p = Some pn \<and>
    ce_pod_uid p = Some uid \<and> is_dns1123_label ns \<and> is_pod_uid uid")
  case False
  with assms show ?thesis by (auto simp: handle_payload_def split: option.splits if_splits)
next
  case True
  then obtain r ns pn uid where v: "reason_from_outcome (ce_outcome p) = Some r" "ce_namespace p = Some ns" "ce_pod_name p = Some pn"
    "ce_pod_uid p = Some uid" "is_dns1123_label ns" "is_pod_uid uid" by blast
  let ?key = "\<lparr>ak_namespace = ns, ak_pod_uid = uid, ak_reason = r\<rparr>"
  let ?rec = "agg_record ?key now (event_name uid r (ce_timestamp p)) ag"
  obtain x ag1 where rec: "?rec = (x, ag1)" by fastforce
  have named: "agg_named ag1" "\<And>rc. x = Some rc \<Longrightarrow> url_safe (rc_event_name rc)"
    using agg_record_named [of ag ?key now "ce_timestamp p"] assms(2) v(5,6) rec by auto
  have inv: "agg_inv ag1" using agg_record_inv [OF assms(3), of ?key now "event_name uid r (ce_timestamp p)"] rec by simp
  show ?thesis
    using assms(1) v rec named inv
    by (auto simp: handle_payload_def create_event_def patch_event_series_def events_url_def request_ok_def
        split: option.splits if_splits)
qed

lemma handle_payload_no_client [simp]: "handle_payload lib net micros None node now p ag = ([], ag)"
  by (simp add: handle_payload_def split: option.split)

text \<open>What holds of the listener's state at every moment.\<close>

definition listener_inv :: "('u, 'c, 'h) http_lib \<Rightarrow> ('u, 'h) event_client option \<Rightarrow> 'u listener \<Rightarrow> bool" where
  "listener_inv lib client li \<longleftrightarrow> agg_inv (li_aggregator li) \<and> agg_named (li_aggregator li) \<and>
     length (li_requests li) \<le> length (li_logs li) \<and>
     (\<forall>rq \<in> set (li_requests li). \<exists>cl. client = Some cl \<and> request_ok lib cl rq)"

lemma listener_step_inv [wf_intros]:
  assumes "listener_inv lib client li"
  shows "listener_inv lib client (listener_step lib net micros parse client node ev li)"
proof (cases ev)
  case (Datagram now bs)
  show ?thesis
  proof (cases client)
    case None
    with assms Datagram show ?thesis by (auto simp: listener_inv_def split: option.split)
  next
    case (Some cl)
    have ok: "agg_named (li_aggregator li)" "agg_inv (li_aggregator li)" using assms by (simp_all add: listener_inv_def)
    have "agg_named ag' \<and> agg_inv ag' \<and> length rqs \<le> 1 \<and> (\<forall>rq \<in> set rqs. request_ok lib cl rq)"
      if "handle_payload lib net micros (Some cl) node now p (li_aggregator li) = (rqs, ag')" for p rqs ag'
      by (rule handle_payload_ok [OF that ok])
    with assms Datagram Some show ?thesis
      by (fastforce simp: listener_inv_def split: option.split prod.split)
  qed
next
  case (SweepTick now)
  with assms show ?thesis
    by (auto simp: listener_inv_def agg_sweep_def agg_named_prune intro: agg_prune_inv)
qed (use assms in simp)

lemma listener_run_inv: "listener_inv lib client li \<Longrightarrow>
    listener_inv lib client (fold (listener_step lib net micros parse client node) evs li)"
  by (induction evs arbitrary: li) (simp_all add: listener_step_inv)

fun datagram_payload :: "(bytes \<Rightarrow> json option) \<Rightarrow> listener_ev \<Rightarrow> capture_event option" where
  "datagram_payload parse (Datagram now bs) = Option.bind (parse (take RECV_BUF bs)) payload_of_json"
| "datagram_payload parse _ = None"

lemma listener_logs: "li_logs (fold (listener_step lib net micros parse client node) evs li) =
    li_logs li @ map log_capture (List.map_filter (datagram_payload parse) evs)"
proof (induction evs arbitrary: li)
  case (Cons ev evs)
  have "li_logs (listener_step lib net micros parse client node ev li) =
      li_logs li @ (case datagram_payload parse ev of None \<Rightarrow> [] | Some p \<Rightarrow> [log_capture p])"
    by (cases ev) (simp_all split: option.split prod.split)
  with Cons show ?case by (simp add: map_filter_simps split: option.split)
qed (simp add: map_filter_simps)

lemma run_listener_logs:
  "li_logs (run_listener lib net micros parse io s vars node post_events evs) =
     map log_capture (List.map_filter (datagram_payload parse) evs)"
  by (simp add: run_listener_def listener_logs listener_init_def Let_def)

section \<open>Properties\<close>

text \<open>An example: a client library whose URLs are lists of segments, and the report of one crash.\<close>

definition example_http :: "(string list, unit, unit) http_lib" where
  "example_http = \<lparr>hl_url_parse = (\<lambda>s. Some [s]), hl_url_extend = (\<lambda>u xs. Some (u @ xs)), hl_pem_bundle = (\<lambda>_. Some [()]),
     hl_build = (\<lambda>_ _. Some ())\<rparr>"

definition example_client :: "(string list, unit) event_client" where
  "example_client = \<lparr>ec_http = (), ec_events_base = [''https://api:443/apis/events.k8s.io/v1/namespaces''], ec_token = ''tok''\<rparr>"

definition example_payload :: capture_event where
  "example_payload = \<lparr>ce_namespace = Some ''ns'', ce_pod_name = Some ''web'', ce_pod_uid = Some ''12-ab'', ce_container_id = None,
     ce_container_name = None, ce_host_pid = 7, ce_exe = ''app'', ce_signal = 11, ce_signal_name = Some ''SIGSEGV'',
     ce_outcome = Uploaded, ce_manifest_key = None, ce_core_bytes = 0, ce_stored_bytes = Some 1, ce_truncated = False,
     ce_error = None, ce_timestamp = 1000\<rparr>"

definition example_pod_fs :: fs where
  "example_pod_fs = [SERVICE_ACCOUNT_DIR @ ''/token'' \<mapsto> File ''tok'' mode_600, SERVICE_ACCOUNT_DIR @ ''/ca.crt'' \<mapsto> File ''pem'' mode_600]"

lemma example_labels: "is_dns1123_label ''ns''" "is_pod_uid ''12-ab''" "trim ''tok'' = ''tok''"
  by code_simp+

lemma example_client_from_env:
  "client_from_env example_http no_faults example_pod_fs [''KUBERNETES_SERVICE_HOST'' \<mapsto> ''api''] = Some example_client"
  by (simp add: client_from_env_def example_pod_fs_def read_to_string_def fs_read_def node_at_plain build_http_def events_base_def
      example_http_def example_client_def example_labels(3) is_ascii_def Let_def starts_with_def)

lemma example_first:
  "\<exists>rq ag'. handle_payload example_http net micros (Some example_client) node now example_payload agg_default = ([rq], ag') \<and> rq_method rq = POST"
  by (simp add: handle_payload_def example_payload_def example_labels agg_record_def agg_default_def agg_prune_def
      MAX_AGGREGATION_KEYS_def create_event_def events_url_def example_http_def)

text \<open>
  C29. The aggregator's invariant: whatever datagrams, errors and timer ticks arrive, and
  whatever the API server answers, the daemon tracks at most 10000 events under distinct keys,
  makes at most one request per capture it logs, and every request goes, with the daemon's own
  token, to the events of a valid namespace or to one event there whose name has only lower
  case letters, digits and dashes; without a client it makes none. A handler's datagram
  therefore cannot point a request at another path.
\<close>

theorem listener_requests_safe:
  "let li = run_listener lib net micros parse io s vars node post_events evs in
    distinct (map fst (li_aggregator li)) \<and> length (li_aggregator li) \<le> 10000 \<and>
    length (li_requests li) \<le> length (li_logs li) \<and>
    (\<forall>rq \<in> set (li_requests li). post_events \<and> (\<exists>cl. client_from_env lib io s vars = Some cl \<and> request_ok lib cl rq))"
proof -
  let ?client = "if post_events then client_from_env lib io s vars else None"
  let ?li = "run_listener lib net micros parse io s vars node post_events evs"
  have "listener_inv lib ?client listener_init"
    by (simp add: listener_inv_def listener_init_def agg_default_def agg_inv_def agg_named_def)
  from listener_run_inv [OF this] have "listener_inv lib ?client ?li" by (simp add: run_listener_def)
  then show ?thesis
    by (auto simp: listener_inv_def agg_inv_def MAX_AGGREGATION_KEYS_def Let_def split: if_splits)
qed

theorem listener_requests_safe_witness:
  "\<exists>rq. li_requests (run_listener example_http (\<lambda>_. None) (\<lambda>_. None) (\<lambda>_. Some (payload_to_json example_payload)) no_faults
      example_pod_fs [''KUBERNETES_SERVICE_HOST'' \<mapsto> ''api''] ''node'' True [SweepTick 0, Datagram 5 ''x'']) = [rq] \<and>
    request_ok example_http example_client rq"
proof -
  let ?li = "run_listener example_http (\<lambda>_. None) (\<lambda>_. None) (\<lambda>_. Some (payload_to_json example_payload)) no_faults
      example_pod_fs [''KUBERNETES_SERVICE_HOST'' \<mapsto> ''api''] ''node'' True [SweepTick 0, Datagram 5 ''x'']"
  have "payload_ok example_payload" by (simp add: payload_ok_def example_payload_def i32_min_def i32_max_def i64_min_def i64_max_def)
  then have dec: "payload_of_json (payload_to_json example_payload) = Some example_payload" by (rule payload.decodes)
  from example_first [of "\<lambda>_. None" "\<lambda>_. None" "''node''" 5] obtain rq ag' where
    rq: "handle_payload example_http (\<lambda>_. None) (\<lambda>_. None) (Some example_client) ''node'' 5 example_payload agg_default = ([rq], ag')" by blast
  have "li_requests ?li = [rq]"
    using rq dec by (simp add: run_listener_def example_client_from_env listener_init_def agg_sweep_def agg_prune_def agg_default_def)
  with listener_requests_safe [of example_http "\<lambda>_. None" "\<lambda>_. None" "\<lambda>_. Some (payload_to_json example_payload)" no_faults
      example_pod_fs "[''KUBERNETES_SERVICE_HOST'' \<mapsto> ''api'']" "''node''" True "[SweepTick 0, Datagram 5 ''x'']"]
  show ?thesis by (auto simp: Let_def example_client_from_env)
qed

text \<open>
  Every capture that reaches the daemon is logged, exactly once and in order, whether or
  not Events are posted and whatever the API server does; a failed one is logged as a warning.
\<close>

theorem every_capture_logged:
  "li_logs (run_listener lib net micros parse io s vars node post_events evs) =
     map log_capture (List.map_filter (datagram_payload parse) evs) \<and>
   (\<forall>p. ll_warn (log_capture p) \<longleftrightarrow> ll_outcome (log_capture p) = ''failed'')"
proof -
  have "ce_outcome p = Failed \<longleftrightarrow> outcome_as_str (ce_outcome p) = ''failed''" for p :: capture_event
    by (cases "ce_outcome p") simp_all
  then show ?thesis by (simp add: run_listener_logs log_capture_def Let_def)
qed

text \<open>
  C30. Repeats of a crash are counted, not multiplied: after a capture that created an event,
  every further capture of the same pod and reason within the hour, whatever other pods do in
  between, reports the same event with the next count, so the second has count 2, the third 3
  and so on (modulo the width of the counter).
\<close>

theorem repeats_counted:
  assumes "agg_inv ag" "agg_record k t0 name0 ag = (Some r0, ag0)" "rc_is_new r0"
    and "\<forall>(k', t, n) \<in> set ops. t < t0 + AGGREGATION_TTL" "t < t0 + AGGREGATION_TTL"
  shows "fst (agg_record k t name (fold (\<lambda>(k', t, n) s. snd (agg_record k' t n s)) ops ag0)) =
    Some \<lparr>rc_event_name = name0, rc_is_new = False, rc_count = of_nat (length (filter (\<lambda>(k', _). k' = k) ops) + 2)\<rparr>"
proof -
  have ttl: "0 < AGGREGATION_TTL" by (simp add: AGGREGATION_TTL_def secs_def)
  then have "\<forall>(k', t, n) \<in> set ops. t - t0 < AGGREGATION_TTL" "t - t0 < AGGREGATION_TTL"
    using assms(4,5) by (auto simp: less_diff_conv2)
  with aggregator.series_count [OF assms(1), of k t0 name0 r0 ops t name] assms(2,3) show ?thesis by simp
qed

theorem repeats_counted_witness:
  "fst (agg_record \<lparr>ak_namespace = ''ns'', ak_pod_uid = ''u'', ak_reason = CoreDumped\<rparr> 9 ''x''
     [(\<lparr>ak_namespace = ''ns'', ak_pod_uid = ''u'', ak_reason = CoreDumped\<rparr>, \<lparr>ae_event_name = ''e'', ae_count = 1, ae_created_at = 5\<rparr>)]) =
   Some \<lparr>rc_event_name = ''e'', rc_is_new = False, rc_count = 2\<rparr>"
  using repeats_counted [of agg_default "\<lparr>ak_namespace = ''ns'', ak_pod_uid = ''u'', ak_reason = CoreDumped\<rparr>" 5 "''e''"
      "\<lparr>rc_event_name = ''e'', rc_is_new = True, rc_count = 1\<rparr>" _ "[]" 9 "''x''"]
  by (simp add: agg_record_def agg_prune_def agg_default_def agg_inv_def MAX_AGGREGATION_KEYS_def AGGREGATION_TTL_def secs_def)

text \<open>
  C31. A failed creation is not retried: once the first capture of a pod for a reason has been
  recorded, the next one within the hour only patches the event, whatever the API server
  answered to the creation, so after a lost or refused creation every patch goes to an event
  that does not exist.
\<close>

theorem failed_create_not_retried:
  assumes "agg_inv ag" "handle_payload lib net micros (Some cl) node t0 p ag = ([rq], ag')" "rq_method rq = POST"
    and "t < t0 + AGGREGATION_TTL"
    and "ce_namespace p' = ce_namespace p" "ce_pod_uid p' = ce_pod_uid p" "ce_outcome p' = ce_outcome p" "ce_pod_name p' \<noteq> None"
  shows "\<forall>rq' \<in> set (fst (handle_payload lib net' micros (Some cl) node t p' ag')). rq_method rq' = PATCH"
proof -
  from assms(2) obtain r ns pn uid where v: "reason_from_outcome (ce_outcome p) = Some r" "ce_namespace p = Some ns" "ce_pod_name p = Some pn"
    "ce_pod_uid p = Some uid" "is_dns1123_label ns" "is_pod_uid uid"
    by (auto simp: handle_payload_def split: option.splits if_splits)
  let ?key = "\<lparr>ak_namespace = ns, ak_pod_uid = uid, ak_reason = r\<rparr>"
  let ?name = "\<lambda>p. event_name uid r (ce_timestamp p)"
  obtain x ag1 where rec: "agg_record ?key t0 (?name p) ag = (x, ag1)" by fastforce
  with assms(2) v obtain rc where rc: "x = Some rc" "ag' = ag1" by (auto simp: handle_payload_def split: option.splits)
  have "rc_is_new rc"
    using assms(2,3) v rec rc by (auto simp: handle_payload_def patch_event_series_def send_request_def split: option.splits if_splits)
  with aggregator.series_count [OF assms(1), of ?key t0 "?name p" rc "[]" t "?name p'"] rec rc assms(4)
  obtain rc' where "fst (agg_record ?key t (?name p') ag') = Some rc'" "\<not> rc_is_new rc'"
    by (fastforce simp: AGGREGATION_TTL_def secs_def)
  with v assms(5-8) show ?thesis
    by (auto simp: handle_payload_def patch_event_series_def send_request_def split: option.split prod.split)
qed

theorem failed_create_not_retried_witness:
  "\<exists>rq ag'. handle_payload example_http (\<lambda>_. None) (\<lambda>_. None) (Some example_client) ''node'' 5 example_payload agg_default = ([rq], ag') \<and>
     list_all (\<lambda>rq'. rq_method rq' = PATCH)
       (fst (handle_payload example_http (\<lambda>_. None) (\<lambda>_. None) (Some example_client) ''node'' 6 example_payload ag'))"
proof -
  from example_first [of "\<lambda>_. None" "\<lambda>_. None" "''node''" 5] obtain rq ag' where
    rq: "handle_payload example_http (\<lambda>_. None) (\<lambda>_. None) (Some example_client) ''node'' 5 example_payload agg_default = ([rq], ag')"
      "rq_method rq = POST" by blast
  have "\<forall>rq' \<in> set (fst (handle_payload example_http (\<lambda>_. None) (\<lambda>_. None) (Some example_client) ''node'' 6 example_payload ag')). rq_method rq' = PATCH"
    by (rule failed_create_not_retried [OF agg_default_inv rq]) (simp_all add: AGGREGATION_TTL_def secs_def example_payload_def)
  with rq(1) show ?thesis by (auto simp: list_all_iff)
qed

end
