(* ===== verification/Core_Pattern.thy ===== *)
theory Core_Pattern
  imports Filesystem Rust_Num
begin

text \<open>
  \<open>src/core_pattern.rs\<close>: routing the kernel's core dumps to the handler, and putting back what
  was there before. The two sysctl files are files of the file system, as they are in the
  source's own tests.
\<close>

section \<open>Definitions\<close>

definition DEFAULT_PIPE_LIMIT :: u32 where "DEFAULT_PIPE_LIMIT = 128"
definition CORE_PATTERN_PATH :: path where "CORE_PATTERN_PATH = ''/proc/sys/kernel/core_pattern''"
definition CORE_PIPE_LIMIT_PATH :: path where "CORE_PIPE_LIMIT_PATH = ''/proc/sys/kernel/core_pipe_limit''"
definition KERNEL_DEFAULT_PATTERN :: string where "KERNEL_DEFAULT_PATTERN = ''core''"

definition build_pattern :: "path \<Rightarrow> string" where
  "build_pattern handler_path = ''|'' @ utf8_lossy handler_path @ '' capture %P %s %t %E''"

record core_pattern_guard =
  cg_pattern_path :: path
  cg_pipe_limit_path :: path
  cg_prev_pattern :: string
  cg_prev_pipe_limit :: string

text \<open>The value to restore: the one found, unless it is our own pattern left by a daemon that was killed.\<close>

definition saved_pattern :: "path \<Rightarrow> string \<Rightarrow> string" where
  "saved_pattern handler_path found =
     (if trim_end found = build_pattern handler_path then KERNEL_DEFAULT_PATTERN else found)"

definition install_at ::
  "io_env \<Rightarrow> path \<Rightarrow> u32 \<Rightarrow> path \<Rightarrow> path \<Rightarrow> fs \<Rightarrow> (io_error + core_pattern_guard) \<times> fs" where
  "install_at io handler_path pipe_limit pattern_path pipe_limit_path s =
     (case read_to_string io s pattern_path of
        Inl e \<Rightarrow> (Inl e, s)
      | Inr found \<Rightarrow>
          (let prev_pattern = saved_pattern handler_path found;
               prev_pipe_limit = (case read_to_string io s pipe_limit_path of Inl _ \<Rightarrow> [] | Inr c \<Rightarrow> c)
           in case fs_write io s pattern_path (build_pattern handler_path) of
                (Inl e, s1) \<Rightarrow> (Inl e, s1)
              | (Inr _, s1) \<Rightarrow>
                  (Inr \<lparr>cg_pattern_path = pattern_path, cg_pipe_limit_path = pipe_limit_path,
                        cg_prev_pattern = prev_pattern, cg_prev_pipe_limit = prev_pipe_limit\<rparr>,
                   snd (fs_write io s1 pipe_limit_path (show_nat (unat pipe_limit))))))"

text \<open>\<open>restore\<close> is also what dropping the guard does; its writes are best effort.\<close>

definition restore :: "io_env \<Rightarrow> core_pattern_guard \<Rightarrow> fs \<Rightarrow> fs" where
  "restore io g s =
     (let s1 = snd (fs_write io s (cg_pattern_path g) (cg_prev_pattern g))
      in if cg_prev_pipe_limit g \<noteq> [] then snd (fs_write io s1 (cg_pipe_limit_path g) (cg_prev_pipe_limit g)) else s1)"

section \<open>Writing a file\<close>

text \<open>
  What a write can change: at most the file its path leads to, which stays or becomes a file;
  it replaces no link, no directory and no socket.
\<close>

lemma fs_write_frame:
  assumes "fs_write io s p c = (r, s')"
  shows "(follow s p \<noteq> Some q \<longrightarrow> s' q = s q)" "same_links s s'" "s q = Some (Socket m) \<Longrightarrow> s' q = Some (Socket m)"
    "s q = Some (Dir m) \<Longrightarrow> s' q = Some (Dir m)"
  using assms follow_not_symlink [of s p]
  by (auto simp: fs_write_def open_rw_def write_all_def set_content_def same_links_def
      split: prod.splits sum.splits if_splits option.splits node.splits)

lemma fs_write_ok:
  assumes "fs_write io s p c = (Inr u, s')"
  shows "\<exists>q m. follow s p = Some q \<and> s' q = Some (File c m)"
  using assms
  by (auto simp: fs_write_def open_rw_def write_all_def set_content_def file_content_def
      split: prod.splits sum.splits if_splits option.splits node.splits)

text \<open>A file that is there and whose calls do not fail is overwritten.\<close>

lemma fs_write_succeeds:
  assumes "follow s p = Some q" "s q = Some (File c0 m)" "\<not> io_fails io OpOpen p" "\<not> io_fails io OpWrite q"
  shows "fs_write io s p c = (Inr (), s(q \<mapsto> File c m))"
  using assms by (simp add: fs_write_def open_rw_def write_all_def set_content_def file_content_def)

lemma read_to_string_file:
  assumes "follow s p = Some q" "s q = Some (File c m)" "\<not> io_fails io OpOpen p" "\<not> io_fails io OpRead p" "utf8_valid c"
  shows "read_to_string io s p = Inr c"
  using assms by (simp add: read_to_string_def fs_read_def node_at_def)

lemma read_to_string_Inr:
  assumes "read_to_string io s p = Inr c"
  obtains q m where "follow s p = Some q" "s q = Some (File c m)" "utf8_valid c"
  using assms by (auto simp: read_to_string_def fs_read_def node_at_def bind_eq_Some_conv split: if_splits option.splits node.splits sum.splits)

section \<open>The pattern\<close>

lemma build_pattern_valid: "utf8_valid (build_pattern h)"
  unfolding build_pattern_def
  by (intro utf8_valid_append utf8_lossy_valid utf8_valid_ascii) (simp_all add: is_ascii_def)

lemma show_nat_valid [simp]: "utf8_valid (show_nat n)"
  by (rule utf8_valid_ascii) (auto dest!: show_nat_digits simp: is_ascii_digit_def is_ascii_def)

lemma build_pattern_trim: "trim_end (build_pattern h) = build_pattern h" "trim_end (build_pattern h @ [newline]) = build_pattern h"
proof -
  have "last (build_pattern h) = CHR ''E''" by (simp add: build_pattern_def)
  moreover have "CHR ''E'' \<notin> set (map last ws_encodings)" by code_simp
  ultimately show "trim_end (build_pattern h) = build_pattern h"
    by (intro trim_end_no_ws_last) (simp_all add: build_pattern_def)
  then show "trim_end (build_pattern h @ [newline]) = build_pattern h" by (simp add: trim_end_newline)
qed

lemma saved_pattern_own: "saved_pattern h (build_pattern h) = ''core''" "saved_pattern h (build_pattern h @ [newline]) = ''core''"
  by (simp_all add: saved_pattern_def build_pattern_trim KERNEL_DEFAULT_PATTERN_def)

lemma install_at_ok:
  assumes "install_at io h n pp lp s = (Inr g, s')"
  obtains found q m s1 where "read_to_string io s pp = Inr found" "follow s pp = Some q"
    "fs_write io s pp (build_pattern h) = (Inr (), s1)" "s1 q = Some (File (build_pattern h) m)"
    "s' = snd (fs_write io s1 lp (show_nat (unat n)))"
    "g = \<lparr>cg_pattern_path = pp, cg_pipe_limit_path = lp, cg_prev_pattern = saved_pattern h found,
      cg_prev_pipe_limit = (case read_to_string io s lp of Inl _ \<Rightarrow> [] | Inr c \<Rightarrow> c)\<rparr>"
proof -
  from assms obtain found s1 where
    f: "read_to_string io s pp = Inr found" "fs_write io s pp (build_pattern h) = (Inr (), s1)"
      "s' = snd (fs_write io s1 lp (show_nat (unat n)))"
      "g = \<lparr>cg_pattern_path = pp, cg_pipe_limit_path = lp, cg_prev_pattern = saved_pattern h found,
        cg_prev_pipe_limit = (case read_to_string io s lp of Inl _ \<Rightarrow> [] | Inr c \<Rightarrow> c)\<rparr>"
    by (auto simp: install_at_def Let_def split: sum.splits prod.splits)
  from fs_write_ok [OF f(2)] obtain q m where "follow s pp = Some q" "s1 q = Some (File (build_pattern h) m)" by blast
  with f that show thesis by blast
qed

text \<open>After an installation the kernel is routed to the handler.\<close>

lemma install_at_effect:
  assumes "install_at io h n pp lp s = (Inr g, s')" "follow s pp \<noteq> follow s lp"
  shows "\<exists>q m. follow s' pp = Some q \<and> s' q = Some (File (build_pattern h) m)"
proof -
  from assms(1) obtain found q m s1 where
    i: "follow s pp = Some q" "fs_write io s pp (build_pattern h) = (Inr (), s1)" "s1 q = Some (File (build_pattern h) m)"
      "s' = snd (fs_write io s1 lp (show_nat (unat n)))"
    by (rule install_at_ok)
  obtain r where w2: "fs_write io s1 lp (show_nat (unat n)) = (r, s')" using i(4) by (metis prod.collapse)
  note l1 = fs_write_frame(2) [OF i(2)] and l2 = fs_write_frame(2) [OF w2]
  have "s' q = s1 q" using fs_write_frame(1) [OF w2, of q] same_links_follow [OF l1, of lp] i(1) assms(2) by auto
  then show ?thesis using i(1,3) same_links_follow [OF same_links_trans [OF l1 l2]] by auto
qed

text \<open>However an installation ends, only the two sysctls can have changed.\<close>

lemma install_at_frame:
  assumes "install_at io h n pp lp s = (r, s')"
  shows "same_links s s'" and "follow s pp \<noteq> Some x \<Longrightarrow> follow s lp \<noteq> Some x \<Longrightarrow> s' x = s x"
    and "s x = Some (Socket k) \<Longrightarrow> s' x = Some (Socket k)"
proof -
  obtain r1 s1 where w1: "fs_write io s pp (build_pattern h) = (r1, s1)" by fastforce
  obtain r2 s2 where w2: "fs_write io s1 lp (show_nat (unat n)) = (r2, s2)" by fastforce
  have s': "s' = s \<or> s' = s1 \<or> s' = s2"
    using assms w1 w2 by (auto simp: install_at_def Let_def split: sum.splits)
  note l1 = fs_write_frame(2) [OF w1] and l2 = same_links_trans [OF fs_write_frame(2) [OF w1] fs_write_frame(2) [OF w2]]
  have f1: "follow s1 y = follow s y" for y by (rule same_links_follow [OF l1])
  show "same_links s s'" using s' l1 l2 by (auto simp: same_links_def)
  show "s' x = s x" if "follow s pp \<noteq> Some x" "follow s lp \<noteq> Some x"
    using s' fs_write_frame(1) [OF w1, of x] fs_write_frame(1) [OF w2, of x] f1 [of lp] that by auto
  show "s' x = Some (Socket k)" if "s x = Some (Socket k)"
    using s' fs_write_frame(3) [OF w1, of x k] fs_write_frame(3) [OF w2, of x k] that by auto
qed

text \<open>Restoring puts the saved values back into two sysctls that are there, whatever they hold now.\<close>

lemma restore_effect:
  assumes "cg_pattern_path g = pp" "cg_pipe_limit_path g = lp" "cg_prev_pipe_limit g \<noteq> []"
    and "follow s pp = Some qp" "follow s lp = Some ql" "qp \<noteq> ql" "s qp = Some (File c1 m1)" "s ql = Some (File c2 m2)"
    and "\<And>x. \<not> io_fails io OpOpen x" "\<And>x. \<not> io_fails io OpWrite x"
  shows "restore io g s = s(qp \<mapsto> File (cg_prev_pattern g) m1, ql \<mapsto> File (cg_prev_pipe_limit g) m2)"
proof -
  let ?s1 = "s(qp \<mapsto> File (cg_prev_pattern g) m1)"
  have w1: "fs_write io s pp (cg_prev_pattern g) = (Inr (), ?s1)" using assms by (intro fs_write_succeeds)
  have "follow ?s1 lp = Some ql" using same_links_follow [OF fs_write_frame(2) [OF w1], of lp] assms(5) by simp
  then have "fs_write io ?s1 lp (cg_prev_pipe_limit g) = (Inr (), ?s1(ql \<mapsto> File (cg_prev_pipe_limit g) m2))"
    using assms(6,8-10) by (intro fs_write_succeeds) simp_all
  with w1 assms(1-3) show ?thesis by (simp add: restore_def)
qed

text \<open>What an installation remembers.\<close>

lemma install_at_guard:
  assumes "install_at io h n pp lp s = (Inr g, s')"
    and "follow s pp = Some qp" "follow s lp = Some ql" "s qp = Some (File found mp)" "s ql = Some (File lim ml)"
    and "\<And>x. \<not> io_fails io OpOpen x" "\<And>x. \<not> io_fails io OpRead x" "utf8_valid lim"
  shows "g = \<lparr>cg_pattern_path = pp, cg_pipe_limit_path = lp, cg_prev_pattern = saved_pattern h found, cg_prev_pipe_limit = lim\<rparr>"
proof -
  have found: "read_to_string io s pp = Inr c \<Longrightarrow> c = found" for c
    using assms(2,4,6,7) by (auto simp: read_to_string_def fs_read_def node_at_def split: if_splits)
  have lim: "read_to_string io s lp = Inr lim" using assms(3,5-8) by (intro read_to_string_file)
  from assms(1) obtain c where "read_to_string io s pp = Inr c"
    "g = \<lparr>cg_pattern_path = pp, cg_pipe_limit_path = lp, cg_prev_pattern = saved_pattern h c, cg_prev_pipe_limit = lim\<rparr>"
    by (auto simp: install_at_def lim Let_def split: sum.splits prod.splits)
  with found show ?thesis by blast
qed

text \<open>What an installation writes, where nothing fails.\<close>

lemma install_at_state:
  assumes "install_at io h n pp lp s = (Inr g, s')"
    and "follow s pp = Some qp" "follow s lp = Some ql" "qp \<noteq> ql" "s qp = Some (File found mp)" "s ql = Some (File held ml)"
    and "\<And>x. \<not> io_fails io OpOpen x" "\<And>x. \<not> io_fails io OpWrite x"
  shows "s' = s(qp \<mapsto> File (build_pattern h) mp, ql \<mapsto> File (show_nat (unat n)) ml)"
proof -
  let ?s1 = "s(qp \<mapsto> File (build_pattern h) mp)"
  have w1: "fs_write io s pp (build_pattern h) = (Inr (), ?s1)"
    using fs_write_succeeds [OF assms(2,5)] assms(7,8) by simp
  have "follow ?s1 lp = Some ql" using same_links_follow [OF fs_write_frame(2) [OF w1], of lp] assms(3) by simp
  then have "fs_write io ?s1 lp c = (Inr (), ?s1(ql \<mapsto> File c ml))" for c
    using assms(4,6,7,8) by (intro fs_write_succeeds) simp_all
  with assms(1) w1 show ?thesis by (auto simp: install_at_def Let_def split: sum.splits)
qed

text \<open>Nobody in between: installing and restoring changes at most the pattern, when it was our own.\<close>

lemma install_restore:
  assumes "install_at io h n pp lp s = (Inr g, s')"
    and "follow s pp = Some qp" "follow s lp = Some ql" "qp \<noteq> ql" "s qp = Some (File found mp)" "s ql = Some (File held ml)"
    and "\<And>x. \<not> io_fails io OpOpen x" "\<And>x. \<not> io_fails io OpRead x" "\<And>x. \<not> io_fails io OpWrite x"
    and "utf8_valid held" "held \<noteq> []"
  shows "restore io g s' = s(qp \<mapsto> File (saved_pattern h found) mp)"
proof -
  note g = install_at_guard [OF assms(1-3,5-8,10)] and s' = install_at_state [OF assms(1-7,9)]
  have fl: "follow s' x = follow s x" for x by (rule same_links_follow [OF install_at_frame(1) [OF assms(1)]])
  have "restore io g s' = s'(qp \<mapsto> File (saved_pattern h found) mp, ql \<mapsto> File held ml)"
    using restore_effect [of g pp lp s' qp ql "build_pattern h" mp "show_nat (unat n)" ml io] g fl assms(2-4,7,9,11) s' by simp
  also have "\<dots> = s(qp \<mapsto> File (saved_pattern h found) mp)" using s' assms(4,6) by (auto simp: fun_eq_iff)
  finally show ?thesis .
qed

text \<open>
  C26. A daemon that was killed costs the node its \<open>core_pipe_limit\<close>: when a daemon installs itself,
  is killed before it can restore, and its successor starts and ends in an orderly way, with no
  failure anywhere, the pattern is the kernel's default again, while the limit that is "restored"
  is the one the killed daemon had written, whatever the node's own limit was.
\<close>

theorem killed_daemon_loses_pipe_limit:
  assumes "install_at io h n1 pp lp s = (Inr g1, s1)" "install_at io h n2 pp lp s1 = (Inr g2, s2)"
    and "follow s pp = Some qp" "follow s lp = Some ql" "qp \<noteq> ql" "s qp = Some (File found mp)" "s ql = Some (File held ml)"
    and "\<And>x. \<not> io_fails io OpOpen x" "\<And>x. \<not> io_fails io OpRead x" "\<And>x. \<not> io_fails io OpWrite x"
  shows "file_content (restore io g2 s2) qp = KERNEL_DEFAULT_PATTERN \<and> file_content (restore io g2 s2) ql = show_nat (unat n1)"
proof -
  note s1 = install_at_state [OF assms(1,3-8,10)]
  have fl: "follow s1 pp = Some qp" "follow s1 lp = Some ql"
    using same_links_follow [OF install_at_frame(1) [OF assms(1)]] assms(3,4) by simp_all
  have c: "s1 qp = Some (File (build_pattern h) mp)" "s1 ql = Some (File (show_nat (unat n1)) ml)"
    using s1 assms(5) by simp_all
  have "restore io g2 s2 = s1(qp \<mapsto> File (saved_pattern h (build_pattern h)) mp)"
    by (rule install_restore [OF assms(2) fl assms(5) c assms(8-10)]) simp_all
  with c(2) assms(5) show ?thesis by (simp add: file_content_def saved_pattern_own KERNEL_DEFAULT_PATTERN_def)
qed

theorem killed_daemon_loses_pipe_limit_witness:
  "\<exists>g1 s1 g2 s2. install_at no_faults ''/h'' 128 ''/p'' ''/l'' [''/p'' \<mapsto> File ''core'' mode_644, ''/l'' \<mapsto> File ''16'' mode_644] = (Inr g1, s1) \<and>
     install_at no_faults ''/h'' 64 ''/p'' ''/l'' s1 = (Inr g2, s2) \<and> file_content (restore no_faults g2 s2) ''/l'' = ''128''"
proof -
  let ?s = "[''/p'' \<mapsto> File ''core'' mode_644, ''/l'' \<mapsto> File ''16'' mode_644]"
  have i: "\<exists>g s'. install_at no_faults ''/h'' n ''/p'' ''/l'' s = (Inr g, s') \<and> s' = s(''/p'' \<mapsto> File (build_pattern ''/h'') mode_644, ''/l'' \<mapsto> File (show_nat (unat n)) mode_644)"
    if "s ''/p'' = Some (File c mode_644)" "s ''/l'' = Some (File c' mode_644)" "utf8_valid c" for s n c c'
    using that read_to_string_file [of s "''/p''" "''/p''"] fs_write_succeeds [of s "''/p''" "''/p''"]
      fs_write_succeeds [of "s(''/p'' \<mapsto> File (build_pattern ''/h'') mode_644)" "''/l''" "''/l''"]
    by (auto simp: install_at_def Let_def follow_plain)
  have "utf8_valid ''core''" by code_simp
  with i [of ?s "''core''" "''16''" 128] obtain g1 s1 where
    1: "install_at no_faults ''/h'' 128 ''/p'' ''/l'' ?s = (Inr g1, s1)" "s1 ''/p'' = Some (File (build_pattern ''/h'') mode_644)"
      "s1 ''/l'' = Some (File (show_nat 128) mode_644)" by auto
  from i [OF 1(2,3) build_pattern_valid, of 64] obtain g2 s2 where 2: "install_at no_faults ''/h'' 64 ''/p'' ''/l'' s1 = (Inr g2, s2)" by blast
  have "file_content (restore no_faults g2 s2) ''/l'' = show_nat 128"
    using killed_daemon_loses_pipe_limit [OF 1(1) 2, of "''/p''" "''/l''" "''core''" mode_644 "''16''" mode_644] by (simp add: follow_plain)
  moreover have "show_nat 128 = ''128''" by code_simp
  ultimately show ?thesis using 1(1) 2 by auto
qed

end
