(* ===== verification/Health.thy ===== *)
theory Health
  imports Core_Pattern Config
begin

text \<open>
  \<open>src/health.rs\<close>: the check behind the readiness and liveness probes.
\<close>

datatype health_error =
  PatternUnreadable io_error | PatternDrifted string | ConfigBad | SocketGone path

definition health_check ::
  "('u, 'k, 's) store_lib \<Rightarrow> config_codec \<Rightarrow> io_env \<Rightarrow> path \<Rightarrow> path \<Rightarrow> path \<Rightarrow> fs \<Rightarrow> health_error + unit" where
  "health_check lib codec io handler_path config_path core_pattern_path s =
     (case read_to_string io s core_pattern_path of
        Inl e \<Rightarrow> Inl (PatternUnreadable e)
      | Inr current \<Rightarrow>
          if trim_end current \<noteq> build_pattern handler_path then Inl (PatternDrifted (trim_end current))
          else
            (case config_read lib codec io s config_path of
               None \<Rightarrow> Inl ConfigBad
             | Some config \<Rightarrow>
                 (case hc_event_socket_path config of
                    Some socket \<Rightarrow> if path_exists s socket then Inr () else Inl (SocketGone socket)
                  | None \<Rightarrow> Inr ())))"

text \<open>Healthy means exactly that the three things the capture path needs are there.\<close>

lemma health_check_ok:
  "health_check lib codec io h cp pp s = Inr () \<longleftrightarrow>
     (\<exists>current cfg. read_to_string io s pp = Inr current \<and> trim_end current = build_pattern h \<and>
        config_read lib codec io s cp = Some cfg \<and>
        (\<forall>sock. hc_event_socket_path cfg = Some sock \<longrightarrow> path_exists s sock))"
  by (auto simp: health_check_def split: sum.splits option.splits if_splits)

end
