(* ===== verification/Daemon.thy ===== *)
theory Daemon
  imports Health K8s_Events Capture_Flow
begin

text \<open>
  \<open>src/main.rs\<close>: the daemon's life (bind the event socket, write the handler's configuration,
  route the kernel, listen, restore) and the dispatch of the three modes of the binary. The
  command line parser (\<open>clap\<close>) delivers \<open>daemon_args\<close>; signals and the passage of time between
  start and shutdown are parameters.
\<close>

section \<open>Arguments\<close>

definition DEFAULT_HANDLER_PATH :: path where "DEFAULT_HANDLER_PATH = ''/opt/coredrop/bin/coredrop''"

record daemon_args =
  da_handler_path :: path
  da_config_path :: path
  da_cluster :: string
  da_no_redact :: bool
  da_proc_root :: path
  da_store_url :: "string option"
  da_crictl_path :: path
  da_cri_runtime_endpoint :: "string option"
  da_max_core_bytes :: u64
  da_max_cores_per_hour :: u32
  da_upload_deadline_secs :: u64
  da_crictl_timeout_secs :: u64
  da_no_events :: bool
  da_pipe_limit :: u32
  da_node_name :: "string option"
  da_core_pattern_path :: path
  da_core_pipe_limit_path :: path

text \<open>The arguments of a command line and an environment that say nothing.\<close>

definition daemon_args_default :: daemon_args where
  "daemon_args_default =
     \<lparr>da_handler_path = DEFAULT_HANDLER_PATH, da_config_path = DEFAULT_CONFIG_PATH, da_cluster = DEFAULT_CLUSTER,
      da_no_redact = False, da_proc_root = DEFAULT_PROC_ROOT, da_store_url = None, da_crictl_path = DEFAULT_CRICTL_PATH,
      da_cri_runtime_endpoint = None, da_max_core_bytes = DEFAULT_MAX_CORE_BYTES,
      da_max_cores_per_hour = DEFAULT_MAX_CORES_PER_HOUR, da_upload_deadline_secs = DEFAULT_UPLOAD_DEADLINE_SECS,
      da_crictl_timeout_secs = DEFAULT_CRICTL_TIMEOUT_SECS, da_no_events = False, da_pipe_limit = DEFAULT_PIPE_LIMIT,
      da_node_name = None, da_core_pattern_path = CORE_PATTERN_PATH, da_core_pipe_limit_path = CORE_PIPE_LIMIT_PATH\<rparr>"

definition to_handler_config :: "daemon_args \<Rightarrow> (string \<times> string) list \<Rightarrow> handler_config" where
  "to_handler_config args vars =
     \<lparr>hc_cluster = da_cluster args, hc_no_redact = da_no_redact args, hc_proc_root = da_proc_root args,
      hc_store_url = opt_filter (\<lambda>u. u \<noteq> []) (da_store_url args), hc_store_options = store_options_from_env vars,
      hc_crictl_path = da_crictl_path args, hc_cri_runtime_endpoint = da_cri_runtime_endpoint args,
      hc_max_core_bytes = da_max_core_bytes args, hc_max_cores_per_hour = da_max_cores_per_hour args,
      hc_upload_deadline_secs = da_upload_deadline_secs args, hc_crictl_timeout_secs = da_crictl_timeout_secs args,
      hc_rate_state_path = rate_state_path_for (da_config_path args),
      hc_event_socket_path = Some (event_socket_path_for (da_config_path args))\<rparr>"

section \<open>\<open>run_daemon\<close>\<close>

datatype daemon_error = BindFailed io_error | ConfigWriteFailed io_error | InstallFailed io_error | SignalFailed

text \<open>From the start to the installed pattern; the plaintext and CRI checks before it only log.\<close>

definition daemon_warnings :: "daemon_args \<Rightarrow> (string \<times> string) list \<Rightarrow> fs \<Rightarrow> bool \<times> bool" where
  "daemon_warnings args vars s =
     (let config = to_handler_config args vars
      in (hc_store_url config \<noteq> None \<and> is_plaintext_endpoint (hc_store_options config),
          (case hc_cri_runtime_endpoint config of
             None \<Rightarrow> False
           | Some endpoint \<Rightarrow>
               (case unix_socket_path endpoint of None \<Rightarrow> False | Some socket \<Rightarrow> \<not> path_exists s socket))))"

definition daemon_start ::
  "config_codec \<Rightarrow> io_env \<Rightarrow> daemon_args \<Rightarrow> (string \<times> string) list \<Rightarrow> fs \<Rightarrow> (daemon_error + core_pattern_guard) \<times> fs" where
  "daemon_start codec io args vars s =
     (let config = to_handler_config args vars;
          socket_path = event_socket_path_for (da_config_path args)
      in case bind_socket io socket_path s of
           (Inl e, s1) \<Rightarrow> (Inl (BindFailed e), s1)
         | (Inr _, s1) \<Rightarrow>
      (case config_write codec io config (da_config_path args) s1 of
           (Inl e, s2) \<Rightarrow> (Inl (ConfigWriteFailed e), s2)
         | (Inr _, s2) \<Rightarrow>
      (case install_at io (da_handler_path args) (da_pipe_limit args) (da_core_pattern_path args) (da_core_pipe_limit_path args) s2 of
           (Inl e, s3) \<Rightarrow> (Inl (InstallFailed e), s3)
         | (Inr guard, s3) \<Rightarrow> (Inr guard, s3))))"

definition daemon_node :: "io_env \<Rightarrow> daemon_args \<Rightarrow> fs \<Rightarrow> string" where
  "daemon_node io args s =
     (case opt_filter (\<lambda>n. n \<noteq> []) (da_node_name args) of Some n \<Rightarrow> n | None \<Rightarrow> node_hostname io s)"

text \<open>
  The whole life of a daemon that is not killed: the listener serves the events \<open>evs\<close> while
  \<open>meanwhile\<close> is what others do to the file system, until the signal (or the failure to wait for
  one); then the guard is dropped.
\<close>

record ('u, 'c, 'h) daemon_env =
  de_codec :: config_codec
  de_io :: io_env
  de_store_vars :: "(string \<times> string) list"
  de_http :: "('u, 'c, 'h) http_lib"
  de_net :: "'u request \<Rightarrow> response option"
  de_micros :: "int \<Rightarrow> string option"
  de_json_parse :: "bytes \<Rightarrow> json option"
  de_vars :: "string \<rightharpoonup> string"
  de_signals_ok :: bool

definition run_daemon ::
  "('u, 'c, 'h) daemon_env \<Rightarrow> daemon_args \<Rightarrow> listener_ev list \<Rightarrow> (fs \<Rightarrow> fs) \<Rightarrow> fs
     \<Rightarrow> (daemon_error + 'u listener) \<times> fs" where
  "run_daemon env args evs meanwhile s =
     (case daemon_start (de_codec env) (de_io env) args (de_store_vars env) s of
        (Inl e, s1) \<Rightarrow> (Inl e, s1)
      | (Inr guard, s1) \<Rightarrow>
          (let li = run_listener (de_http env) (de_net env) (de_micros env) (de_json_parse env) (de_io env) s1 (de_vars env)
                 (daemon_node (de_io env) args s1) (\<not> da_no_events args) evs
           in ((if de_signals_ok env then Inr li else Inl SignalFailed), restore (de_io env) guard (meanwhile s1))))"

section \<open>\<open>main\<close>\<close>

definition env_path :: "(string \<rightharpoonup> bytes) \<Rightarrow> string \<Rightarrow> string \<Rightarrow> path" where
  "env_path vars key dflt = (case vars key of None \<Rightarrow> dflt | Some v \<Rightarrow> v)"

datatype main_mode = CaptureMode "bytes list" | CheckMode | DaemonMode

text \<open>The arguments after the program's name; an argument that is not UTF-8 is no subcommand.\<close>

definition main_mode_of :: "bytes list \<Rightarrow> main_mode" where
  "main_mode_of argv =
     (case argv of
        [] \<Rightarrow> DaemonMode
      | a # rest \<Rightarrow>
          if utf8_valid a \<and> a = ''capture'' then CaptureMode rest
          else if utf8_valid a \<and> a = ''check'' then CheckMode
          else DaemonMode)"

definition main_capture ::
  "('u, 'k, 's) store_lib \<Rightarrow> ('z, 'b) capture_env \<Rightarrow> config_codec \<Rightarrow> (string \<rightharpoonup> bytes) \<Rightarrow> bytes list \<Rightarrow> pipe \<Rightarrow> world
     \<Rightarrow> (args_error + run_end) \<times> world" where
  "main_capture lib env codec vars rest core_in w =
     (case capture_args_parse rest of
        Inl e \<Rightarrow> (Inl e, w)
      | Inr args \<Rightarrow>
          (let config_path = env_path vars ''CAPTURE_CONFIG_PATH'' DEFAULT_CONFIG_PATH;
               config = unwrap_or (config_read lib codec (en_io env) (wo_fs w) config_path) handler_config_default;
               (fin, w') = run lib env args config core_in None w
           in (Inr fin, w')))"

definition main_check ::
  "('u, 'k, 's) store_lib \<Rightarrow> config_codec \<Rightarrow> io_env \<Rightarrow> (string \<rightharpoonup> bytes) \<Rightarrow> fs \<Rightarrow> health_error + unit" where
  "main_check lib codec io vars s =
     health_check lib codec io (env_path vars ''CAPTURE_HANDLER_PATH'' DEFAULT_HANDLER_PATH)
       (env_path vars ''CAPTURE_CONFIG_PATH'' DEFAULT_CONFIG_PATH)
       (env_path vars ''CAPTURE_CORE_PATTERN_PATH'' CORE_PATTERN_PATH) s"

section \<open>Lemmas\<close>

text \<open>A directory made private keeps every file, link and socket.\<close>

lemma ensure_private_dir_socket:
  assumes "s p = Some (Socket m)"
  shows "\<exists>m'. snd (ensure_private_dir io s d) p = Some (Socket m')"
proof -
  obtain r s1 where m: "create_dir_all io s d = (r, s1)" by fastforce
  have s1: "s1 p = Some (Socket m)" using mkdirs_mono [of s p "Socket m" io "path_ancestors d"] assms m by (simp add: create_dir_all_def)
  have "\<exists>m'. snd (set_permissions io s1 d mode_700) p = Some (Socket m')"
    using s1 by (auto simp: set_permissions_def split: option.split)
  with s1 m show ?thesis by (auto simp: ensure_private_dir_def split: sum.split)
qed

lemma bind_socket_ok:
  assumes "bind_socket io p s = (Inr u, s')"
  shows "s' p = Some (Socket EVENT_SOCKET_MODE)"
  using assms
  by (auto simp: bind_socket_def socket_bind_def set_permissions_def follow_plain
      split: option.splits prod.splits sum.splits if_splits)

lemma bind_socket_links:
  assumes "bind_socket io p s = (r, s')" "q \<noteq> p"
  shows "s' q = Some (Symlink t) \<longleftrightarrow> s q = Some (Symlink t)" and "file_content s' q = file_content s q"
    and "(\<exists>m. s' q = Some (File c m)) \<longleftrightarrow> (\<exists>m. s q = Some (File c m))"
proof -
  let ?d = "case path_parent p of Some parent \<Rightarrow> ensure_private_dir io s parent | None \<Rightarrow> (Inr (), s)"
  have sf: "same_files s (snd ?d)" using ensure_private_dir_same_files by (auto split: option.split)
  have "s' q = snd ?d q \<or> (\<exists>e. fst ?d = Inl e)"
    using assms set_permissions_other
    by (auto simp: bind_socket_def socket_bind_def remove_file_def set_permissions_def follow_plain
        split: option.splits prod.splits sum.splits if_splits node.splits)
  moreover have "fst ?d = Inl e \<Longrightarrow> s' = snd ?d" for e using assms(1) by (auto simp: bind_socket_def split: prod.splits)
  ultimately have eq: "s' q = snd ?d q" by auto
  then show "s' q = Some (Symlink t) \<longleftrightarrow> s q = Some (Symlink t)" "file_content s' q = file_content s q"
    using sf same_files_content [OF sf, of q] by (auto simp: same_files_def same_links_def file_content_def)
  show "(\<exists>m. s' q = Some (File c m)) \<longleftrightarrow> (\<exists>m. s q = Some (File c m))" using eq sf unfolding same_files_def by metis
qed

text \<open>Writing a configuration keeps every link and socket, and the content of every other file.\<close>

lemma config_write_keeps:
  assumes "config_write codec io cfg path s = (r, s')" "q \<noteq> path" "q \<noteq> tmp_path path"
  shows "s' q = Some (Symlink t) \<longleftrightarrow> s q = Some (Symlink t)" and "file_content s' q = file_content s q"
    and "s q = Some (Socket m) \<Longrightarrow> \<exists>m'. s' q = Some (Socket m')"
    and "(\<exists>m. s' q = Some (File c m)) \<longleftrightarrow> (\<exists>m. s q = Some (File c m))"
proof -
  from assms(1) obtain s1 where s1: "same_files s s1"
      "s1 = s \<or> (\<exists>parent. path_parent path = Some parent \<and> s1 = snd (ensure_private_dir io s parent))"
    and fr: "\<And>q. q \<noteq> path \<Longrightarrow> q \<noteq> tmp_path path \<Longrightarrow> s' q = s1 q"
      "r = Inr () \<Longrightarrow> \<exists>json. cc_print codec cfg = Some json \<and> s' path = Some (File json mode_600)"
      "r \<noteq> Inr () \<Longrightarrow> s' path = s1 path"
    by (rule config_write_effect) blast
  have eq: "s' q = s1 q" using fr(1) assms(2,3) by blast
  then show "s' q = Some (Symlink t) \<longleftrightarrow> s q = Some (Symlink t)" "file_content s' q = file_content s q"
    using s1(1) same_files_content [OF s1(1), of q] by (auto simp: same_files_def same_links_def file_content_def)
  show "\<exists>m'. s' q = Some (Socket m')" if "s q = Some (Socket m)"
    using that eq s1(2) ensure_private_dir_socket [of s q m io] by auto
  show "(\<exists>m. s' q = Some (File c m)) \<longleftrightarrow> (\<exists>m. s q = Some (File c m))" using eq s1(1) unfolding same_files_def by metis
qed

section \<open>Properties\<close>

text \<open>The paths of a daemon's own files, none of which is a sysctl.\<close>

definition paths_apart :: "daemon_args \<Rightarrow> fs \<Rightarrow> bool" where
  "paths_apart args s \<longleftrightarrow>
     (let cp = da_config_path args; sock = event_socket_path_for cp;
          pp = da_core_pattern_path args; lp = da_core_pipe_limit_path args
      in distinct [cp, tmp_path cp, sock, pp, lp] \<and> (\<forall>t. s pp \<noteq> Some (Symlink t)) \<and> (\<forall>t. s lp \<noteq> Some (Symlink t)))"

text \<open>
  How far a start came decides what it leaves. \<open>bound\<close>, \<open>written\<close> and \<open>routed\<close> say that the
  socket is there, that the configuration is the one of the arguments, and that the kernel's
  pattern runs the handler.
\<close>

definition bound :: "daemon_args \<Rightarrow> fs \<Rightarrow> bool" where
  "bound args s \<longleftrightarrow> (\<exists>m. s (event_socket_path_for (da_config_path args)) = Some (Socket m))"

definition written :: "config_codec \<Rightarrow> daemon_args \<Rightarrow> (string \<times> string) list \<Rightarrow> fs \<Rightarrow> bool" where
  "written codec args vars s \<longleftrightarrow>
     (\<exists>json. cc_print codec (to_handler_config args vars) = Some json \<and> s (da_config_path args) = Some (File json mode_600))"

definition routed :: "daemon_args \<Rightarrow> fs \<Rightarrow> bool" where
  "routed args s \<longleftrightarrow> (\<exists>m. s (da_core_pattern_path args) = Some (File (build_pattern (da_handler_path args)) m))"

lemma daemon_start_cases:
  assumes "daemon_start codec io args vars s = (r, s')"
  obtains (unbound) e where "r = Inl (BindFailed e)" "bind_socket io (event_socket_path_for (da_config_path args)) s = (Inl e, s')"
  | (unwritten) e s1 where "r = Inl (ConfigWriteFailed e)" "bind_socket io (event_socket_path_for (da_config_path args)) s = (Inr (), s1)"
      "config_write codec io (to_handler_config args vars) (da_config_path args) s1 = (Inl e, s')"
  | (installed) ri s1 s2 where "bind_socket io (event_socket_path_for (da_config_path args)) s = (Inr (), s1)"
      "config_write codec io (to_handler_config args vars) (da_config_path args) s1 = (Inr (), s2)"
      "install_at io (da_handler_path args) (da_pipe_limit args) (da_core_pattern_path args) (da_core_pipe_limit_path args) s2 = (ri, s')"
      "r = (case ri of Inl e \<Rightarrow> Inl (InstallFailed e) | Inr g \<Rightarrow> Inr g)"
proof -
  obtain rb s1 where b: "bind_socket io (event_socket_path_for (da_config_path args)) s = (rb, s1)" by fastforce
  obtain rw s2 where w: "config_write codec io (to_handler_config args vars) (da_config_path args) s1 = (rw, s2)" by fastforce
  obtain ri s3 where i: "install_at io (da_handler_path args) (da_pipe_limit args) (da_core_pattern_path args)
      (da_core_pipe_limit_path args) s2 = (ri, s3)" by fastforce
  show thesis
  proof (cases rb)
    case (Inl e)
    with assms b show thesis using unbound [of e] by (simp add: daemon_start_def)
  next
    case rb: (Inr u)
    show thesis
    proof (cases rw)
      case (Inl e)
      with rb assms b w show thesis using unwritten [of e s1] by (simp add: daemon_start_def)
    next
      case (Inr u)
      with rb assms b w i show thesis
        using installed [of s1 s2 ri] by (simp add: daemon_start_def split: sum.splits)
    qed
  qed
qed

lemma written_after_write:
  assumes "config_write codec io (to_handler_config args vars) (da_config_path args) s = (Inr (), s')"
  shows "written codec args vars s'"
  using config_write_effect [OF assms] unfolding written_def by metis

lemma bound_after_write:
  assumes "bind_socket io (event_socket_path_for (da_config_path args)) s = (Inr (), s1)"
    and "config_write codec io (to_handler_config args vars) (da_config_path args) s1 = (r, s2)" "paths_apart args s"
  shows "bound args s2"
  using bind_socket_ok [OF assms(1)] config_write_keeps(3) [OF assms(2), of "event_socket_path_for (da_config_path args)"] assms(3)
  by (auto simp: bound_def paths_apart_def Let_def)

text \<open>Up to the installation, a path that is not the daemon's keeps its content and stays what it is.\<close>

lemma before_install_keeps:
  assumes "bind_socket io (event_socket_path_for (da_config_path args)) s = (rb, s1)"
    and "config_write codec io (to_handler_config args vars) (da_config_path args) s1 = (rw, s2)"
    and "q \<notin> {da_config_path args, tmp_path (da_config_path args), event_socket_path_for (da_config_path args)}"
  shows "file_content s1 q = file_content s q" "file_content s2 q = file_content s q"
    and "s2 q = Some (Symlink t) \<longleftrightarrow> s q = Some (Symlink t)" and "(\<exists>m. s2 q = Some (File c m)) \<longleftrightarrow> (\<exists>m. s q = Some (File c m))"
  using bind_socket_links [OF assms(1), of q] config_write_keeps(1,2,4) [OF assms(2), of q] assms(3) by auto

lemma installed_state:
  assumes "paths_apart args s"
    and "bind_socket io (event_socket_path_for (da_config_path args)) s = (Inr (), s1)"
    and "config_write codec io (to_handler_config args vars) (da_config_path args) s1 = (Inr (), s2)"
    and "install_at io (da_handler_path args) (da_pipe_limit args) (da_core_pattern_path args) (da_core_pipe_limit_path args) s2 = (ri, s')"
  shows "bound args s'" "written codec args vars s'" "ri = Inr g \<Longrightarrow> routed args s'"
proof -
  let ?pp = "da_core_pattern_path args" and ?lp = "da_core_pipe_limit_path args" and ?cp = "da_config_path args"
  have plain: "follow s2 ?pp = Some ?pp" "follow s2 ?lp = Some ?lp" "?pp \<noteq> ?cp" "?lp \<noteq> ?cp" "?pp \<noteq> ?lp"
    using before_install_keeps(3) [OF assms(2,3)] assms(1) by (auto simp: paths_apart_def Let_def follow_plain)
  show "bound args s'"
    using bound_after_write [OF assms(2,3,1)] install_at_frame(3) [OF assms(4)] by (auto simp: bound_def)
  show "written codec args vars s'"
    using written_after_write [OF assms(3)] install_at_frame(2) [OF assms(4), of ?cp] plain by (auto simp: written_def)
  show "routed args s'" if "ri = Inr g"
  proof -
    from install_at_effect [OF assms(4) [unfolded that]] plain obtain q m where
      "follow s' ?pp = Some q" "s' q = Some (File (build_pattern (da_handler_path args)) m)" by auto
    with plain(1) same_links_follow [OF install_at_frame(1) [OF assms(4)], of ?pp] show ?thesis by (auto simp: routed_def)
  qed
qed

text \<open>An example start, on a node with the two sysctls and a directory for the rest.\<close>

definition example_daemon_args :: daemon_args where
  "example_daemon_args = daemon_args_default\<lparr>da_config_path := ''/c'', da_core_pattern_path := ''/p'', da_core_pipe_limit_path := ''/l''\<rparr>"

definition example_node :: fs where
  "example_node = [''/'' \<mapsto> Dir mode_755, ''/p'' \<mapsto> File ''core'' mode_644, ''/l'' \<mapsto> File ''0'' mode_644]"

definition example_daemon_codec :: config_codec where
  "example_daemon_codec =
     \<lparr>cc_parse = (\<lambda>b. if b = ''D'' then Some (to_handler_config example_daemon_args []) else None),
      cc_print = (\<lambda>c. if c = to_handler_config example_daemon_args [] then Some ''D'' else None)\<rparr>"

lemma example_daemon_paths:
  "path_parent ''/c'' = Some ''/''" "path_parent ''/events.sock'' = Some ''/''" "path_parent ''/c.tmp'' = Some ''/''"
  "path_ancestors ''/'' = [''/'']" "path_join ''/'' ''events.sock'' = ''/events.sock''" "path_join ''/'' ''recent.json'' = ''/recent.json''"
  by code_simp+

lemma example_daemon_simps [simp]:
  "da_config_path example_daemon_args = ''/c''" "da_core_pattern_path example_daemon_args = ''/p''"
  "da_core_pipe_limit_path example_daemon_args = ''/l''" "event_socket_path_for ''/c'' = ''/events.sock''"
  "rate_state_path_for ''/c'' = ''/recent.json''" "tmp_path ''/c'' = ''/c.tmp''"
  by (simp_all add: example_daemon_args_def event_socket_path_for_def rate_state_path_for_def tmp_path_def example_daemon_paths)

lemma example_daemon_codec_inverse: "cc_print example_daemon_codec c = Some json \<Longrightarrow> cc_parse example_daemon_codec json = Some c"
  by (simp add: example_daemon_codec_def split: if_splits)

lemma example_paths_apart: "paths_apart example_daemon_args example_node"
  by (simp add: paths_apart_def example_node_def)

lemma example_daemon_valid: "validate example_lib (to_handler_config example_daemon_args []) = Inr ()"
  by (simp add: validate_ok to_handler_config_def is_absolute_def)
    (simp add: example_daemon_args_def daemon_args_default_def DEFAULT_CRICTL_PATH_def DEFAULT_PROC_ROOT_def opt_filter_def)

lemma example_daemon_start:
  "\<exists>g s'. daemon_start example_daemon_codec no_faults example_daemon_args [] example_node = (Inr g, s') \<and> s' ''/c'' = Some (File ''D'' mode_600)"
proof -
  have fl: "follow s ''/'' = Some ''/''" "is_dir s ''/''" if "s ''/'' = Some (Dir m)" for s m
    using that by (auto simp: follow_plain is_dir_def node_at_plain)
  let ?s1 = "example_node(''/'' \<mapsto> Dir mode_700, ''/events.sock'' \<mapsto> Socket EVENT_SOCKET_MODE)"
  have b: "bind_socket no_faults ''/events.sock'' example_node = (Inr (), ?s1)"
    by (simp add: bind_socket_def socket_bind_def ensure_private_dir_def create_dir_all_def example_daemon_paths fl fs_call_defs
        parent_is_dir_def follow_plain example_node_def)
  let ?s2 = "?s1(''/c'' \<mapsto> File ''D'' mode_600)"
  have w: "config_write example_daemon_codec no_faults (to_handler_config example_daemon_args []) ''/c'' ?s1 = (Inr (), ?s2)"
    by (simp add: config_write_def config_write_tmp_def ensure_private_dir_def create_dir_all_def example_daemon_paths fl fs_call_defs
        example_daemon_codec_def parent_is_dir_def Let_def file_content_def set_content_def example_node_def fun_eq_iff)
  have p: "follow ?s2 ''/p'' = Some ''/p''" "?s2 ''/p'' = Some (File ''core'' mode_644)" by (simp_all add: follow_plain example_node_def)
  have "read_to_string no_faults ?s2 ''/p'' = Inr ''core''" by (rule read_to_string_file [OF p]) (simp_all add: is_ascii_def)
  then have "\<exists>g s'. install_at no_faults (da_handler_path example_daemon_args) (da_pipe_limit example_daemon_args) ''/p'' ''/l'' ?s2 = (Inr g, s')"
    using fs_write_succeeds [OF p, of no_faults] by (simp add: install_at_def del: fun_upd_apply)
  then obtain g s' where i: "install_at no_faults (da_handler_path example_daemon_args) (da_pipe_limit example_daemon_args) ''/p'' ''/l'' ?s2 = (Inr g, s')"
    by blast
  have "follow ?s2 ''/l'' = Some ''/l''" by (simp add: follow_plain example_node_def)
  with install_at_frame(2) [OF i, of "''/c''"] p(1) have "s' ''/c'' = Some (File ''D'' mode_600)" by simp
  with b w i show ?thesis by (auto simp: daemon_start_def)
qed

text \<open>
  C23. The daemon starts in an order that loses no crash: however far a start comes and whichever
  call fails, a configuration is only replaced when the socket it names is bound, and a sysctl is
  only written when the socket is bound and the configuration is the one of this daemon. So the
  kernel never runs a handler whose configuration names a socket nobody has opened.
\<close>

theorem start_order:
  assumes "daemon_start codec io args vars s = (r, s')" and "paths_apart args s"
  shows "(file_content s' (da_config_path args) \<noteq> file_content s (da_config_path args) \<longrightarrow> bound args s') \<and>
    (\<forall>q \<in> {da_core_pattern_path args, da_core_pipe_limit_path args}.
       file_content s' q \<noteq> file_content s q \<longrightarrow> bound args s' \<and> written codec args vars s')"
  using assms(1)
proof (cases rule: daemon_start_cases)
  case (unbound e)
  with bind_socket_links(2) [OF unbound(2)] assms(2) show ?thesis by (auto simp: paths_apart_def Let_def)
next
  case (unwritten e s1)
  with bound_after_write [OF unwritten(2,3) assms(2)] before_install_keeps(2) [OF unwritten(2,3)] assms(2)
  show ?thesis by (auto simp: paths_apart_def Let_def)
next
  case (installed ri s1 s2)
  from installed_state(1,2) [OF assms(2) installed(1-3)] show ?thesis by simp
qed

theorem start_order_witness:
  "\<exists>g s'. daemon_start example_daemon_codec no_faults example_daemon_args [] example_node = (Inr g, s') \<and>
    file_content s' ''/c'' = ''D'' \<and> bound example_daemon_args s'"
proof -
  obtain g s' where g: "daemon_start example_daemon_codec no_faults example_daemon_args [] example_node = (Inr g, s')"
    "s' ''/c'' = Some (File ''D'' mode_600)"
    using example_daemon_start by blast
  with start_order [OF g(1) example_paths_apart] show ?thesis by (auto simp: file_content_def example_node_def)
qed

lemma main_capture_configured:
  assumes "config_read lib codec (en_io env) (wo_fs w) (env_path vp ''CAPTURE_CONFIG_PATH'' DEFAULT_CONFIG_PATH) = Some cfg"
  shows "main_capture lib env codec vp rest p w =
    (case capture_args_parse rest of Inl e \<Rightarrow> (Inl e, w) | Inr a \<Rightarrow> apfst Inr (run lib env a cfg p None w))"
  using assms by (simp add: main_capture_def split: sum.split prod.split)

text \<open>What a successful start leaves for the others to find.\<close>

lemma daemon_start_leaves:
  assumes "daemon_start codec io args vars s = (Inr g, s')" and "paths_apart args s"
    and "validate lib (to_handler_config args vars) = Inr ()"
    and "\<And>c json. cc_print codec c = Some json \<Longrightarrow> cc_parse codec json = Some c"
    and "\<And>x. \<not> io_fails io' OpOpen x" "\<And>x. \<not> io_fails io' OpRead x"
  shows "config_read lib codec io' s' (da_config_path args) = Some (to_handler_config args vars)"
    and "health_check lib codec io' (da_handler_path args) (da_config_path args) (da_core_pattern_path args) s' = Inr ()"
proof -
  from assms(1) have "routed args s' \<and> written codec args vars s' \<and> bound args s'"
  proof (cases rule: daemon_start_cases)
    case (installed ri s1 s2)
    then have "ri = Inr g" by (auto split: sum.splits)
    with installed_state [OF assms(2) installed(1-3)] show ?thesis by blast
  qed simp_all
  then obtain m json where n: "s' (da_core_pattern_path args) = Some (File (build_pattern (da_handler_path args)) m)"
    "cc_print codec (to_handler_config args vars) = Some json" "s' (da_config_path args) = Some (File json mode_600)"
    and sock: "path_exists s' (event_socket_path_for (da_config_path args))"
    by (auto simp: routed_def written_def bound_def path_exists_def node_at_plain)
  have pat: "read_to_string io' s' (da_core_pattern_path args) = Inr (build_pattern (da_handler_path args))"
    using n(1) assms(5,6) build_pattern_valid by (intro read_to_string_file [of _ _ "da_core_pattern_path args"]) (simp_all add: follow_plain)
  show cfg: "config_read lib codec io' s' (da_config_path args) = Some (to_handler_config args vars)"
    using config_read_file [of s' "da_config_path args" json mode_600 io' lib codec] n(2,3) assms(3-6) by simp
  have "hc_event_socket_path (to_handler_config args vars) = Some (event_socket_path_for (da_config_path args))"
    by (simp add: to_handler_config_def)
  with pat cfg sock show "health_check lib codec io' (da_handler_path args) (da_config_path args) (da_core_pattern_path args) s' = Inr ()"
    by (simp add: health_check_ok build_pattern_trim)
qed

text \<open>
  C24. A daemon that has started is healthy and has configured its handlers: when the start
  succeeds on arguments that give a valid configuration, the probe that the chart runs (\<open>coredrop
  check\<close> with the same paths) passes, and a capture that reads its configuration from the path of
  the daemon runs with exactly the configuration of the daemon's arguments.
\<close>

theorem daemon_start_healthy:
  assumes "daemon_start codec io args vars s = (Inr g, s')" and "paths_apart args s"
    and "validate lib (to_handler_config args vars) = Inr ()"
    and "\<And>c json. cc_print codec c = Some json \<Longrightarrow> cc_parse codec json = Some c"
    and "\<And>x. \<not> io_fails (en_io env) OpOpen x" "\<And>x. \<not> io_fails (en_io env) OpRead x"
    and "env_path vp ''CAPTURE_HANDLER_PATH'' DEFAULT_HANDLER_PATH = da_handler_path args"
      "env_path vp ''CAPTURE_CONFIG_PATH'' DEFAULT_CONFIG_PATH = da_config_path args"
      "env_path vp ''CAPTURE_CORE_PATTERN_PATH'' CORE_PATTERN_PATH = da_core_pattern_path args"
    and "wo_fs w = s'"
  shows "main_check lib codec (en_io env) vp s' = Inr () \<and>
    main_capture lib env codec vp rest p w =
      (case capture_args_parse rest of
         Inl e \<Rightarrow> (Inl e, w)
       | Inr a \<Rightarrow> apfst Inr (run lib env a (to_handler_config args vars) p None w))"
proof -
  note left = daemon_start_leaves [OF assms(1-6)]
  have "config_read lib codec (en_io env) (wo_fs w) (env_path vp ''CAPTURE_CONFIG_PATH'' DEFAULT_CONFIG_PATH) =
      Some (to_handler_config args vars)" using left(1) by (simp add: assms(8,10))
  from main_capture_configured [OF this] left(2) show ?thesis by (simp add: main_check_def assms(7-9))
qed

theorem daemon_start_healthy_witness:
  "\<exists>g s'. daemon_start example_daemon_codec no_faults example_daemon_args [] example_node = (Inr g, s') \<and>
     main_check example_lib example_daemon_codec no_faults [''CAPTURE_CONFIG_PATH'' \<mapsto> ''/c'', ''CAPTURE_CORE_PATTERN_PATH'' \<mapsto> ''/p''] s' = Inr ()"
proof -
  obtain g s' where g: "daemon_start example_daemon_codec no_faults example_daemon_args [] example_node = (Inr g, s')"
    using example_daemon_start by blast
  from daemon_start_healthy [OF g example_paths_apart example_daemon_valid example_daemon_codec_inverse,
      of "example_capture_env example_codec0" "[''CAPTURE_CONFIG_PATH'' \<mapsto> ''/c'', ''CAPTURE_CORE_PATTERN_PATH'' \<mapsto> ''/p'']"
        "example_world\<lparr>wo_fs := s'\<rparr>"] g
  show ?thesis by (auto simp: env_path_def example_daemon_args_def daemon_args_default_def)
qed

text \<open>
  C25. The daemon leaves the node as it found it. When it ends in an orderly way, with or without
  an error from its signals, and its writes succeed, both sysctls hold again what they held
  before it started, whatever anybody wrote to them meanwhile. The exception is a pattern that
  already was the daemon's own (a predecessor was killed): that becomes the kernel's default
  \<open>core\<close>, so that the node is not left pointing at a handler nobody maintains. A start that failed
  before the installation has not changed them.
\<close>

theorem daemon_restores:
  assumes "run_daemon env args evs meanwhile s = (r, s')" and "paths_apart args s"
    and "s (da_core_pattern_path args) = Some (File found mp)" "s (da_core_pipe_limit_path args) = Some (File held ml)"
    and "\<And>s1. meanwhile s1 (da_core_pattern_path args) = Some (File (c1 s1) m1)"
      "\<And>s1. meanwhile s1 (da_core_pipe_limit_path args) = Some (File (c2 s1) m2)"
    and "\<And>x. \<not> io_fails (de_io env) OpOpen x" "\<And>x. \<not> io_fails (de_io env) OpRead x" "\<And>x. \<not> io_fails (de_io env) OpWrite x"
    and "utf8_valid found" "utf8_valid held" "held \<noteq> []"
  shows "file_content s' (da_core_pipe_limit_path args) = held \<and>
    file_content s' (da_core_pattern_path args) =
      (if trim_end found = build_pattern (da_handler_path args) \<and> ((\<exists>li. r = Inr li) \<or> r = Inl SignalFailed)
       then ''core'' else found)"
proof -
  let ?pp = "da_core_pattern_path args" and ?lp = "da_core_pipe_limit_path args"
  obtain r1 s1 where st: "daemon_start (de_codec env) (de_io env) args (de_store_vars env) s = (r1, s1)" by fastforce
  have out: "?pp \<notin> {da_config_path args, tmp_path (da_config_path args), event_socket_path_for (da_config_path args)}"
      "?lp \<notin> {da_config_path args, tmp_path (da_config_path args), event_socket_path_for (da_config_path args)}" "?pp \<noteq> ?lp"
    using assms(2) by (auto simp: paths_apart_def Let_def)
  have c0: "file_content s ?pp = found" "file_content s ?lp = held" using assms(3,4) by (simp_all add: file_content_def)
  from st show ?thesis
  proof (cases rule: daemon_start_cases)
    case (unbound e)
    with assms(1) st have "r = Inl (BindFailed e)" "s' = s1" by (simp_all add: run_daemon_def)
    with bind_socket_links(2) [OF unbound(2)] out c0 show ?thesis by simp
  next
    case (unwritten e s2)
    with assms(1) st have "r = Inl (ConfigWriteFailed e)" "s' = s1" by (simp_all add: run_daemon_def)
    with before_install_keeps(2) [OF unwritten(2,3)] out c0 show ?thesis by simp
  next
    case (installed ri sb s2)
    note keeps = before_install_keeps(4) [OF installed(1,2)]
    obtain mp' ml' where n: "s2 ?pp = Some (File found mp')" "s2 ?lp = Some (File held ml')"
      using keeps [OF out(1), of found] keeps [OF out(2), of held] assms(3,4) by blast
    then have fl: "follow s2 ?pp = Some ?pp" "follow s2 ?lp = Some ?lp" by (simp_all add: follow_plain)
    have "read_to_string (de_io env) s2 ?pp = Inr found" using fl(1) n(1) assms(7,8,10) by (intro read_to_string_file)
    moreover have "fs_write (de_io env) s2 ?pp c = (Inr (), s2(?pp \<mapsto> File c mp'))" for c
      using fl(1) n(1) assms(7,9) by (intro fs_write_succeeds)
    ultimately obtain g where g: "ri = Inr g" using installed(3) by (auto simp: install_at_def Let_def)
    note guard = install_at_guard [OF installed(3) [unfolded g] fl n assms(7,8,11)]
    have mfl: "follow (meanwhile s1) ?pp = Some ?pp" "follow (meanwhile s1) ?lp = Some ?lp"
      by (rule follow_plain, simp add: assms(5,6))+
    have "restore (de_io env) g (meanwhile s1) = (meanwhile s1)(?pp \<mapsto> File (cg_prev_pattern g) m1, ?lp \<mapsto> File (cg_prev_pipe_limit g) m2)"
      using restore_effect [OF _ _ _ mfl out(3) assms(5,6,7,9), of g] guard assms(12) by simp
    moreover have "r = (if de_signals_ok env then Inr (run_listener (de_http env) (de_net env) (de_micros env) (de_json_parse env)
          (de_io env) s1 (de_vars env) (daemon_node (de_io env) args s1) (\<not> da_no_events args) evs) else Inl SignalFailed) \<and>
        s' = restore (de_io env) g (meanwhile s1)"
      using assms(1) st g installed(4) by (auto simp: run_daemon_def)
    ultimately show ?thesis using guard out(3) by (simp add: file_content_def saved_pattern_def KERNEL_DEFAULT_PATTERN_def)
  qed
qed

theorem daemon_restores_witness:
  "file_content (snd (run_daemon \<lparr>de_codec = example_daemon_codec, de_io = no_faults, de_store_vars = [], de_http = example_http,
      de_net = \<lambda>_. None, de_micros = \<lambda>_. None, de_json_parse = \<lambda>_. None, de_vars = Map.empty, de_signals_ok = True\<rparr>
      example_daemon_args [RecvFailed] (\<lambda>s. s(''/p'' \<mapsto> File ''|/other'' mode_644, ''/l'' \<mapsto> File ''9'' mode_644)) example_node)) ''/p'' = ''core''"
  (is "file_content (snd (run_daemon ?env _ _ ?meanwhile _)) _ = _")
proof -
  obtain g s1 where "daemon_start example_daemon_codec no_faults example_daemon_args [] example_node = (Inr g, s1)"
    using example_daemon_start by blast
  then obtain li s' where r: "run_daemon ?env example_daemon_args [RecvFailed] ?meanwhile example_node = (Inr li, s')"
    by (simp add: run_daemon_def)
  from daemon_restores [OF r example_paths_apart, of "''core''" mode_644 "''0''" mode_644 "\<lambda>_. ''|/other''" mode_644 "\<lambda>_. ''9''" mode_644]
  have "file_content s' ''/p'' = ''core''" by (simp add: example_node_def is_ascii_def split: if_splits)
  with r show ?thesis by simp
qed

text \<open>A run with the default configuration, which names no store.\<close>

lemma default_run_inert:
  assumes "run lib env args handler_config_default p None w = (fin, w')"
  shows "wo_fs w' = wo_fs w \<and> wo_objects w' = wo_objects w \<and>
    (wo_sent w' = wo_sent w \<or> (\<exists>b. wo_sent w' = wo_sent w @ [(default_event_socket_path, b)]))"
proof -
  let ?c = handler_config_default
  have t: "run_target lib env args ?c None w = None"
    by (simp add: run_target_None run_store_def config_object_store_def handler_config_default_def)
  have rep: "wo_sent (report env ?c pl w) = wo_sent w \<or> (\<exists>b. wo_sent (report env ?c pl w) = wo_sent w @ [(default_event_socket_path, b)])" for pl
    by (auto simp: report_sent send_capture_event_def handler_config_default_def split: option.split)
  from assms show ?thesis
  proof (cases rule: run_cases)
    case (hung rec supp s1 objs1)
    with t rate_stage_exclusive [OF hung(1)] drain_stage_discards [OF hung(2)] show ?thesis by simp
  next
    case (failed rec supp s1 objs1 e)
    with t rate_stage_exclusive [OF failed(1)] drain_stage_discards [OF failed(2)]
    have "w' = report env ?c (failure_payload env args (run_identity env args ?c w) e) w" by simp
    with rep show ?thesis by simp
  next
    case (drained snap rec supp s1 objs1 stats)
    have e: "w\<lparr>wo_fs := s1, wo_objects := objs1\<rparr> = w"
      using t rate_stage_exclusive [OF drained(2)] drain_stage_discards [OF drained(3)] by simp
    from drained(4) [unfolded e] show ?thesis
      by (cases rule: finish_cases) (use rep in \<open>auto simp: t snapshot_stage_def manifest_stage_def\<close>)
  qed simp
qed

text \<open>
  C27. Without a configuration it may trust, the handler stores nothing: when the file is missing,
  unreadable, not parsed or not valid, a capture reads the core to its end, leaves every file and
  every object as it was, and at most tells the daemon's default socket about the crash.
\<close>

theorem unconfigured_capture_inert:
  assumes "config_read lib codec (en_io env) (wo_fs w) (env_path vars ''CAPTURE_CONFIG_PATH'' DEFAULT_CONFIG_PATH) = None"
    and "main_capture lib env codec vars rest p w = (r, w')"
  shows "wo_fs w' = wo_fs w \<and> wo_objects w' = wo_objects w \<and>
    (wo_sent w' = wo_sent w \<or> (\<exists>b. wo_sent w' = wo_sent w @ [(default_event_socket_path, b)]))"
proof (cases "capture_args_parse rest")
  case (Inr args)
  with assms obtain fin where "run lib env args handler_config_default p None w = (fin, w')"
    by (auto simp: main_capture_def split: prod.splits)
  then show ?thesis by (rule default_run_inert)
qed (use assms in \<open>simp add: main_capture_def\<close>)

theorem unconfigured_capture_inert_witness:
  "\<exists>r w'. main_capture example_lib (example_capture_env (\<lparr>rc_parse = \<lambda>_. None, rc_print = \<lambda>_. None\<rparr>)) example_codec Map.empty
      [''7'', ''11'', ''1000'', ''!bin!app''] [Data ''ab''] example_world = (r, w') \<and> wo_objects w' = Map.empty"
proof -
  have "config_read example_lib example_codec no_faults (wo_fs example_world) (env_path Map.empty ''CAPTURE_CONFIG_PATH'' DEFAULT_CONFIG_PATH) = None"
    by (simp add: config_read_def fs_read_def node_at_plain env_path_def example_world_def DEFAULT_CONFIG_PATH_def)
  then show ?thesis
    using unconfigured_capture_inert [of example_lib example_codec "example_capture_env \<lparr>rc_parse = \<lambda>_. None, rc_print = \<lambda>_. None\<rparr>"
        example_world Map.empty] by (metis example_env_simps(2) example_env_simps(12) prod.collapse)
qed

text \<open>A start writes no configuration at a path that is not its own.\<close>

lemma daemon_start_elsewhere:
  assumes "daemon_start codec io args vars s = (Inr g, s')" "paths_apart args s"
    and "q \<notin> {da_config_path args, tmp_path (da_config_path args), event_socket_path_for (da_config_path args),
      da_core_pattern_path args, da_core_pipe_limit_path args}"
    and "\<And>c m. s q \<noteq> Some (File c m)" "\<And>t. s q \<noteq> Some (Symlink t)"
  shows "config_read lib codec io' s' q = None"
  using assms(1)
proof (cases rule: daemon_start_cases)
  case (installed ri s1 s2)
  have q: "q \<notin> {da_config_path args, tmp_path (da_config_path args), event_socket_path_for (da_config_path args)}"
    using assms(3) by simp
  have plain: "follow s2 (da_core_pattern_path args) \<noteq> Some q" "follow s2 (da_core_pipe_limit_path args) \<noteq> Some q"
    using before_install_keeps(3) [OF installed(1,2)] assms(2,3) by (auto simp: paths_apart_def Let_def follow_plain)
  have "s' q = s2 q" by (rule install_at_frame(2) [OF installed(3) plain])
  with before_install_keeps(3,4) [OF installed(1,2) q] assms(4,5) have "s' q \<noteq> Some (File c m)" "s' q \<noteq> Some (Symlink t)" for c m t
    by auto
  then have "\<exists>e. fs_read io' s' q = Inl e"
    by (auto simp: fs_read_def node_at_plain split: option.split node.split)
  then show ?thesis by (auto simp: config_read_def)
qed simp_all

text \<open>
  C28. A relocated configuration is never read: the kernel starts the handler with an empty
  environment, so \<open>CAPTURE_CONFIG_PATH\<close> is not set for it and it looks at the default path. A daemon
  that was given another path starts, and the probe, which has the daemon's environment, says that
  all is well, while every capture on the node stores nothing, provided nothing lies at the default
  path (on a fresh \<open>/run\<close> nothing does).
\<close>

theorem relocated_config_unread:
  assumes "daemon_start codec io args vars s = (Inr g, s')" and "paths_apart args s"
    and "validate lib (to_handler_config args vars) = Inr ()"
    and "\<And>c json. cc_print codec c = Some json \<Longrightarrow> cc_parse codec json = Some c"
    and "\<And>x. \<not> io_fails (en_io env) OpOpen x" "\<And>x. \<not> io_fails (en_io env) OpRead x"
    and "DEFAULT_CONFIG_PATH \<notin> {da_config_path args, tmp_path (da_config_path args), event_socket_path_for (da_config_path args),
      da_core_pattern_path args, da_core_pipe_limit_path args}"
    and "\<And>c m. s DEFAULT_CONFIG_PATH \<noteq> Some (File c m)" "\<And>t. s DEFAULT_CONFIG_PATH \<noteq> Some (Symlink t)"
    and "wo_fs w = s'" "main_capture lib env codec Map.empty rest p w = (r, w')"
  shows "health_check lib codec (en_io env) (da_handler_path args) (da_config_path args) (da_core_pattern_path args) s' = Inr () \<and>
    wo_objects w' = wo_objects w"
proof -
  have "config_read lib codec (en_io env) (wo_fs w) DEFAULT_CONFIG_PATH = None"
    using daemon_start_elsewhere [OF assms(1,2,7-9)] assms(10) by simp
  then have "main_capture lib env codec Map.empty rest p w =
      (case capture_args_parse rest of Inl e \<Rightarrow> (Inl e, w) | Inr a \<Rightarrow> apfst Inr (run lib env a handler_config_default p None w))"
    by (simp add: main_capture_def env_path_def split: sum.split prod.split)
  with assms(11) default_run_inert [of lib env _ p w _ w'] have "wo_objects w' = wo_objects w"
    by (auto simp: apfst_def map_prod_def split: sum.splits prod.splits)
  with daemon_start_leaves(2) [OF assms(1-6)] show ?thesis by blast
qed

theorem relocated_config_unread_witness:
  "\<exists>g s' r w'. daemon_start example_daemon_codec no_faults example_daemon_args [] example_node = (Inr g, s') \<and>
     main_capture example_lib (example_capture_env example_codec0) example_daemon_codec Map.empty [''7'', ''11'', ''1000'', ''!bin!app'']
       [Data ''ab''] (example_world\<lparr>wo_fs := s'\<rparr>) = (r, w') \<and> wo_objects w' = Map.empty"
proof -
  obtain g s' where g: "daemon_start example_daemon_codec no_faults example_daemon_args [] example_node = (Inr g, s')"
    using example_daemon_start by blast
  obtain r w' where w: "main_capture example_lib (example_capture_env example_codec0) example_daemon_codec Map.empty
      [''7'', ''11'', ''1000'', ''!bin!app''] [Data ''ab''] (example_world\<lparr>wo_fs := s'\<rparr>) = (r, w')" by fastforce
  have "health_check example_lib example_daemon_codec (en_io (example_capture_env example_codec0)) (da_handler_path example_daemon_args)
      (da_config_path example_daemon_args) (da_core_pattern_path example_daemon_args) s' = Inr () \<and>
    wo_objects w' = wo_objects (example_world\<lparr>wo_fs := s'\<rparr>)"
    by (rule relocated_config_unread [OF g example_paths_apart example_daemon_valid example_daemon_codec_inverse _ _ _ _ _ _ w])
      (simp_all add: DEFAULT_CONFIG_PATH_def example_node_def)
  with g w show ?thesis by auto
qed

end
