(* ===== verification/Cgroup_Tests.thy ===== *)
theory Cgroup_Tests
  imports Cgroup
begin

text \<open>
  The unit tests of \<open>src/cgroup.rs\<close>, translated: each test is a predicate with the assertions of
  the source, and the lemma after it shows that the model passes it.
\<close>

definition test_CID :: string where
  "test_CID = ''3b9c2d1e4f5a6b7c8d9e0f1a2b3c4d5e6f7a8b9c0d1e2f3a4b5c6d7e8f9a0b1c''"

definition test_POD :: string where
  "test_POD = ''poded1e9c81-9a92-4f7e-be2c-8b26b56d3b98''"

definition parses_cgroupfs_v2 :: bool where
  "parses_cgroupfs_v2 \<longleftrightarrow>
     parse_cgroup (''0::/kubepods/burstable/poded1e9c81-9a92-4f7e-be2c-8b26b56d3b98/'' @ test_CID @ [newline]) =
       Some \<lparr>cg_pod_uid = ''ed1e9c81-9a92-4f7e-be2c-8b26b56d3b98'', cg_container_id = test_CID\<rparr>"

definition parses_systemd_v2_with_underscored_uid_and_runtime_prefix :: bool where
  "parses_systemd_v2_with_underscored_uid_and_runtime_prefix \<longleftrightarrow>
     parse_cgroup (''0::/kubepods.slice/kubepods-burstable.slice/'' @
         ''kubepods-burstable-poded1e9c81_9a92_4f7e_be2c_8b26b56d3b98.slice/cri-containerd-'' @ test_CID @ ''.scope'' @ [newline]) =
       Some \<lparr>cg_pod_uid = ''ed1e9c81-9a92-4f7e-be2c-8b26b56d3b98'', cg_container_id = test_CID\<rparr>"

definition parses_cgroup_v1_multiline :: bool where
  "parses_cgroup_v1_multiline \<longleftrightarrow>
     parse_cgroup (''12:pids:/kubepods/besteffort/podaaaa1111-bbbb/abcdef0123456789abcdef'' @ [newline] @
         ''11:memory:/kubepods/besteffort/podaaaa1111-bbbb/abcdef0123456789abcdef'' @ [newline] @
         ''10:cpu,cpuacct:/kubepods/besteffort/podaaaa1111-bbbb/abcdef0123456789abcdef'' @ [newline]) =
       Some \<lparr>cg_pod_uid = ''aaaa1111-bbbb'', cg_container_id = ''abcdef0123456789abcdef''\<rparr>"

definition parses_docker_and_crio_container_id_prefixes :: bool where
  "parses_docker_and_crio_container_id_prefixes \<longleftrightarrow>
     list_all (\<lambda>prefix. parse_cgroup_path (''/kubepods.slice/kubepods-besteffort-podaaaa1111_bbbb.slice/'' @ prefix @
         ''abcdef0123456789abcdef.scope'') =
       Some \<lparr>cg_pod_uid = ''aaaa1111-bbbb'', cg_container_id = ''abcdef0123456789abcdef''\<rparr>) [''docker-'', ''crio-'']"

definition non_kubernetes_cgroup_is_none :: bool where
  "non_kubernetes_cgroup_is_none \<longleftrightarrow>
     parse_cgroup (''0::/system.slice/sshd.service'' @ [newline]) = None \<and> parse_cgroup (''0::/kubepods.slice'' @ [newline]) = None"

definition nested_cgroup_below_the_container_keeps_the_container_id :: bool where
  "nested_cgroup_below_the_container_keeps_the_container_id \<longleftrightarrow>
     map_option cg_container_id (parse_cgroup_path (''/kubepods/burstable/'' @ test_POD @ ''/'' @ test_CID @ ''/init.scope'')) = Some test_CID"

definition a_hex_segment_made_below_the_container_is_ignored :: bool where
  "a_hex_segment_made_below_the_container_is_ignored \<longleftrightarrow>
     map_option cg_container_id (parse_cgroup_path (''/kubepods/burstable/'' @ test_POD @ ''/'' @ test_CID @ ''/x/'' @
       replicate 64 (CHR ''f''))) = Some test_CID"

definition pod_cgroup_without_a_container_below_it_is_none :: bool where
  "pod_cgroup_without_a_container_below_it_is_none \<longleftrightarrow>
     parse_cgroup_path (''/kubepods/burstable/'' @ test_POD) = None \<and>
     parse_cgroup_path (''/kubepods/burstable/'' @ test_POD @ ''/init.scope'') = None"

definition non_hex_pod_uid_is_rejected :: bool where
  "non_hex_pod_uid_is_rejected \<longleftrightarrow>
     list_all (\<lambda>pod. parse_cgroup_path (''/kubepods/burstable/'' @ pod @ ''/'' @ test_CID) = None)
       [''podEVIL'', ''pod..'', ''pod'', ''podzz11-22'']"

definition is_pod_uid_accepts_uuids_only_in_lowercase_hex :: bool where
  "is_pod_uid_accepts_uuids_only_in_lowercase_hex \<longleftrightarrow>
     is_pod_uid ''ed1e9c81-9a92-4f7e-be2c-8b26b56d3b98'' \<and> \<not> is_pod_uid ''ED1E9C81-9A92'' \<and> \<not> is_pod_uid [] \<and>
     \<not> is_pod_uid (replicate (MAX_POD_UID_LEN + 1) (CHR ''a''))"

lemma cgroup_layout_tests:
  "parses_cgroupfs_v2" "parses_systemd_v2_with_underscored_uid_and_runtime_prefix" "parses_cgroup_v1_multiline"
  "parses_docker_and_crio_container_id_prefixes"
  by code_simp+

lemma cgroup_boundary_tests:
  "non_kubernetes_cgroup_is_none" "nested_cgroup_below_the_container_keeps_the_container_id"
  "a_hex_segment_made_below_the_container_is_ignored" "pod_cgroup_without_a_container_below_it_is_none"
  "non_hex_pod_uid_is_rejected" "is_pod_uid_accepts_uuids_only_in_lowercase_hex"
  by code_simp+

end
