(* ===== verification/Rate_Limit_Tests.thy ===== *)
theory Rate_Limit_Tests
  imports Rate_Limit_File
begin

text \<open>
  The unit tests of \<open>src/ratelimit.rs\<close>, translated; the model passes them with every lossless codec
  of the state. A test that only asks for decisions is a list of calls and the decisions they must
  give; the test of concurrent handlers is about every interleaving of its threads.
\<close>

section \<open>The tests\<close>

definition tmp_state :: fs where
  "tmp_state = [''/'' \<mapsto> Dir mode_755, ''/t'' \<mapsto> Dir mode_700]"

definition tmp_limiter :: "u32 \<Rightarrow> rate_limiter" where
  "tmp_limiter m = \<lparr>rl_state_path = ''/t/recent.json'', rl_max_per_hour = m\<rparr>"

definition decides :: "rate_codec \<Rightarrow> u32 \<Rightarrow> fs \<Rightarrow> rate_job list \<Rightarrow> rate_decision option list \<Rightarrow> bool" where
  "decides codec m s jobs ds \<longleftrightarrow> fst (file_jobs codec no_faults (tmp_limiter m) jobs s) = ds"

definition allows_up_to_max_then_suppresses :: "rate_codec \<Rightarrow> bool" where
  "allows_up_to_max_then_suppresses codec \<longleftrightarrow>
     decides codec 3 tmp_state [Check ''pod-a'' 1000, Check ''pod-a'' 1000, Check ''pod-a'' 1000, Check ''pod-a'' 1001]
       [Some Allowed, Some Allowed, Some Allowed, Some (Suppressed 3)]"

definition check_and_record_creates_0700_dir_and_0600_state_file :: "rate_codec \<Rightarrow> bool" where
  "check_and_record_creates_0700_dir_and_0600_state_file codec \<longleftrightarrow>
     (let (d, s) = check_and_record codec no_faults \<lparr>rl_state_path = ''/t/run/recent.json'', rl_max_per_hour = 3\<rparr> ''pod-perm'' 1000 tmp_state
      in d = Allowed \<and> (\<exists>c. s ''/t/run/recent.json'' = Some (File c mode_600)) \<and> s ''/t/run'' = Some (Dir mode_700))"

definition check_and_record_tightens_an_existing_loose_state_file :: "rate_codec \<Rightarrow> bool" where
  "check_and_record_tightens_an_existing_loose_state_file codec \<longleftrightarrow>
     (let (d, s) = check_and_record codec no_faults \<lparr>rl_state_path = ''/t/run/recent.json'', rl_max_per_hour = 3\<rparr> ''pod-perm'' 1000
            (tmp_state(''/t/run'' \<mapsto> Dir mode_755, ''/t/run/recent.json'' \<mapsto> File ''{}'' mode_644))
      in d = Allowed \<and> (\<exists>c. s ''/t/run/recent.json'' = Some (File c mode_600)) \<and> s ''/t/run'' = Some (Dir mode_700))"

definition window_pruning_restores_budget :: "rate_codec \<Rightarrow> bool" where
  "window_pruning_restores_budget codec \<longleftrightarrow>
     decides codec 1 tmp_state [Check ''pod-a'' 1000, Check ''pod-a'' 1001, Check ''pod-a'' (1000 + RATE_WINDOW_SECS + 1)]
       [Some Allowed, Some (Suppressed 1), Some Allowed]"

definition zero_means_unlimited :: "rate_codec \<Rightarrow> bool" where
  "zero_means_unlimited codec \<longleftrightarrow>
     file_jobs codec no_faults \<lparr>rl_state_path = ''/nonexistent/never-touched.json'', rl_max_per_hour = 0\<rparr>
         (map (Check ''pod-a'') [0..99] @ [Refund ''pod-a'' 0]) Map.empty =
       (replicate 100 (Some Allowed) @ [None], Map.empty)"

definition pods_are_isolated :: "rate_codec \<Rightarrow> bool" where
  "pods_are_isolated codec \<longleftrightarrow>
     decides codec 1 tmp_state [Check ''pod-a'' 1000, Check ''pod-b'' 1000, Check ''pod-a'' 1001]
       [Some Allowed, Some Allowed, Some (Suppressed 1)]"

text \<open>Below \<open>/proc\<close> no directory can be made.\<close>

definition proc_io :: io_env where
  "proc_io = \<lparr>io_fails = (\<lambda>op p. op = OpMkdir), io_partial = (\<lambda>_. 0)\<rparr>"

definition fails_open_when_state_dir_is_unwritable :: "rate_codec \<Rightarrow> bool" where
  "fails_open_when_state_dir_is_unwritable codec \<longleftrightarrow>
     fst (file_jobs codec proc_io \<lparr>rl_state_path = ''/proc/definitely/not/writable/state.json'', rl_max_per_hour = 1\<rparr>
       [Check ''pod-a'' 1000, Check ''pod-a'' 1001] [''/'' \<mapsto> Dir mode_755, ''/proc'' \<mapsto> Dir mode_755]) =
       [Some Allowed, Some Allowed]"

definition corrupt_state_self_heals :: "rate_codec \<Rightarrow> bool" where
  "corrupt_state_self_heals codec \<longleftrightarrow>
     decides codec 1 (tmp_state(''/t/recent.json'' \<mapsto> File ''{not json!'' mode_644)) [Check ''pod-a'' 1000, Check ''pod-a'' 1001]
       [Some Allowed, Some (Suppressed 1)]"

definition refund_restores_a_consumed_slot :: "rate_codec \<Rightarrow> bool" where
  "refund_restores_a_consumed_slot codec \<longleftrightarrow>
     decides codec 1 tmp_state [Check ''pod-a'' 1000, Check ''pod-a'' 1001, Refund ''pod-a'' 1000, Check ''pod-a'' 1002]
       [Some Allowed, Some (Suppressed 1), None, Some Allowed]"

definition refund_without_matching_record_is_harmless :: "rate_codec \<Rightarrow> bool" where
  "refund_without_matching_record_is_harmless codec \<longleftrightarrow>
     decides codec 1 tmp_state [Refund ''pod-never-seen'' 1000, Check ''pod-a'' 1000, Refund ''pod-a'' 999, Check ''pod-a'' 1001]
       [None, Some Allowed, None, Some (Suppressed 1)]"

section \<open>The model passes them\<close>

lemma tmp_paths:
  "path_parent ''/t/recent.json'' = Some ''/t''" "path_ancestors ''/t'' = [''/'', ''/t'']"
  "path_parent ''/t/run/recent.json'' = Some ''/t/run''" "path_ancestors ''/t/run'' = [''/'', ''/t'', ''/t/run'']"
  "path_parent ''/proc/definitely/not/writable/state.json'' = Some ''/proc/definitely/not/writable''"
  "path_ancestors ''/proc/definitely/not/writable'' =
    [''/'', ''/proc'', ''/proc/definitely'', ''/proc/definitely/not'', ''/proc/definitely/not/writable'']"
  by code_simp+

text \<open>A test of decisions is evaluated on the abstract limiter.\<close>

lemma decides_eval:
  assumes "lossless codec" "s = tmp_state \<or> s = tmp_state(''/t/recent.json'' \<mapsto> File b mode_644)" "rc_parse codec b = None"
    and "fst (run_steps (job_update m) jobs rate_default) = ds"
  shows "decides codec m s jobs ds"
proof -
  have fl: "follow s ''/t/recent.json'' = Some ''/t/recent.json''" using assms(2) by (auto simp: follow_plain tmp_state_def)
  have "rate_home (tmp_limiter m) s"
    using assms(2) by (auto simp: rate_home_def tmp_limiter_def tmp_paths tmp_state_def is_dir_def node_at_plain)
  then have h: "healthy_limiter codec no_faults (tmp_limiter m) s" using assms(1) by (simp add: healthy_limiter_def)
  have a: "rate_abs codec (tmp_limiter m) s = rate_default"
    using fl assms(1-3) by (auto simp: rate_abs_def tmp_limiter_def file_content_def tmp_state_def lossless_def)
  from limiter_file.series [OF h, of jobs] a assms(4) show ?thesis
    by (simp add: decides_def tmp_limiter_def list_all_iff)
qed

lemma limiter_decision_tests:
  assumes "lossless codec"
  shows "allows_up_to_max_then_suppresses codec" "window_pruning_restores_budget codec" "pods_are_isolated codec"
    "refund_restores_a_consumed_slot codec" "refund_without_matching_record_is_harmless codec"
    "rc_parse codec ''{not json!'' = None \<Longrightarrow> corrupt_state_self_heals codec"
proof -
  have e: "rc_parse codec [] = None" using assms by (simp add: lossless_def)
  note eval = decides_eval [OF assms _ e]
  show "allows_up_to_max_then_suppresses codec" unfolding allows_up_to_max_then_suppresses_def by (rule eval) (simp, code_simp)
  show "window_pruning_restores_budget codec" unfolding window_pruning_restores_budget_def by (rule eval) (simp, code_simp)
  show "pods_are_isolated codec" unfolding pods_are_isolated_def by (rule eval) (simp, code_simp)
  show "refund_restores_a_consumed_slot codec" unfolding refund_restores_a_consumed_slot_def by (rule eval) (simp, code_simp)
  show "refund_without_matching_record_is_harmless codec"
    unfolding refund_without_matching_record_is_harmless_def by (rule eval) (simp, code_simp)
  show "corrupt_state_self_heals codec" if "rc_parse codec ''{not json!'' = None"
    unfolding corrupt_state_self_heals_def by (rule decides_eval [OF assms _ that]) (simp_all, code_simp)
qed

lemma file_jobs_unlimited:
  "rl_max_per_hour rl = 0 \<Longrightarrow> file_jobs codec io rl (map (Check k) ts) s = (replicate (length ts) (Some Allowed), s)"
  by (induction ts) (simp_all add: file_job_def check_and_record_def)

lemma limiter_file_tests:
  assumes "lossless codec"
  shows "check_and_record_creates_0700_dir_and_0600_state_file codec"
    "rc_parse codec ''{}'' = None \<Longrightarrow> check_and_record_tightens_an_existing_loose_state_file codec"
    "fails_open_when_state_dir_is_unwritable codec"
proof -
  have d: "fst (check_update 3 ''pod-perm'' 1000 rate_default) = Allowed"
    by (simp add: check_update_decision used_def rate_default_def)
  have "finite (dom (rs_events (snd (check_update 3 ''pod-perm'' 1000 rate_default))))"
    using finite_job_update [of rate_default 3 "Check ''pod-perm'' 1000"] by (simp add: rate_default_def job_update_def case_prod_beta Let_def)
  with assms obtain json where j: "rc_print codec (snd (check_update 3 ''pod-perm'' 1000 rate_default)) = Some json"
    by (auto simp: lossless_def)
  obtain st where u: "check_update 3 ''pod-perm'' 1000 rate_default = (Allowed, st)" "rc_print codec st = Some json"
    using d j by (metis prod.collapse)
  have e: "rc_parse codec [] = None" using assms by (simp add: lossless_def)
  show "check_and_record_creates_0700_dir_and_0600_state_file codec"
    using u e
    by (simp add: check_and_record_creates_0700_dir_and_0600_state_file_def check_and_record_def locked_check_and_record_def
        with_locked_state_def tmp_paths tmp_state_def fs_call_defs ensure_private_dir_def create_dir_all_def is_dir_def node_at_plain
        follow_plain parent_is_dir_def file_content_def set_content_def Let_def)
  show "check_and_record_tightens_an_existing_loose_state_file codec" if "rc_parse codec ''{}'' = None"
    using u that
    by (simp add: check_and_record_tightens_an_existing_loose_state_file_def check_and_record_def locked_check_and_record_def
        with_locked_state_def tmp_paths tmp_state_def fs_call_defs ensure_private_dir_def create_dir_all_def is_dir_def node_at_plain
        follow_plain parent_is_dir_def file_content_def set_content_def Let_def)
  show "fails_open_when_state_dir_is_unwritable codec"
    by (simp add: fails_open_when_state_dir_is_unwritable_def file_job_def check_and_record_def locked_check_and_record_def
        with_locked_state_def tmp_paths ensure_private_dir_def create_dir_all_def is_dir_def node_at_plain proc_io_def)
qed

lemma limiter_unlimited_test: "zero_means_unlimited codec"
  by (simp add: zero_means_unlimited_def run_steps_append file_jobs_unlimited file_job_def refund_def)

text \<open>Sixteen threads whose calls succeed; the test must pass however they are scheduled.\<close>

definition concurrent_handlers_admit_exactly_max :: "rate_codec \<Rightarrow> bool" where
  "concurrent_handlers_admit_exactly_max codec \<longleftrightarrow>
     (\<forall>s. storm_reach codec 3 (\<lambda>_. Check ''pod-storm'' 1000) (\<lambda>_. no_faults) ''/t/recent.json'' 16 [] s \<and>
        (\<forall>h<16. \<exists>d. st_pc s h = Finished (Inr d)) \<longrightarrow>
        card {h. h < 16 \<and> st_pc s h = Finished (Inr (Some Allowed))} = 3)"

lemma limiter_concurrent_test:
  assumes "lossless codec"
  shows "concurrent_handlers_admit_exactly_max codec"
  unfolding concurrent_handlers_admit_exactly_max_def
proof (intro allI impI, elim conjE)
  fix s
  assume s: "storm_reach codec 3 (\<lambda>_. Check ''pod-storm'' 1000) (\<lambda>_. no_faults) ''/t/recent.json'' 16 [] s"
    "\<forall>h<16. \<exists>d. st_pc s h = Finished (Inr d)"
  have rt: "rc_print codec st = Some json \<Longrightarrow> rc_parse codec json = Some st" for st json
    using assms by (simp add: lossless_def)
  have "rate_time_ok 1000" by code_simp
  moreover have "used (parse_or_default codec []) ''pod-storm'' = []"
    using assms by (simp add: parse_or_default_def lossless_def used_def rate_default_def)
  ultimately show "card {h. h < 16 \<and> st_pc s h = Finished (Inr (Some Allowed))} = 3"
    using storm_spends_budget [OF rt s(1), of "''pod-storm''" 1000] s(2) by simp
qed

end
