(* ===== verification/Build_Id_Tests.thy ===== *)
theory Build_Id_Tests
  imports Build_Id
begin

text \<open>
  The unit tests of \<open>src/buildid.rs\<close>, translated, and the proofs that the model passes them, in
  builds with and without overflow checks. The images are the ones of \<open>synthetic_elf\<close>.
\<close>

definition synthetic_elf_with_build_id :: "bytes \<Rightarrow> bytes" where
  "synthetic_elf_with_build_id desc = synthetic_elf Elf64 desc"

definition extracts_build_id_from_64_and_32_bit_elfs :: "bool \<Rightarrow> bool" where
  "extracts_build_id_from_64_and_32_bit_elfs chk \<longleftrightarrow>
     list_all (\<lambda>class. build_id_from_bytes chk (synthetic_elf class [CHR 0xDE, CHR 0xAD, CHR 0xBE, CHR 0xEF, CHR 0x01, CHR 0x23]) =
       Some (Got ''deadbeef0123'')) [Elf64, Elf32]"

definition returns_none_for_non_elf_input :: "bool \<Rightarrow> bool" where
  "returns_none_for_non_elf_input chk \<longleftrightarrow>
     build_id_from_bytes chk ''not an elf at all, really'' = Some Nothing \<and> build_id_from_bytes chk [] = Some Nothing"

definition returns_none_when_no_build_id_note_present :: "bool \<Rightarrow> bool" where
  "returns_none_when_no_build_id_note_present chk \<longleftrightarrow>
     build_id_from_bytes chk (take (64 + 56) (synthetic_elf_with_build_id [CHR 0x01, CHR 0x02, CHR 0x03, CHR 0x04])) = Some Nothing"

definition returns_none_for_an_unknown_elf_class_or_endianness :: "bool \<Rightarrow> bool" where
  "returns_none_for_an_unknown_elf_class_or_endianness chk \<longleftrightarrow>
     (let elf = synthetic_elf_with_build_id [CHR 0x01, CHR 0x02, CHR 0x03, CHR 0x04]
      in build_id_from_bytes chk (elf[4 := CHR 0x03]) = Some Nothing \<and> build_id_from_bytes chk (elf[5 := CHR 0x09]) = Some Nothing)"

text \<open>An image of an unknown class or byte order has no build-id, whatever else it holds.\<close>

lemma build_id_unknown_class:
  assumes "64 \<le> length elf" "byte_val (elf ! 4) \<notin> {1, 2} \<or> byte_val (elf ! 5) \<notin> {1, 2}"
  shows "build_id_from_bytes chk elf = Some Nothing"
  using assms by (auto simp: build_id_from_bytes_def slice_index_def slice_get_def elf_class_def byte_index_def)

text \<open>An image cut off before its only note segment has none either.\<close>

lemma bytes_at_take: "i + n \<le> k \<Longrightarrow> bytes_at (take k xs) i n = bytes_at xs i n"
  by (simp add: bytes_at_def drop_take min_def)

lemma build_id_truncated:
  assumes "length desc < 2 ^ 32"
  shows "build_id_from_bytes chk (take 120 (synthetic_elf Elf64 desc)) = Some Nothing"
proof -
  let ?s = "synthetic_elf Elf64 desc" and ?n = "build_id_note desc"
  let ?elf = "take 120 ?s"
  note f = synthetic_elf64_fields [of desc]
  have n: "length ?n < 2 ^ 33" "4 \<le> length ?n"
    using build_id_note_parts [OF assms] assms pad4_le [of "length desc"] by auto
  have l: "length ?elf = 120" using f(1) by simp
  have g: "bytes_at ?elf 0 4 = elf_magic" "bytes_at ?elf 4 1 = [CHR 0x02]" "bytes_at ?elf 5 1 = [CHR 0x01]"
    "bytes_at ?elf 32 8 = le_bytes 8 64" "bytes_at ?elf 54 2 = le_bytes 2 56" "bytes_at ?elf 56 2 = le_bytes 2 1"
    "bytes_at ?elf 64 4 = le_bytes 4 4" "bytes_at ?elf 72 8 = le_bytes 8 120" "bytes_at ?elf 96 8 = le_bytes 8 (length ?n)"
    using f by (simp_all add: bytes_at_take)
  have c: "elf_class ?elf = Got (True, True)"
    using l g(2,3) hd_bytes_at [of 4 ?elf] hd_bytes_at [of 5 ?elf] by (simp add: elf_class_def byte_index_def)
  have t: "ph_table chk ?elf True True = Got (64, 56, 1)"
    using g l by (simp add: ph_table_def pbind_Got reads_Got)
  have w: "unat (of_nat (length ?n) :: usize) = length ?n" using n by (simp add: unat_of_nat)
  have "slice_get ?elf 120 (120 + of_nat (length ?n)) = None"
    using slice_get_add [of "of_nat (length ?n)" ?elf 120] w n l by (cases "?n = []") (simp_all add: unat_of_nat)
  moreover have "read_u32 chk ?elf 64 True = Got 4" "read_u64 chk ?elf 72 True = Got 120" "read_u64 chk ?elf 96 True = Got (of_nat (length ?n))"
    using g l n by (simp_all add: reads_Got)
  ultimately have p: "ph_notes chk ?elf True True 64 56 0 = Nothing"
    using n w by (simp add: ph_notes_def checked_mul_def checked_add_def PT_NOTE_def usize_add_def)
  have "slice_index ?elf 0 4 = Got elf_magic"
    using l g(1) by (simp add: slice_index_def slice_get_def bytes_at_def)
  then show ?thesis using l c t p by (simp add: build_id_from_bytes_def)
qed

lemma build_id_tests:
  "extracts_build_id_from_64_and_32_bit_elfs chk" "returns_none_for_non_elf_input chk"
  "returns_none_when_no_build_id_note_present chk" "returns_none_for_an_unknown_elf_class_or_endianness chk"
proof -
  have "hex [CHR 0xDE, CHR 0xAD, CHR 0xBE, CHR 0xEF, CHR 0x01, CHR 0x23] = ''deadbeef0123''" by code_simp
  then show "extracts_build_id_from_64_and_32_bit_elfs chk"
    by (simp add: extracts_build_id_from_64_and_32_bit_elfs_def build_id_synthetic64 build_id_synthetic32)
  show "returns_none_for_non_elf_input chk"
    by (simp add: returns_none_for_non_elf_input_def build_id_from_bytes_def)
  show "returns_none_when_no_build_id_note_present chk"
    by (simp add: returns_none_when_no_build_id_note_present_def synthetic_elf_with_build_id_def build_id_truncated)
  show "returns_none_for_an_unknown_elf_class_or_endianness chk"
    using synthetic_elf64_fields(1) [of "[CHR 0x01, CHR 0x02, CHR 0x03, CHR 0x04]"]
    by (simp add: returns_none_for_an_unknown_elf_class_or_endianness_def synthetic_elf_with_build_id_def build_id_unknown_class)
qed

end
