(* ===== verification/Backend_Tests.thy ===== *)
theory Backend_Tests
  imports Backend
begin

text \<open>
  The readers of the crate's \<open>testutil\<close> module (\<open>src/lib.rs\<close>) as scripts of the core pipe, and the
  unit tests of \<open>src/backend.rs\<close>, which the model passes.
\<close>

section \<open>Test readers\<close>

text \<open>
  \<open>FlakyReader\<close> gives its chunk once, as much of it as the caller's buffer of \<open>n\<close> bytes holds, and
  fails the next read; \<open>StallReader\<close> is never ready.
\<close>

definition flaky_reader :: "nat \<Rightarrow> bytes \<Rightarrow> pipe" where
  "flaky_reader n chunk = [Data (take n chunk), ReadErr]"

definition stall_reader :: pipe where "stall_reader = [Stall]"

section \<open>Tests of \<open>DiscardBackend\<close>\<close>

definition discard_counts_every_byte :: bool where
  "discard_counts_every_byte \<longleftrightarrow>
     discard_drain False [Data (replicate 200000 (CHR 0xAB))] =
       Some (Inr \<lparr>cs_bytes = 200000, cs_stored_bytes = 0, cs_sha256 = None, cs_truncated = False, cs_truncated_reason = None\<rparr>)"

definition discard_handles_an_empty_core :: bool where
  "discard_handles_an_empty_core \<longleftrightarrow>
     discard_drain False [] =
       Some (Inr \<lparr>cs_bytes = 0, cs_stored_bytes = 0, cs_sha256 = None, cs_truncated = False, cs_truncated_reason = None\<rparr>)"

definition discard_marks_truncated_on_a_read_error :: bool where
  "discard_marks_truncated_on_a_read_error \<longleftrightarrow>
     discard_drain False (flaky_reader DISCARD_CHUNK (replicate 50000 (CHR 0x5A))) =
       Some (Inr \<lparr>cs_bytes = 50000, cs_stored_bytes = 0, cs_sha256 = None, cs_truncated = True,
                  cs_truncated_reason = Some ''stream_error''\<rparr>)"

definition discard_errors_when_the_deadline_elapses :: bool where
  "discard_errors_when_the_deadline_elapses \<longleftrightarrow> (\<exists>e. discard_drain True stall_reader = Some (Inl e))"

lemma discard_tests:
  "discard_counts_every_byte" "discard_handles_an_empty_core" "discard_marks_truncated_on_a_read_error"
  "discard_errors_when_the_deadline_elapses"
  by (simp_all add: discard_counts_every_byte_def discard_handles_an_empty_core_def discard_marks_truncated_on_a_read_error_def
      discard_errors_when_the_deadline_elapses_def discard_drain_def discard_loop_stream flaky_reader_def stall_reader_def DISCARD_CHUNK_def)

end
