(* ===== verification/Upload_Tests.thy ===== *)
theory Upload_Tests
  imports Upload Backend_Tests
begin

text \<open>
  The unit tests of \<open>src/upload.rs\<close>, translated. The in-memory store of the tests takes every write
  (\<open>accepting\<close>) and every PUT; zstd and SHA-256 are any that do what is documented of them.
\<close>

section \<open>Tests of keys and options\<close>

definition split_once_str :: "string \<Rightarrow> string \<Rightarrow> (string \<times> string) option" where
  "split_once_str sep s = map_option (\<lambda>n. (take n s, drop (n + length sep) s)) (find_sub sep s)"

text \<open>The list of the chart's template \<open>_helpers.tpl\<close>.\<close>

definition HELPERS :: string where
  "HELPERS = str_join [newline]
     [''{{- define '' @ [CHR 0x22] @ ''coredrop.allowedStoreOpts'' @ [CHR 0x22] @ '' -}}'',
      ''AWS_ACCESS_KEY_ID'', ''AWS_SECRET_ACCESS_KEY'', ''AWS_SESSION_TOKEN'', ''AWS_REGION'', ''AWS_DEFAULT_REGION'',
      ''AWS_ENDPOINT'', ''AWS_ALLOW_HTTP'', ''AWS_VIRTUAL_HOSTED_STYLE_REQUEST'', ''AWS_ROLE_ARN'',
      ''AWS_WEB_IDENTITY_TOKEN_FILE'', ''GOOGLE_SERVICE_ACCOUNT'', ''GOOGLE_SERVICE_ACCOUNT_KEY'',
      ''AZURE_STORAGE_ACCOUNT_NAME'', ''AZURE_STORAGE_ACCESS_KEY'', ''AZURE_STORAGE_CLIENT_ID'',
      ''AZURE_STORAGE_CLIENT_SECRET'', ''AZURE_STORAGE_TENANT_ID'', ''AZURE_CLIENT_ID'', ''AZURE_TENANT_ID'',
      ''AZURE_FEDERATED_TOKEN_FILE'', ''AZURE_AUTHORITY_HOST'', ''{{- end -}}'']"

definition helpers_store_opts_match_allowlist :: bool where
  "helpers_store_opts_match_allowlist \<longleftrightarrow>
     (case split_once_str (''{{- define '' @ [CHR 0x22] @ ''coredrop.allowedStoreOpts'' @ [CHR 0x22] @ '' -}}'') HELPERS of
        None \<Rightarrow> False
      | Some (_, rest) \<Rightarrow>
          (case split_once_str ''{{- end -}}'' rest of
             None \<Rightarrow> False
           | Some (block, _) \<Rightarrow> set (filter (\<lambda>l. l \<noteq> []) (map trim (str_lines block))) = set ALLOWED_STORE_OPTS))"

definition builds_object_keys :: bool where
  "builds_object_keys \<longleftrightarrow>
     key_core (object_keys_new ''prod'' ''pod-uid-123'' ''abc123def'' 1749600000 4242) = ''prod/pod-uid-123/abc123def/1749600000-4242-core.zst'' \<and>
     key_proc_snapshot (object_keys_new ''prod'' ''pod-uid-123'' ''abc123def'' 1749600000 4242) =
       ''prod/pod-uid-123/abc123def/1749600000-4242-procsnapshot.tar'' \<and>
     key_manifest (object_keys_new ''prod'' ''pod-uid-123'' ''abc123def'' 1749600000 4242) =
       ''prod/pod-uid-123/abc123def/1749600000-4242-manifest.json''"

definition distinct_pids_yield_distinct_keys_within_the_same_second :: bool where
  "distinct_pids_yield_distinct_keys_within_the_same_second \<longleftrightarrow>
     key_core (object_keys_new ''prod'' ''pod-uid-123'' ''abc123def'' 1749600000 111) \<noteq>
     key_core (object_keys_new ''prod'' ''pod-uid-123'' ''abc123def'' 1749600000 222)"

definition wi_keys :: "string list" where
  "wi_keys = [''AWS_ROLE_ARN'', ''AWS_WEB_IDENTITY_TOKEN_FILE'', ''AWS_DEFAULT_REGION'', ''AZURE_CLIENT_ID'', ''AZURE_TENANT_ID'',
     ''AZURE_FEDERATED_TOKEN_FILE'', ''AZURE_AUTHORITY_HOST'']"

text \<open>The test sets variables of the process's environment, whatever else is in it.\<close>

definition store_options_from_env_forwards_workload_identity_keys :: "(string \<times> string) list \<Rightarrow> bool" where
  "store_options_from_env_forwards_workload_identity_keys others \<longleftrightarrow>
     (let opts = map_of (rev (store_options_from_env (others @ map (\<lambda>key. (key, ''test-value'')) wi_keys @ [(''NOT_AN_ALLOWED_KEY'', ''leak-me-not'')])))
      in list_all (\<lambda>key. opts key = Some ''test-value'') wi_keys \<and> opts ''NOT_AN_ALLOWED_KEY'' = None)"

definition plaintext_endpoint_detection :: bool where
  "plaintext_endpoint_detection \<longleftrightarrow>
     is_plaintext_endpoint [(''AWS_ENDPOINT'', ''http://minio:9000'')] \<and> is_plaintext_endpoint [(''AWS_ALLOW_HTTP'', ''true'')] \<and>
     \<not> is_plaintext_endpoint [(''AWS_ENDPOINT'', ''https://s3.example.com'')] \<and> \<not> is_plaintext_endpoint [(''AWS_ALLOW_HTTP'', ''false'')] \<and>
     \<not> is_plaintext_endpoint []"

definition object_store_from_url_opts_dispatches_by_scheme :: "('u, 'k, 's) store_lib \<Rightarrow> bool" where
  "object_store_from_url_opts_dispatches_by_scheme lib \<longleftrightarrow>
     object_store_from_url_opts lib ''s3://some-bucket'' [(''AWS_ACCESS_KEY_ID'', ''ak''), (''AWS_SECRET_ACCESS_KEY'', ''sk''),
       (''AWS_REGION'', ''us-east-1''), (''NOT_A_REAL_KEY'', ''ignored'')] \<noteq> None \<and>
     object_store_from_url_opts lib ''memory:///'' [] \<noteq> None \<and>
     object_store_from_url_opts lib ''not a url'' [] = None \<and> object_store_from_url_opts lib ''bogus://x'' [] = None"

lemma key_tests:
  "distinct_pids_yield_distinct_keys_within_the_same_second" "plaintext_endpoint_detection" "builds_object_keys"
proof -
  show "distinct_pids_yield_distinct_keys_within_the_same_second"
    by (simp add: distinct_pids_yield_distinct_keys_within_the_same_second_def key_core_def object_keys_new_def show_int_def
        show_nat.simps digit_char_def)
  show "plaintext_endpoint_detection" by code_simp
  show "builds_object_keys"
    by (simp add: builds_object_keys_def key_core_def key_proc_snapshot_def key_manifest_def object_keys_new_def show_int_def
        show_nat.simps digit_char_def) code_simp
qed

text \<open>The chart lists the options even in the same order.\<close>

lemma helpers_test: "helpers_store_opts_match_allowlist"
proof -
  let ?start = "''{{- define '' @ [CHR 0x22] @ ''coredrop.allowedStoreOpts'' @ [CHR 0x22] @ '' -}}''"
  have "Option.bind (split_once_str ?start HELPERS) (\<lambda>(_, rest). map_option (\<lambda>(block, _). filter (\<lambda>l. l \<noteq> []) (map trim (str_lines block)))
      (split_once_str ''{{- end -}}'' rest)) = Some ALLOWED_STORE_OPTS"
    by code_simp
  then obtain x rest block y where "split_once_str ?start HELPERS = Some (x, rest)" "split_once_str ''{{- end -}}'' rest = Some (block, y)"
    and opts: "filter (\<lambda>l. l \<noteq> []) (map trim (str_lines block)) = ALLOWED_STORE_OPTS"
    unfolding bind_eq_Some_conv map_option_eq_Some by (auto simp del: filter_map append.simps)
  then show ?thesis unfolding helpers_store_opts_match_allowlist_def by (simp only: option.case prod.case opts)
qed

lemma store_options_test: "store_options_from_env_forwards_workload_identity_keys others"
proof -
  have allowed: "list_all (\<lambda>k. k \<in> set ALLOWED_STORE_OPTS) wi_keys" "''NOT_AN_ALLOWED_KEY'' \<notin> set ALLOWED_STORE_OPTS" by code_simp+
  have "store_options_from_env (others @ map (\<lambda>key. (key, ''test-value'')) wi_keys @ [(''NOT_AN_ALLOWED_KEY'', ''leak-me-not'')]) =
      store_options_from_env others @ map (\<lambda>key. (key, ''test-value'')) wi_keys"
    using allowed by (auto simp: store_options_from_env_def list_all_iff)
  moreover have "map_of (rev (xs @ map (\<lambda>key. (key, ''test-value'')) ks)) k = Some ''test-value''" if "k \<in> set ks" for xs k and ks :: "string list"
  proof -
    have "rev (map (\<lambda>key. (key, ''test-value'')) ks) = map (\<lambda>key. (key, ''test-value'')) (rev ks)" by (simp add: rev_map)
    then have "map_of (rev (map (\<lambda>key. (key, ''test-value'')) ks)) k = Some ''test-value''"
      using that by (simp add: map_of_map_restrict)
    then show ?thesis by simp
  qed
  moreover have "map_of (rev (store_options_from_env xs)) ''NOT_AN_ALLOWED_KEY'' = None" for xs
    using allowed(2) by (auto simp: map_of_eq_None_iff store_options_from_env_def)
  ultimately show ?thesis
    unfolding store_options_from_env_forwards_workload_identity_keys_def Let_def list_all_iff by metis
qed

text \<open>What the crates do with the URLs of the test: the builder knows the key of each real option.\<close>

lemma store_url_test:
  assumes "sl_url_parse lib ''s3://some-bucket'' = Some u" "sl_scheme lib u = Some AmazonS3"
    and "\<And>ops. \<exists>st. sl_build lib AmazonS3 (sl_url_string lib u) retry_config ops = Some st"
    and "sl_url_parse lib ''memory:///'' = Some m" "sl_scheme lib m = Some MemoryScheme"
    and "sl_url_parse lib ''not a url'' = None" "sl_url_parse lib ''bogus://x'' = Some b" "sl_scheme lib b = None"
  shows "object_store_from_url_opts_dispatches_by_scheme lib"
  using assms by (simp add: object_store_from_url_opts_dispatches_by_scheme_def object_store_from_url_opts_def)

section \<open>Tests of uploads\<close>

definition put_object_round_trips_a_buffered_blob :: "(string \<Rightarrow> string) \<Rightarrow> bool" where
  "put_object_round_trips_a_buffered_blob path_of \<longleftrightarrow>
     (let key = key_proc_snapshot (object_keys_new ''local'' ''pod-a'' ''cid-b'' 7 4242); tar = ''a-small-tar-bundle'';
          (r, store) = put_object path_of (\<lambda>_. PutOk) Map.empty key tar
      in r = Some True \<and> store (path_of key) = Some tar)"

definition sha256_hex :: "'z upload_env \<Rightarrow> bytes \<Rightarrow> string" where
  "sha256_hex env bs = hex_lower (ue_sha256 env bs)"

definition round_trip_core :: bytes where
  "round_trip_core = map (\<lambda>i. char_of (i mod 7)) [0..<200000]"

definition streams_zstd_with_integrity_and_round_trips :: "'z upload_env \<Rightarrow> (bytes \<Rightarrow> bytes option) \<Rightarrow> (string \<Rightarrow> string) \<Rightarrow> bool" where
  "streams_zstd_with_integrity_and_round_trips env unzstd path_of \<longleftrightarrow>
     (let key = key_core (object_keys_new ''local'' ''pod-aaa'' ''cid-bbb'' 42 4242)
      in case standalone_drain env (standalone_new path_of key 0) False [Data round_trip_core] Map.empty of
           (Some (Inr stats), store) \<Rightarrow>
             (case store (path_of key) of
                None \<Rightarrow> False
              | Some stored \<Rightarrow>
                  \<not> cs_truncated stats \<and> cs_bytes stats = of_nat (length round_trip_core) \<and>
                  cs_stored_bytes stats = of_nat (length stored) \<and> cs_stored_bytes stats < cs_bytes stats \<and>
                  cs_sha256 stats = Some (sha256_hex env stored) \<and> unzstd stored = Some round_trip_core)
         | _ \<Rightarrow> False)"

text \<open>\<open>StallAfterOneChunk\<close> gives its chunk, as the buffers take it, and is then never ready.\<close>

definition stall_after_one_chunk :: "bytes \<Rightarrow> pipe" where
  "stall_after_one_chunk chunk = [Data chunk, Stall]"

definition incompressible :: bytes where
  "incompressible = map (\<lambda>i. char_of ((i * 2654435761 mod 2 ^ 32) div 2 ^ 24)) [0..<512000]"

definition drain_aborts_multipart_and_errors_on_deadline :: "'z upload_env \<Rightarrow> bool" where
  "drain_aborts_multipart_and_errors_on_deadline env \<longleftrightarrow>
     (case stream_core_through_zstd (ue_zstd env) (ue_sha256 env) (fresh_writer env) 0 True (ue_abort_returns env)
        (stall_after_one_chunk incompressible) of
        Some (Inl _, sink) \<Rightarrow> bw_object sink = None
      | _ \<Rightarrow> False)"

definition drain_errors_on_deadline_before_any_bytes_arrive :: "'z upload_env \<Rightarrow> (string \<Rightarrow> string) \<Rightarrow> bool" where
  "drain_errors_on_deadline_before_any_bytes_arrive env path_of \<longleftrightarrow>
     (let key = key_core (object_keys_new ''local'' ''pod-stall'' ''cid-stall'' 1 4242)
      in case standalone_drain env (standalone_new path_of key 0) True stall_reader Map.empty of
           (Some (Inl _), store) \<Rightarrow> store (path_of key) = None
         | _ \<Rightarrow> False)"

definition marks_truncated_on_a_short_read_but_finalizes_the_partial ::
  "'z upload_env \<Rightarrow> (bytes \<Rightarrow> bytes option) \<Rightarrow> (string \<Rightarrow> string) \<Rightarrow> bool" where
  "marks_truncated_on_a_short_read_but_finalizes_the_partial env unzstd path_of \<longleftrightarrow>
     (let chunk = replicate 50000 (CHR 0x5A); key = key_core (object_keys_new ''local'' ''pod-x'' ''cid-y'' 7 4242)
      in case standalone_drain env (standalone_new path_of key 0) False (flaky_reader CORE_READ_CHUNK chunk) Map.empty of
           (Some (Inr stats), store) \<Rightarrow>
             (case store (path_of key) of
                None \<Rightarrow> False
              | Some stored \<Rightarrow>
                  cs_truncated stats \<and> cs_truncated_reason stats = Some ''stream_error'' \<and>
                  cs_bytes stats = of_nat (length chunk) \<and> 0 < cs_stored_bytes stats \<and> unzstd stored = Some chunk)
         | _ \<Rightarrow> False)"

definition cap_core :: bytes where
  "cap_core = map (\<lambda>i. char_of (i mod 251)) [0..<50000]"

definition caps_stored_core_but_drains_and_counts_everything ::
  "'z upload_env \<Rightarrow> (bytes \<Rightarrow> bytes option) \<Rightarrow> (string \<Rightarrow> string) \<Rightarrow> bool" where
  "caps_stored_core_but_drains_and_counts_everything env unzstd path_of \<longleftrightarrow>
     (let key = key_core (object_keys_new ''local'' ''pod-cap'' ''cid-cap'' 9 4242)
      in case standalone_drain env (standalone_new path_of key 10000) False [Data cap_core] Map.empty of
           (Some (Inr stats), store) \<Rightarrow>
             (case store (path_of key) of
                None \<Rightarrow> False
              | Some stored \<Rightarrow>
                  cs_bytes stats = 50000 \<and> cs_truncated stats \<and> cs_truncated_reason stats = Some ''size_cap'' \<and>
                  unzstd stored = Some (take 10000 cap_core))
         | _ \<Rightarrow> False)"

lemma put_object_test: "put_object_round_trips_a_buffered_blob path_of"
  by (simp add: put_object_round_trips_a_buffered_blob_def put_object_def Let_def)

text \<open>A drain into a store that accepts, evaluated.\<close>

lemma drain_eval:
  assumes "accepting (fresh_writer env)" "zstd_ok (ue_zstd env) unzstd" "stream_of p = (s, e)" "e \<noteq> AtStall" "length s < 2 ^ 64"
  obtains cs where "concat cs = capped m s" "unzstd (z_stream (ue_zstd env) cs) = Some (capped m s)"
    "standalone_drain env (standalone_new path_of key m) deadline p store =
      (Some (Inr \<lparr>cs_bytes = of_nat (length s), cs_stored_bytes = of_nat (length (z_stream (ue_zstd env) cs)),
         cs_sha256 = Some (sha256_hex env (z_stream (ue_zstd env) cs)),
         cs_truncated = (e = AtError \<or> m \<noteq> 0 \<and> unat m < length s),
         cs_truncated_reason = (if e = AtError then Some ''stream_error'' else if m \<noteq> 0 \<and> unat m < length s then Some ''size_cap'' else None)\<rparr>),
       store(path_of key \<mapsto> z_stream (ue_zstd env) cs))"
proof -
  let ?sb = "standalone_new path_of key m"
  obtain st store' where d: "standalone_drain env ?sb deadline p store = (Some (Inr st), store')"
    by (rule accepting_drain [OF assms(1)]) (use assms(3,4) in auto)
  from assms(3,5) have len: "length (fst (stream_of p)) < 2 ^ 64" by simp
  from len d obtain cs obj where c: "concat cs = take (unat (core_cap (sb_max_core_bytes ?sb))) (fst (stream_of p))"
    "obj = z_stream (ue_zstd env) cs" "store' = store(sb_key ?sb \<mapsto> obj)"
    "st = standalone_stats (of_nat (length (fst (stream_of p))), of_nat (length obj), hex_lower (ue_sha256 env obj),
       expected_reason (core_cap (sb_max_core_bytes ?sb)) (fst (stream_of p)) (snd (stream_of p)))"
    by (rule standalone_drain_ok)
  have "concat cs = capped m s" using c(1) capped_take [of s m] assms(3,5) by (simp add: standalone_new_def)
  moreover from this assms(2) have "unzstd (z_stream (ue_zstd env) cs) = Some (capped m s)" by (simp add: zstd_ok_def)
  moreover have "standalone_drain env ?sb deadline p store =
      (Some (Inr \<lparr>cs_bytes = of_nat (length s), cs_stored_bytes = of_nat (length (z_stream (ue_zstd env) cs)),
         cs_sha256 = Some (sha256_hex env (z_stream (ue_zstd env) cs)),
         cs_truncated = (e = AtError \<or> m \<noteq> 0 \<and> unat m < length s),
         cs_truncated_reason = (if e = AtError then Some ''stream_error'' else if m \<noteq> 0 \<and> unat m < length s then Some ''size_cap'' else None)\<rparr>),
       store(path_of key \<mapsto> z_stream (ue_zstd env) cs))"
    using d c(2-4) assms(3,5)
    by (auto simp: standalone_new_def standalone_stats_def sha256_hex_def expected_reason_def unat_core_cap)
  ultimately show thesis by (rule that)
qed

text \<open>
  The tests of successful drains pass; that zstd makes the first core smaller and leaves something
  of the second is a fact of zstd.
\<close>

lemma drain_tests:
  assumes "accepting (fresh_writer env)" "zstd_ok (ue_zstd env) unzstd"
  shows "(\<And>cs. concat cs = round_trip_core \<Longrightarrow> length (z_stream (ue_zstd env) cs) < length round_trip_core) \<Longrightarrow>
      streams_zstd_with_integrity_and_round_trips env unzstd path_of"
    and "(\<And>cs. concat cs = replicate 50000 (CHR 0x5A) \<Longrightarrow> 0 < length (z_stream (ue_zstd env) cs) \<and> length (z_stream (ue_zstd env) cs) < 2 ^ 64) \<Longrightarrow>
      marks_truncated_on_a_short_read_but_finalizes_the_partial env unzstd path_of"
    and "caps_stored_core_but_drains_and_counts_everything env unzstd path_of"
proof -
  have len: "length round_trip_core = 200000" "length cap_core = 50000" by (simp_all add: round_trip_core_def cap_core_def)
  then have ne: "round_trip_core \<noteq> []" "cap_core \<noteq> []" by auto
  note eval = drain_eval [OF assms]
  show "streams_zstd_with_integrity_and_round_trips env unzstd path_of"
    if small: "\<And>cs. concat cs = round_trip_core \<Longrightarrow> length (z_stream (ue_zstd env) cs) < length round_trip_core"
  proof (rule eval [of "[Data round_trip_core]" round_trip_core AtEof 0 path_of
        "key_core (object_keys_new ''local'' ''pod-aaa'' ''cid-bbb'' 42 4242)" False Map.empty], goal_cases)
    case (4 cs)
    from small [of cs] 4(1) have "length (z_stream (ue_zstd env) cs) < 200000" by (simp add: capped_def len)
    then have "(of_nat (length (z_stream (ue_zstd env) cs)) :: u64) < 200000" by (simp add: word_less_nat_alt unat_of_nat)
    with 4 show ?case by (simp add: streams_zstd_with_integrity_and_round_trips_def len capped_def Let_def)
  qed (simp_all add: ne len)
  show "marks_truncated_on_a_short_read_but_finalizes_the_partial env unzstd path_of"
    if small: "\<And>cs. concat cs = replicate 50000 (CHR 0x5A) \<Longrightarrow> 0 < length (z_stream (ue_zstd env) cs) \<and> length (z_stream (ue_zstd env) cs) < 2 ^ 64"
  proof (rule eval [of "flaky_reader CORE_READ_CHUNK (replicate 50000 (CHR 0x5A))" "replicate 50000 (CHR 0x5A)" AtError 0 path_of
        "key_core (object_keys_new ''local'' ''pod-x'' ''cid-y'' 7 4242)" False Map.empty], goal_cases)
    case (4 cs)
    from small [of cs] 4(1) have "(0 :: u64) < of_nat (length (z_stream (ue_zstd env) cs))"
      by (auto simp: capped_def word_less_nat_alt unat_of_nat)
    with 4 show ?case by (simp add: marks_truncated_on_a_short_read_but_finalizes_the_partial_def capped_def Let_def)
  qed (simp_all add: flaky_reader_def CORE_READ_CHUNK_def)
  show "caps_stored_core_but_drains_and_counts_everything env unzstd path_of"
  proof (rule eval [of "[Data cap_core]" cap_core AtEof 10000 path_of
        "key_core (object_keys_new ''local'' ''pod-cap'' ''cid-cap'' 9 4242)" False Map.empty], goal_cases)
    case (4 cs)
    then show ?case by (simp add: caps_stored_core_but_drains_and_counts_everything_def len capped_def Let_def)
  qed (simp_all add: ne len)
qed

lemma stall_tests:
  assumes "ue_abort_returns env"
  shows "drain_aborts_multipart_and_errors_on_deadline env" "drain_errors_on_deadline_before_any_bytes_arrive env path_of"
proof -
  let ?p = "stall_after_one_chunk incompressible"
  have l: "length incompressible = 512000" by (simp add: incompressible_def)
  then have ne: "incompressible \<noteq> []" by auto
  then have s: "snd (stream_of ?p) = AtStall" "length (fst (stream_of ?p)) < 2 ^ 64" using l by (simp_all add: stall_after_one_chunk_def)
  let ?r = "stream_core_through_zstd (ue_zstd env) (ue_sha256 env) (fresh_writer env) 0 True (ue_abort_returns env) ?p"
  from stream_core_counts [where z = "ue_zstd env" and sha = "ue_sha256 env" and sink = "fresh_writer env"
      and m = 0 and deadline = True and ab = "ue_abort_returns env" and p = ?p] assms s(1)
  obtain e w where r: "?r = Some (Inl e, w)" by (auto split: option.splits prod.splits sum.splits)
  have "bw_phase w = BwAborted"
    using stream_core_fails(2) [OF _ _ s(2) r] s(1) by (simp add: fresh_writer_def)
  with r show "drain_aborts_multipart_and_errors_on_deadline env" by (simp add: drain_aborts_multipart_and_errors_on_deadline_def bw_object_def)
  let ?key = "key_core (object_keys_new ''local'' ''pod-stall'' ''cid-stall'' 1 4242)"
  from stalled_drain [of stall_reader env "standalone_new path_of ?key 0" Map.empty] assms
  obtain er where "standalone_drain env (standalone_new path_of ?key 0) True stall_reader Map.empty = (Some (Inl er), Map.empty)"
    by (auto simp: stall_reader_def)
  then show "drain_errors_on_deadline_before_any_bytes_arrive env path_of"
    by (simp add: drain_errors_on_deadline_before_any_bytes_arrive_def Let_def)
qed

end
