(* ===== verification/Config_Tests.thy ===== *)
theory Config_Tests
  imports Health
begin

text \<open>
  The unit tests of \<open>src/config.rs\<close>, \<open>src/core_pattern.rs\<close> and \<open>src/health.rs\<close>, translated, over
  any serialiser that reads back the configurations of the tests. First, that a write of the
  configuration completes wherever its directory is there and no call fails.
\<close>

section \<open>A write that completes\<close>

lemma config_write_completes:
  assumes p: "path_parent path = Some d" "path_parent (tmp_path path) = Some d" and d: "s d = Some (Dir m)" "list_all (is_dir s) (path_ancestors d)"
    and free: "\<And>k. s path \<noteq> Some (Dir k)" "\<And>k. s (tmp_path path) \<noteq> Some (Dir k)"
    and io: "\<And>op x. \<not> io_fails io op x" and j: "cc_print codec cfg = Some json"
  shows "config_write codec io cfg path s = (Inr (), s(d \<mapsto> Dir mode_700, tmp_path path := None, path \<mapsto> File json mode_600))"
proof -
  let ?s1 = "s(d \<mapsto> Dir mode_700)" and ?t = "tmp_path path"
  have ne: "d \<noteq> path" "d \<noteq> ?t" using d(1) free by auto
  have e: "ensure_private_dir io s d = (Inr (), ?s1)"
    using mkdirs_present [OF d(2)] set_permissions_ok [of s d d "Dir m"] d(1) io
    by (simp add: ensure_private_dir_def create_dir_all_def follow_plain)
  have r: "snd (remove_file io ?s1 ?t) = ?s1(?t := None)" "fst (remove_file io ?s1 ?t) = Inr () \<or> fst (remove_file io ?s1 ?t) = Inl NotFound"
    using free(2) ne io by (auto simp: remove_file_def fun_eq_iff split: option.splits node.splits)
  have "parent_is_dir (?s1(?t := None)) ?t"
    using p(2) ne by (simp add: parent_is_dir_def is_dir_def node_at_plain)
  then have "config_write_tmp io json ?t path (?s1(?t := None)) = (Inr (), ?s1(?t := None, path \<mapsto> File json mode_600))"
    using free(1) ne io
    by (auto simp: config_write_tmp_def open_create_new_def write_all_def set_content_def file_content_def rename_def fun_eq_iff
        split: option.splits node.splits)
  with p(1) e r j show ?thesis by (auto simp: config_write_def Let_def split: prod.splits sum.splits)
qed

section \<open>Tests of \<open>config.rs\<close>\<close>

definition tmp_dir :: fs where "tmp_dir = [''/'' \<mapsto> Dir mode_755, ''/t'' \<mapsto> Dir mode_700]"

definition tmp_config :: path where "tmp_config = ''/t/handler.json''"

definition round_trip_config :: handler_config where
  "round_trip_config =
     \<lparr>hc_cluster = ''prod'', hc_no_redact = True, hc_proc_root = ''/proc'', hc_store_url = Some ''s3://crash-artifacts'',
      hc_store_options = [(''AWS_ACCESS_KEY_ID'', ''minioadmin''), (''AWS_ENDPOINT'', ''http://minio:9000'')],
      hc_crictl_path = ''/usr/local/bin/crictl'', hc_cri_runtime_endpoint = Some ''unix:///run/containerd/containerd.sock'',
      hc_max_core_bytes = 1024, hc_max_cores_per_hour = 5, hc_upload_deadline_secs = 60, hc_crictl_timeout_secs = 15,
      hc_rate_state_path = ''/run/coredrop/recent.json'', hc_event_socket_path = Some ''/run/coredrop/events.sock''\<rparr>"

definition write_then_read_round_trips :: "('u, 'k, 's) store_lib \<Rightarrow> config_codec \<Rightarrow> bool" where
  "write_then_read_round_trips lib codec \<longleftrightarrow>
     (let (r, s) = config_write codec no_faults round_trip_config tmp_config tmp_dir
      in r = Inr () \<and> config_read lib codec no_faults s tmp_config = Some round_trip_config)"

definition write_sets_0600_file_and_0700_parent_dir :: "config_codec \<Rightarrow> bool" where
  "write_sets_0600_file_and_0700_parent_dir codec \<longleftrightarrow>
     (let (r, s) = config_write codec no_faults handler_config_default tmp_config tmp_dir
      in r = Inr () \<and> (\<exists>c. s tmp_config = Some (File c mode_600)) \<and> s ''/t'' = Some (Dir mode_700))"

definition write_tightens_an_existing_loose_file :: "config_codec \<Rightarrow> bool" where
  "write_tightens_an_existing_loose_file codec \<longleftrightarrow>
     (let (r, s) = config_write codec no_faults handler_config_default ''/t/run/handler.json''
            (tmp_dir(''/t/run'' \<mapsto> Dir mode_755, ''/t/run/handler.json'' \<mapsto> File ''{}'' mode_644))
      in r = Inr () \<and> (\<exists>c. s ''/t/run/handler.json'' = Some (File c mode_600)) \<and> s ''/t/run'' = Some (Dir mode_700))"

definition write_replaces_a_planted_symlink_and_a_stale_temp_file :: "('u, 'k, 's) store_lib \<Rightarrow> config_codec \<Rightarrow> bool" where
  "write_replaces_a_planted_symlink_and_a_stale_temp_file lib codec \<longleftrightarrow>
     (let (r, s) = config_write codec no_faults handler_config_default tmp_config
            (tmp_dir(''/t/elsewhere'' \<mapsto> File ''untouched'' mode_644, tmp_config \<mapsto> Symlink ''/t/elsewhere'',
              ''/t/handler.json.tmp'' \<mapsto> File ''left by a killed daemon'' mode_644))
      in r = Inr () \<and> fs_read no_faults s ''/t/elsewhere'' = Inr ''untouched'' \<and> (\<forall>t. s tmp_config \<noteq> Some (Symlink t)) \<and>
         config_read lib codec no_faults s tmp_config = Some handler_config_default \<and> \<not> path_exists s ''/t/handler.json.tmp'')"

definition debug_hides_store_option_values :: bool where
  "debug_hides_store_option_values \<longleftrightarrow>
     (''store_options'', DbgPairs [(''AWS_SECRET_ACCESS_KEY'', ''<redacted>'')]) \<in>
       set (snd (handler_config_debug (handler_config_default\<lparr>hc_store_options := [(''AWS_SECRET_ACCESS_KEY'', ''s3cr3t-debug-canary'')]\<rparr>))) \<and>
     handler_config_debug (handler_config_default\<lparr>hc_store_options := [(''AWS_SECRET_ACCESS_KEY'', ''s3cr3t-debug-canary'')]\<rparr>) =
       handler_config_debug (handler_config_default\<lparr>hc_store_options := [(''AWS_SECRET_ACCESS_KEY'', [])]\<rparr>)"

definition read_absent_file_is_none :: "('u, 'k, 's) store_lib \<Rightarrow> config_codec \<Rightarrow> bool" where
  "read_absent_file_is_none lib codec \<longleftrightarrow> config_read lib codec no_faults tmp_dir ''/no/such/coredrop/handler.json'' = None"

definition read_unparseable_config_returns_none :: "('u, 'k, 's) store_lib \<Rightarrow> config_codec \<Rightarrow> bool" where
  "read_unparseable_config_returns_none lib codec \<longleftrightarrow>
     config_read lib codec no_faults (tmp_dir(tmp_config \<mapsto> File ''{not json!'' mode_644)) tmp_config = None"

definition read_invalid_config_returns_none :: "('u, 'k, 's) store_lib \<Rightarrow> config_codec \<Rightarrow> bool" where
  "read_invalid_config_returns_none lib codec \<longleftrightarrow>
     (let (r, s) = config_write codec no_faults (handler_config_default\<lparr>hc_crictl_path := ''relative''\<rparr>) tmp_config tmp_dir
      in r = Inr () \<and> config_read lib codec no_faults s tmp_config = None)"

definition sibling_paths_are_derived_from_the_config_path :: bool where
  "sibling_paths_are_derived_from_the_config_path \<longleftrightarrow>
     event_socket_path_for ''/run/coredrop/handler.json'' = ''/run/coredrop/events.sock'' \<and>
     rate_state_path_for ''/run/coredrop/handler.json'' = ''/run/coredrop/recent.json'' \<and>
     event_socket_path_for [] = ''/run/coredrop/events.sock'' \<and> rate_state_path_for [] = ''/run/coredrop/recent.json''"

definition no_store_url_yields_no_object_store :: "('u, 'k, 's) store_lib \<Rightarrow> bool" where
  "no_store_url_yields_no_object_store lib \<longleftrightarrow> config_object_store lib handler_config_default = None"

definition validate_accepts_default_config :: "('u, 'k, 's) store_lib \<Rightarrow> bool" where
  "validate_accepts_default_config lib \<longleftrightarrow> validate lib handler_config_default = Inr ()"

definition validate_rejects_relative_paths :: "('u, 'k, 's) store_lib \<Rightarrow> bool" where
  "validate_rejects_relative_paths lib \<longleftrightarrow>
     list_all (\<lambda>cfg. validate lib cfg \<noteq> Inr ())
       [handler_config_default\<lparr>hc_crictl_path := ''crictl''\<rparr>, handler_config_default\<lparr>hc_proc_root := ''proc''\<rparr>,
        handler_config_default\<lparr>hc_rate_state_path := ''recent.json''\<rparr>,
        handler_config_default\<lparr>hc_event_socket_path := Some ''events.sock''\<rparr>]"

definition validate_accepts_only_supported_store_url_schemes :: "('u, 'k, 's) store_lib \<Rightarrow> bool" where
  "validate_accepts_only_supported_store_url_schemes lib \<longleftrightarrow>
     list_all (\<lambda>url. validate lib (handler_config_default\<lparr>hc_store_url := Some url\<rparr>) = Inr ())
       [''s3://crash-artifacts'', ''gs://crash-artifacts'', ''az://crash-artifacts''] \<and>
     list_all (\<lambda>url. validate lib (handler_config_default\<lparr>hc_store_url := Some url\<rparr>) \<noteq> Inr ())
       [''not a url'', ''memory://bucket'', ''file:///var/tmp'']"

section \<open>The model passes them\<close>

lemma tmp_config_paths:
  "path_parent ''/t/handler.json'' = Some ''/t''" "path_parent ''/t/handler.json.tmp'' = Some ''/t''" "path_ancestors ''/t'' = [''/'', ''/t'']"
  "path_parent ''/t/run/handler.json'' = Some ''/t/run''" "path_parent ''/t/run/handler.json.tmp'' = Some ''/t/run''"
  "path_ancestors ''/t/run'' = [''/'', ''/t'', ''/t/run'']"
  by code_simp+

lemmas tmp_config_simps = tmp_config_paths tmp_dir_def tmp_config_def tmp_path_def is_dir_def node_at_plain

lemmas config_eval = validate_def and_then_def must_be_absolute_def handler_config_default_def is_absolute_def DEFAULT_CRICTL_PATH_def
  DEFAULT_PROC_ROOT_def default_rate_state_path_def default_event_socket_path_def

lemma default_config_valid: "validate lib handler_config_default = Inr ()"
  by (simp add: config_eval)

text \<open>A write into the directory of the tests.\<close>

lemma tmp_config_write:
  assumes "cc_print codec cfg = Some json" "s ''/'' = Some (Dir m0)" "s ''/t'' = Some (Dir m)"
    and "\<And>k. s ''/t/handler.json'' \<noteq> Some (Dir k)" "\<And>k. s ''/t/handler.json.tmp'' \<noteq> Some (Dir k)"
  shows "config_write codec no_faults cfg tmp_config s =
    (Inr (), s(''/t'' \<mapsto> Dir mode_700, ''/t/handler.json.tmp'' := None, ''/t/handler.json'' \<mapsto> File json mode_600))"
  using config_write_completes [of tmp_config "''/t''" s m no_faults codec cfg json] assms by (simp add: tmp_config_simps)

lemma config_read_written:
  assumes "cc_parse codec json = Some cfg"
  shows "config_read lib codec no_faults (s(''/t/handler.json'' \<mapsto> File json k)) tmp_config =
    (if validate lib cfg = Inr () then Some cfg else None)"
  using assms by (auto simp: config_read_def fs_read_def node_at_plain tmp_config_def split: sum.split)

lemma config_write_tests:
  assumes "cc_print codec handler_config_default = Some json" "cc_parse codec json = Some handler_config_default"
  shows "write_sets_0600_file_and_0700_parent_dir codec" "write_tightens_an_existing_loose_file codec"
    "write_replaces_a_planted_symlink_and_a_stale_temp_file lib codec"
proof -
  show "write_sets_0600_file_and_0700_parent_dir codec"
    using tmp_config_write [OF assms(1), of tmp_dir] by (simp add: write_sets_0600_file_and_0700_parent_dir_def tmp_dir_def tmp_config_def)
  show "write_tightens_an_existing_loose_file codec"
    using config_write_completes [of "''/t/run/handler.json''" "''/t/run''"
        "tmp_dir(''/t/run'' \<mapsto> Dir mode_755, ''/t/run/handler.json'' \<mapsto> File ''{}'' mode_644)" mode_755 no_faults codec, OF _ _ _ _ _ _ _ assms(1)]
    by (simp add: write_tightens_an_existing_loose_file_def tmp_config_simps)
  let ?s = "tmp_dir(''/t/elsewhere'' \<mapsto> File ''untouched'' mode_644, tmp_config \<mapsto> Symlink ''/t/elsewhere'',
      ''/t/handler.json.tmp'' \<mapsto> File ''left by a killed daemon'' mode_644)"
  show "write_replaces_a_planted_symlink_and_a_stale_temp_file lib codec"
    using tmp_config_write [OF assms(1), of ?s] config_read_written [OF assms(2), of lib]
    by (simp add: write_replaces_a_planted_symlink_and_a_stale_temp_file_def tmp_dir_def tmp_config_def default_config_valid
        fs_read_def node_at_plain path_exists_def)
qed

lemma config_round_trip_test:
  assumes "cc_print codec round_trip_config = Some json" "cc_parse codec json = Some round_trip_config"
    and "validate_store_url lib ''s3://crash-artifacts'' = Inr ()"
  shows "write_then_read_round_trips lib codec"
proof -
  have "validate lib round_trip_config = Inr ()"
    using assms(3) by (simp add: validate_def and_then_def must_be_absolute_def round_trip_config_def is_absolute_def)
  then show ?thesis
    using tmp_config_write [OF assms(1), of tmp_dir] config_read_written [OF assms(2), of lib]
    by (simp add: write_then_read_round_trips_def tmp_dir_def)
qed

lemma config_read_tests:
  "read_absent_file_is_none lib codec" "cc_parse codec ''{not json!'' = None \<Longrightarrow> read_unparseable_config_returns_none lib codec"
  by (simp_all add: read_absent_file_is_none_def read_unparseable_config_returns_none_def config_read_def fs_read_def node_at_plain
      tmp_dir_def tmp_config_def)

lemma config_invalid_test:
  assumes "cc_print codec (handler_config_default\<lparr>hc_crictl_path := ''relative''\<rparr>) = Some json"
    and "cc_parse codec json = Some (handler_config_default\<lparr>hc_crictl_path := ''relative''\<rparr>)"
  shows "read_invalid_config_returns_none lib codec"
proof -
  have "validate lib (handler_config_default\<lparr>hc_crictl_path := ''relative''\<rparr>) \<noteq> Inr ()"
    by (simp add: validate_def and_then_def must_be_absolute_def is_absolute_def)
  then show ?thesis
    using tmp_config_write [OF assms(1), of tmp_dir] config_read_written [OF assms(2), of lib]
    by (simp add: read_invalid_config_returns_none_def tmp_dir_def)
qed

lemma config_value_tests:
  "debug_hides_store_option_values" "sibling_paths_are_derived_from_the_config_path" "no_store_url_yields_no_object_store lib"
  "validate_accepts_default_config lib" "validate_rejects_relative_paths lib"
proof -
  show "debug_hides_store_option_values"
    by (simp add: debug_hides_store_option_values_def handler_config_debug_def handler_config_default_def)
  show "sibling_paths_are_derived_from_the_config_path" by code_simp
  show "no_store_url_yields_no_object_store lib"
    by (simp add: no_store_url_yields_no_object_store_def config_object_store_def handler_config_default_def)
  show "validate_accepts_default_config lib" by (simp add: validate_accepts_default_config_def default_config_valid)
  show "validate_rejects_relative_paths lib"
    by (simp add: validate_rejects_relative_paths_def config_eval)
qed

lemma config_scheme_test:
  assumes "map (\<lambda>url. map_option (sl_scheme lib) (sl_url_parse lib url))
      [''s3://crash-artifacts'', ''gs://crash-artifacts'', ''az://crash-artifacts'', ''not a url'', ''memory://bucket'', ''file:///var/tmp''] =
    [Some (Some AmazonS3), Some (Some GoogleCloudStorage), Some (Some MicrosoftAzure), None, Some (Some MemoryScheme), Some (Some LocalScheme)]"
  shows "validate_accepts_only_supported_store_url_schemes lib"
proof -
  have "validate lib (handler_config_default\<lparr>hc_store_url := Some url\<rparr>) = validate_store_url lib url" for url
    using default_config_valid [of lib] by (simp add: validate_def and_then_def split: sum.splits)
  with assms show ?thesis by (auto simp: validate_accepts_only_supported_store_url_schemes_def validate_store_url_def)
qed

section \<open>Tests of \<open>core_pattern.rs\<close>\<close>

definition pattern_pipes_to_the_handler :: bool where
  "pattern_pipes_to_the_handler \<longleftrightarrow>
     build_pattern ''/opt/coredrop/bin/coredrop'' = ''|/opt/coredrop/bin/coredrop capture %P %s %t %E''"

definition sysctls :: "string \<Rightarrow> string \<Rightarrow> fs" where
  "sysctls pattern pipe_limit = tmp_dir(''/t/core_pattern'' \<mapsto> File pattern mode_644, ''/t/core_pipe_limit'' \<mapsto> File pipe_limit mode_644)"

definition install_sets_then_restores_both_sysctls :: bool where
  "install_sets_then_restores_both_sysctls \<longleftrightarrow>
     (case install_at no_faults ''/h/coredrop'' 16 ''/t/core_pattern'' ''/t/core_pipe_limit'' (sysctls (''core'' @ [newline]) (''0'' @ [newline])) of
        (Inl _, _) \<Rightarrow> False
      | (Inr guard, s) \<Rightarrow>
          read_to_string no_faults s ''/t/core_pattern'' = Inr ''|/h/coredrop capture %P %s %t %E'' \<and>
          read_to_string no_faults s ''/t/core_pipe_limit'' = Inr ''16'' \<and>
          read_to_string no_faults (restore no_faults guard s) ''/t/core_pattern'' = Inr (''core'' @ [newline]) \<and>
          read_to_string no_faults (restore no_faults guard s) ''/t/core_pipe_limit'' = Inr (''0'' @ [newline]))"

definition install_fails_when_the_pattern_sysctl_is_unreadable :: bool where
  "install_fails_when_the_pattern_sysctl_is_unreadable \<longleftrightarrow>
     (let (r, s) = install_at no_faults ''/h/coredrop'' 16 ''/t/missing/core_pattern'' ''/t/core_pipe_limit'' (sysctls [] (''0'' @ [newline]))
      in (\<exists>e. r = Inl e) \<and> read_to_string no_faults s ''/t/core_pipe_limit'' = Inr (''0'' @ [newline]))"

definition install_over_our_own_pattern_restores_the_kernel_default :: bool where
  "install_over_our_own_pattern_restores_the_kernel_default \<longleftrightarrow>
     (case install_at no_faults ''/h/coredrop'' 16 ''/t/core_pattern'' ''/t/core_pipe_limit''
            (sysctls (build_pattern ''/h/coredrop'' @ [newline]) (''128'' @ [newline])) of
        (Inl _, _) \<Rightarrow> False
      | (Inr guard, s) \<Rightarrow> read_to_string no_faults (restore no_faults guard s) ''/t/core_pattern'' = Inr ''core'')"

lemma sysctl_reads:
  "utf8_valid c \<Longrightarrow> read_to_string no_faults (s(p \<mapsto> File c m)) p = Inr c"
  by (simp add: read_to_string_def fs_read_def node_at_plain)

lemma newline_valid: "utf8_valid [newline]" by code_simp

lemma sysctl_literals: "utf8_valid (''core'' @ [newline])" "utf8_valid (''0'' @ [newline])" "utf8_valid (''128'' @ [newline])" "utf8_valid ''core''" "utf8_valid ''16''"
  "trim_end (''core'' @ [newline]) \<noteq> build_pattern ''/h/coredrop''" "show_nat 16 = ''16''"
  "build_pattern ''/h/coredrop'' = ''|/h/coredrop capture %P %s %t %E''"
  by code_simp+

text \<open>Installing against the two files of the tests, and what restoring then leaves.\<close>

lemma sysctls_install:
  assumes "utf8_valid pattern" "utf8_valid pipe_limit" "pipe_limit \<noteq> []"
  shows "\<exists>g. install_at no_faults h n ''/t/core_pattern'' ''/t/core_pipe_limit'' (sysctls pattern pipe_limit) =
      (Inr g, sysctls (build_pattern h) (show_nat (unat n))) \<and>
    restore no_faults g (sysctls (build_pattern h) (show_nat (unat n))) = sysctls (saved_pattern h pattern) pipe_limit"
proof -
  let ?p = "''/t/core_pattern''" and ?l = "''/t/core_pipe_limit''" and ?s = "sysctls pattern pipe_limit"
  have at: "follow (sysctls a b) ?p = Some ?p" "follow (sysctls a b) ?l = Some ?l" "sysctls a b ?p = Some (File a mode_644)"
    "sysctls a b ?l = Some (File b mode_644)" for a b by (simp_all add: sysctls_def follow_plain)
  have "read_to_string no_faults ?s ?p = Inr pattern" "fs_write no_faults ?s ?p c = (Inr (), ?s(?p \<mapsto> File c mode_644))" for c
    using read_to_string_file [OF at(1,3)] fs_write_succeeds [OF at(1,3)] assms by simp_all
  then obtain g s' where i: "install_at no_faults h n ?p ?l ?s = (Inr g, s')" by (auto simp: install_at_def Let_def)
  have s': "s' = sysctls (build_pattern h) (show_nat (unat n))"
    using install_at_state [OF i at(1,2) _ at(3,4)] by (auto simp: sysctls_def fun_eq_iff)
  moreover have "restore no_faults g s' = sysctls (saved_pattern h pattern) pipe_limit"
    using install_restore [OF i at(1,2) _ at(3,4)] assms by (auto simp: sysctls_def fun_eq_iff)
  ultimately show ?thesis using i by blast
qed

lemma core_pattern_tests:
  "pattern_pipes_to_the_handler" "install_sets_then_restores_both_sysctls" "install_fails_when_the_pattern_sysctl_is_unreadable"
  "install_over_our_own_pattern_restores_the_kernel_default"
proof -
  show "pattern_pipes_to_the_handler" by code_simp
  have rd: "read_to_string no_faults (sysctls a b) ''/t/core_pattern'' = Inr a" "read_to_string no_faults (sysctls a b) ''/t/core_pipe_limit'' = Inr b"
    if "utf8_valid a" "utf8_valid b" for a b
    using that by (simp_all add: sysctls_def read_to_string_def fs_read_def node_at_plain)
  show "install_sets_then_restores_both_sysctls"
    using sysctls_install [OF sysctl_literals(1,2), of "''/h/coredrop''" 16] sysctl_literals build_pattern_valid [of "''/h/coredrop''"]
    by (auto simp: install_sets_then_restores_both_sysctls_def saved_pattern_def rd)
  show "install_fails_when_the_pattern_sysctl_is_unreadable"
    by (simp add: install_fails_when_the_pattern_sysctl_is_unreadable_def install_at_def read_to_string_def fs_read_def node_at_plain
        sysctls_def tmp_dir_def sysctl_literals(2) [simplified])
  show "install_over_our_own_pattern_restores_the_kernel_default"
    using sysctls_install [OF _ sysctl_literals(3), of "build_pattern ''/h/coredrop'' @ [newline]" "''/h/coredrop''" 16]
      sysctl_literals(3,4) utf8_valid_append [OF build_pattern_valid, of "[newline]" "''/h/coredrop''"] newline_valid
    by (auto simp: install_over_our_own_pattern_restores_the_kernel_default_def saved_pattern_own rd)
qed

section \<open>Tests of \<open>health.rs\<close>\<close>

definition INSTALLED :: string where "INSTALLED = ''|/opt/coredrop/bin/coredrop capture %P %s %t %E'' @ [newline]"
definition HANDLER :: path where "HANDLER = ''/opt/coredrop/bin/coredrop''"

text \<open>A directory with a pattern file and a configuration that was written there, and the check of it.\<close>

definition fixture_config :: "path option \<Rightarrow> handler_config" where
  "fixture_config event_socket_path = handler_config_default\<lparr>hc_event_socket_path := event_socket_path\<rparr>"

definition fixture :: "config_codec \<Rightarrow> string \<Rightarrow> path option \<Rightarrow> fs \<Rightarrow> fs" where
  "fixture codec pattern event_socket_path s =
     snd (config_write codec no_faults (fixture_config event_socket_path) tmp_config (s(''/t/core_pattern'' \<mapsto> File pattern mode_644)))"

definition passes_when_pattern_and_config_are_intact :: "('u, 'k, 's) store_lib \<Rightarrow> config_codec \<Rightarrow> bool" where
  "passes_when_pattern_and_config_are_intact lib codec \<longleftrightarrow>
     health_check lib codec no_faults HANDLER tmp_config ''/t/core_pattern'' (fixture codec INSTALLED None tmp_dir) = Inr ()"

definition passes_when_the_advertised_event_socket_is_bound :: "('u, 'k, 's) store_lib \<Rightarrow> config_codec \<Rightarrow> bool" where
  "passes_when_the_advertised_event_socket_is_bound lib codec \<longleftrightarrow>
     health_check lib codec no_faults HANDLER tmp_config ''/t/core_pattern''
       (fixture codec INSTALLED (Some ''/d/events.sock'') (tmp_dir(''/d/events.sock'' \<mapsto> Socket mode_755))) = Inr ()"

definition fails_when_core_pattern_drifted :: "('u, 'k, 's) store_lib \<Rightarrow> config_codec \<Rightarrow> bool" where
  "fails_when_core_pattern_drifted lib codec \<longleftrightarrow>
     (\<exists>found. health_check lib codec no_faults HANDLER tmp_config ''/t/core_pattern'' (fixture codec (''core'' @ [newline]) None tmp_dir) =
       Inl (PatternDrifted found))"

definition fails_when_handler_config_is_gone :: "('u, 'k, 's) store_lib \<Rightarrow> config_codec \<Rightarrow> bool" where
  "fails_when_handler_config_is_gone lib codec \<longleftrightarrow>
     health_check lib codec no_faults HANDLER tmp_config ''/t/core_pattern''
       (snd (remove_file no_faults (fixture codec INSTALLED None tmp_dir) tmp_config)) = Inl ConfigBad"

definition fails_when_advertised_event_socket_is_gone :: "('u, 'k, 's) store_lib \<Rightarrow> config_codec \<Rightarrow> bool" where
  "fails_when_advertised_event_socket_is_gone lib codec \<longleftrightarrow>
     health_check lib codec no_faults HANDLER tmp_config ''/t/core_pattern''
       (fixture codec INSTALLED (Some ''/run/coredrop/definitely-not-bound.sock'') tmp_dir) =
       Inl (SocketGone ''/run/coredrop/definitely-not-bound.sock'')"

lemma installed_literals: "utf8_valid INSTALLED" "trim_end INSTALLED = build_pattern HANDLER" "trim_end (''core'' @ [newline]) \<noteq> build_pattern HANDLER"
  by code_simp+

lemma health_check_files:
  assumes "s ''/t/core_pattern'' = Some (File pattern m)" "utf8_valid pattern" "s ''/t/handler.json'' = Some (File json k)"
    and "cc_parse codec json = Some cfg" "validate lib cfg = Inr ()"
  shows "health_check lib codec no_faults h tmp_config ''/t/core_pattern'' s =
    (if trim_end pattern \<noteq> build_pattern h then Inl (PatternDrifted (trim_end pattern))
     else (case hc_event_socket_path cfg of None \<Rightarrow> Inr () | Some sock \<Rightarrow> if path_exists s sock then Inr () else Inl (SocketGone sock)))"
  using assms by (simp add: health_check_def read_to_string_def fs_read_def node_at_plain config_read_def tmp_config_def split: option.split)

lemma fixture_in:
  assumes "cc_print codec (fixture_config sock) = Some json" "s ''/'' = Some (Dir mode_755)" "s ''/t'' = Some (Dir mode_700)"
    and "s ''/t/handler.json'' = None" "s ''/t/handler.json.tmp'' = None"
  shows "fixture codec pattern sock s =
    s(''/t/core_pattern'' \<mapsto> File pattern mode_644, ''/t'' \<mapsto> Dir mode_700, ''/t/handler.json.tmp'' := None, ''/t/handler.json'' \<mapsto> File json mode_600)"
  using tmp_config_write [OF assms(1), of "s(''/t/core_pattern'' \<mapsto> File pattern mode_644)"] assms(2-5) by (simp add: fixture_def)

lemma health_tests:
  assumes "\<And>sock. \<exists>json. cc_print codec (fixture_config sock) = Some json \<and> cc_parse codec json = Some (fixture_config sock)"
  shows "passes_when_pattern_and_config_are_intact lib codec" "passes_when_the_advertised_event_socket_is_bound lib codec"
    "fails_when_core_pattern_drifted lib codec" "fails_when_handler_config_is_gone lib codec"
    "fails_when_advertised_event_socket_is_gone lib codec"
proof -
  have v: "sock = None \<or> sock = Some ''/d/events.sock'' \<or> sock = Some ''/run/coredrop/definitely-not-bound.sock'' \<Longrightarrow>
      validate lib (fixture_config sock) = Inr ()" for sock
    by (auto simp: fixture_config_def config_eval)
  have sk: "hc_event_socket_path (fixture_config sock) = sock" for sock by (simp add: fixture_config_def)
  obtain j where j: "cc_print codec (fixture_config sock) = Some (j sock)" "cc_parse codec (j sock) = Some (fixture_config sock)" for sock
    using assms by metis
  have c: "health_check lib codec no_faults HANDLER tmp_config ''/t/core_pattern'' (fixture codec pattern sock s) =
      (if trim_end pattern \<noteq> build_pattern HANDLER then Inl (PatternDrifted (trim_end pattern))
       else (case sock of None \<Rightarrow> Inr () | Some p \<Rightarrow> if s p \<noteq> None then Inr () else Inl (SocketGone p)))"
    if "s = tmp_dir \<or> s = tmp_dir(''/d/events.sock'' \<mapsto> Socket mode_755)" "utf8_valid pattern"
      "sock = None \<or> sock = Some ''/d/events.sock'' \<or> sock = Some ''/run/coredrop/definitely-not-bound.sock''" for s pattern sock
  proof -
    have f: "fixture codec pattern sock s = s(''/t/core_pattern'' \<mapsto> File pattern mode_644, ''/t'' \<mapsto> Dir mode_700,
        ''/t/handler.json.tmp'' := None, ''/t/handler.json'' \<mapsto> File (j sock) mode_600)"
      by (rule fixture_in [OF j(1)]) (use that(1) in \<open>auto simp: tmp_dir_def\<close>)
    have p: "path_exists (fixture codec pattern sock s) x \<longleftrightarrow> s x \<noteq> None" if "sock = Some x" for x
      unfolding f using that \<open>sock = None \<or> _\<close> \<open>s = tmp_dir \<or> _\<close> by (auto simp: path_exists_def node_at_plain tmp_dir_def)
    have "health_check lib codec no_faults HANDLER tmp_config ''/t/core_pattern'' (fixture codec pattern sock s) =
      (if trim_end pattern \<noteq> build_pattern HANDLER then Inl (PatternDrifted (trim_end pattern))
       else (case hc_event_socket_path (fixture_config sock) of None \<Rightarrow> Inr ()
             | Some p \<Rightarrow> if path_exists (fixture codec pattern sock s) p then Inr () else Inl (SocketGone p)))"
      by (rule health_check_files [OF _ that(2) _ j(2) v [OF that(3)]]) (simp_all add: f)
    then show ?thesis using p by (simp add: sk split: option.split)
  qed
  show "passes_when_pattern_and_config_are_intact lib codec"
    by (simp add: passes_when_pattern_and_config_are_intact_def c installed_literals)
  show "passes_when_the_advertised_event_socket_is_bound lib codec"
    by (simp add: passes_when_the_advertised_event_socket_is_bound_def c installed_literals)
  show "fails_when_core_pattern_drifted lib codec"
    using c [of tmp_dir "''core'' @ [newline]" None, OF _ sysctl_literals(1)] installed_literals(3) by (simp add: fails_when_core_pattern_drifted_def)
  show "fails_when_handler_config_is_gone lib codec"
    using fixture_in [where s = tmp_dir and pattern = INSTALLED, OF j(1) [of None]] installed_literals
    by (simp add: fails_when_handler_config_is_gone_def tmp_dir_def remove_file_def tmp_config_def health_check_def config_read_def
        read_to_string_def fs_read_def node_at_plain)
  show "fails_when_advertised_event_socket_is_gone lib codec"
    by (simp add: fails_when_advertised_event_socket_is_gone_def c installed_literals tmp_dir_def)
qed

end
