(* ===== verification/Wire_Tests.thy ===== *)
theory Wire_Tests
  imports Events Manifest Crictl
begin

text \<open>
  The unit tests of \<open>src/events.rs\<close>, \<open>src/manifest.rs\<close> and \<open>src/crictl.rs\<close>, translated at the level
  of JSON values (the text of a value is \<open>serde_json\<close>'s): what the tests look for in the text is
  looked up in the value.
\<close>

definition json_has :: "json \<Rightarrow> string \<Rightarrow> json \<Rightarrow> bool" where
  "json_has v k x \<longleftrightarrow> (case v of JObj ob \<Rightarrow> (k, x) \<in> set ob | _ \<Rightarrow> False)"

definition json_keys :: "json \<Rightarrow> string list" where
  "json_keys v = (case v of JObj ob \<Rightarrow> map fst ob | _ \<Rightarrow> [])"

section \<open>Tests of \<open>events.rs\<close>\<close>

definition test_payload :: capture_event where
  "test_payload =
     \<lparr>ce_namespace = Some ''default'', ce_pod_name = Some ''my-pod'', ce_pod_uid = Some ''abc-123'', ce_container_id = Some ''def456'',
      ce_container_name = Some ''app'', ce_host_pid = 4242, ce_exe = ''server'', ce_signal = 11, ce_signal_name = Some ''SIGSEGV'',
      ce_outcome = Uploaded, ce_manifest_key = Some ''local/abc-123/def456/1234567890-manifest.json'', ce_core_bytes = 4096,
      ce_stored_bytes = Some 1024, ce_truncated = False, ce_error = None, ce_timestamp = 1749600000\<rparr>"

definition payload_round_trips_through_json :: bool where
  "payload_round_trips_through_json \<longleftrightarrow>
     json_has (payload_to_json test_payload) ''outcome'' (JStr ''uploaded'') \<and>
     payload_of_json (payload_to_json test_payload) = Some test_payload"

definition payload_without_identity_round_trips :: bool where
  "payload_without_identity_round_trips \<longleftrightarrow>
     (let p = test_payload\<lparr>ce_namespace := None, ce_pod_name := None, ce_pod_uid := None, ce_container_id := None,
            ce_container_name := None, ce_outcome := SkippedNonK8s, ce_manifest_key := None, ce_stored_bytes := None\<rparr>
      in payload_of_json (payload_to_json p) = Some p)"

definition payload_from_an_older_handler_still_parses :: bool where
  "payload_from_an_older_handler_still_parses \<longleftrightarrow>
     (case payload_of_json (JObj
          [(''namespace'', JStr ''default''), (''pod_name'', JStr ''my-pod''), (''pod_uid'', JStr ''abc-123''),
           (''container_name'', JStr ''app''), (''signal'', JNum 11), (''signal_name'', JStr ''SIGSEGV''),
           (''outcome'', JStr ''uploaded''), (''manifest_key'', JNull), (''stored_bytes'', JNull), (''timestamp'', JNum 1749600000)]) of
        None \<Rightarrow> False
      | Some p \<Rightarrow> ce_namespace p = Some ''default'' \<and> ce_outcome p = Uploaded \<and> ce_host_pid p = 0 \<and> ce_exe p = [] \<and> ce_error p = None)"

text \<open>The socket tests: with a listener the datagram arrives, without a path or a listener nothing does.\<close>

definition send_capture_event_delivers_to_a_bound_socket :: "(json \<Rightarrow> bytes option) \<Rightarrow> (bytes \<Rightarrow> json option) \<Rightarrow> bool" where
  "send_capture_event_delivers_to_a_bound_socket print parse \<longleftrightarrow>
     (case send_capture_event (\<lambda>p. print (payload_to_json p))
            \<lparr>dg_unbound_ok = True, dg_nonblocking_ok = True, dg_delivers = (\<lambda>p _. p = ''/t/events.sock'')\<rparr> (Some ''/t/events.sock'') test_payload of
        [(p, b)] \<Rightarrow> p = ''/t/events.sock'' \<and> Option.bind (parse b) payload_of_json = Some test_payload
      | _ \<Rightarrow> False)"

definition send_capture_event_is_best_effort :: "(json \<Rightarrow> bytes option) \<Rightarrow> bool" where
  "send_capture_event_is_best_effort print \<longleftrightarrow>
     (let net = \<lparr>dg_unbound_ok = True, dg_nonblocking_ok = True, dg_delivers = (\<lambda>_ _. False)\<rparr>
      in send_capture_event (\<lambda>p. print (payload_to_json p)) net None test_payload = [] \<and>
         send_capture_event (\<lambda>p. print (payload_to_json p)) net (Some ''/run/coredrop/no-such-listener.sock'') test_payload = [])"

lemma payload_tests:
  "payload_round_trips_through_json" "payload_without_identity_round_trips" "payload_from_an_older_handler_still_parses"
proof -
  show "payload_round_trips_through_json" unfolding payload_round_trips_through_json_def
    by (rule conjI, code_simp, rule payload.decodes) (simp add: payload_ok_def test_payload_def i32_min_def i32_max_def i64_min_def i64_max_def)
  show "payload_without_identity_round_trips" unfolding payload_without_identity_round_trips_def Let_def
    by (rule payload.decodes) (simp add: payload_ok_def test_payload_def i32_min_def i32_max_def i64_min_def i64_max_def)
  show "payload_from_an_older_handler_still_parses" by code_simp
qed

lemma send_tests:
  "print (payload_to_json test_payload) = Some b \<Longrightarrow> parse b = Some (payload_to_json test_payload) \<Longrightarrow>
    send_capture_event_delivers_to_a_bound_socket print parse"
  "send_capture_event_is_best_effort print"
  using payload_tests(1)
  by (simp_all add: send_capture_event_delivers_to_a_bound_socket_def send_capture_event_is_best_effort_def send_capture_event_def
      payload_round_trips_through_json_def split: option.split)

section \<open>Tests of \<open>manifest.rs\<close>\<close>

definition sample :: manifest where
  "sample =
     \<lparr>mf_schema_version = 1, mf_captured_at = ''2026-06-27T12:00:00+00:00'', mf_cluster = ''prod'', mf_node = ''node-a'', mf_signal = 11,
      mf_signal_name = Some ''SIGSEGV'', mf_exe = ''!usr!bin!app'', mf_build_id = Some ''deadbeef0123'',
      mf_identity =
        \<lparr>mi_pod_uid = ''abc-123'', mi_container_id = ''def456'', mi_namespace = Some ''default'', mi_pod_name = Some ''my-pod'',
         mi_container_name = Some ''app'', mi_image = Some ''ubuntu:latest'', mi_image_digest = Some ''sha256:cafebabe'',
         mi_restart_count = Some 2\<rparr>,
      mf_core =
        \<lparr>cr_present = True, cr_object_key = Some ''prod/abc-123/def456/1234567890-core.zst'', cr_sha256 = Some ''aaaa'',
         cr_size_bytes = Some 1000000, cr_stored_bytes = Some 200000, cr_truncated = False, cr_truncated_reason = None,
         cr_skipped_reason = None, cr_codec = ''zstd''\<rparr>,
      mf_proc_snapshot =
        Some \<lparr>ps_object_key = ''prod/abc-123/def456/1234567890-procsnapshot.tar'', ps_truncated = False, ps_file_count = 7\<rparr>\<rparr>"

definition round_trips_through_json :: bool where
  "round_trips_through_json \<longleftrightarrow>
     (case manifest_of_json (manifest_to_json sample) of
        None \<Rightarrow> False
      | Some back \<Rightarrow> mf_schema_version back = 1 \<and> mi_namespace (mf_identity back) = Some ''default'' \<and>
          mi_restart_count (mf_identity back) = Some 2 \<and> cr_present (mf_core back) \<and>
          map_option ps_file_count (mf_proc_snapshot back) = Some 7)"

definition reason_fields_are_omitted_rather_than_null :: bool where
  "reason_fields_are_omitted_rather_than_null \<longleftrightarrow>
     (let keys = json_keys (core_ref_to_json (mf_core sample));
          c = (mf_core sample)\<lparr>cr_truncated := True, cr_truncated_reason := Some ''size_cap'', cr_skipped_reason := Some ''rate_limit''\<rparr>
      in ''truncated_reason'' \<notin> set keys \<and> ''skipped_reason'' \<notin> set keys \<and>
         json_has (core_ref_to_json c) ''truncated_reason'' (JStr ''size_cap'') \<and>
         json_has (core_ref_to_json c) ''skipped_reason'' (JStr ''rate_limit'') \<and>
         Option.bind (manifest_of_json (manifest_to_json (sample\<lparr>mf_core := c\<rparr>))) (\<lambda>m. cr_truncated_reason (mf_core m)) = Some ''size_cap'')"

definition no_core_manifest_is_valid :: bool where
  "no_core_manifest_is_valid \<longleftrightarrow>
     (let m = sample\<lparr>mf_core := (mf_core sample)\<lparr>cr_present := False, cr_object_key := None, cr_sha256 := None, cr_size_bytes := None,
            cr_stored_bytes := None\<rparr>, mf_proc_snapshot := None\<rparr>
      in case manifest_of_json (manifest_to_json m) of
           None \<Rightarrow> False
         | Some back \<Rightarrow> \<not> cr_present (mf_core back) \<and> mf_proc_snapshot back = None)"

lemma sample_decodes: "mf_signal m = 11 \<Longrightarrow> manifest_of_json (manifest_to_json m) = Some m"
  by (rule manifest_json.decodes) (simp add: i32_min_def i32_max_def)

lemma manifest_tests:
  "round_trips_through_json" "reason_fields_are_omitted_rather_than_null" "no_core_manifest_is_valid"
proof -
  have s: "mf_signal sample = 11" by (simp add: sample_def)
  show "round_trips_through_json" by (simp add: round_trips_through_json_def sample_decodes s) (simp add: sample_def)
  show "reason_fields_are_omitted_rather_than_null"
    by (simp add: reason_fields_are_omitted_rather_than_null_def sample_decodes s)
      (simp add: sample_def core_ref_to_json_def json_keys_def json_has_def skip_none_def)
  show "no_core_manifest_is_valid" by (simp add: no_core_manifest_is_valid_def sample_decodes s)
qed

section \<open>Tests of \<open>crictl.rs\<close>\<close>

definition crictl_inspect_response :: "string \<Rightarrow> string \<Rightarrow> string \<Rightarrow> string \<Rightarrow> string \<Rightarrow> int \<Rightarrow> json" where
  "crictl_inspect_response namespace pod container img image_ref attempt =
     JObj [(''status'', JObj
       [(''id'', JStr ''abc123def456''), (''metadata'', JObj [(''name'', JStr container), (''attempt'', JNum attempt)]),
        (''image'', JObj [(''image'', JStr img)]), (''imageRef'', JStr image_ref),
        (''labels'', JObj [(''io.kubernetes.pod.namespace'', JStr namespace), (''io.kubernetes.pod.name'', JStr pod),
           (''io.kubernetes.container.name'', JStr container)])])]"

definition unix_socket_path_extracts_only_unix_endpoints :: bool where
  "unix_socket_path_extracts_only_unix_endpoints \<longleftrightarrow>
     unix_socket_path ''unix:///run/containerd/containerd.sock'' = Some ''/run/containerd/containerd.sock'' \<and>
     unix_socket_path ''tcp://127.0.0.1:1234'' = None \<and> unix_socket_path ''/run/containerd/containerd.sock'' = None \<and>
     unix_socket_path ''unix://'' = None \<and> unix_socket_path [] = None"

definition extracts_all_fields_from_crictl_json :: bool where
  "extracts_all_fields_from_crictl_json \<longleftrightarrow>
     extract_info (crictl_inspect_response ''default'' ''my-pod-abc'' ''app'' ''docker.io/library/ubuntu:latest''
         ''docker.io/library/ubuntu@sha256:deadbeef'' 3) =
       \<lparr>ci_namespace = Some ''default'', ci_pod_name = Some ''my-pod-abc'', ci_container_name = Some ''app'',
        ci_image = Some ''docker.io/library/ubuntu:latest'', ci_image_digest = Some ''sha256:deadbeef'', ci_restart_count = Some 3\<rparr>"

definition tolerates_missing_fields :: bool where
  "tolerates_missing_fields \<longleftrightarrow> extract_info (JObj [(''status'', JObj [])]) = container_info_default"

definition image_digest_extracted_after_at_sign :: bool where
  "image_digest_extracted_after_at_sign \<longleftrightarrow>
     ci_image_digest (extract_info (JObj [(''status'', JObj [(''imageRef'', JStr ''registry.io/app@sha256:cafebabe''), (''labels'', JObj [])])])) =
       Some ''sha256:cafebabe''"

definition image_ref_without_digest_yields_none :: bool where
  "image_ref_without_digest_yields_none \<longleftrightarrow>
     ci_image_digest (extract_info (JObj [(''status'', JObj [(''imageRef'', JStr ''registry.io/app:latest''), (''labels'', JObj [])])])) = None"

lemma crictl_tests:
  "unix_socket_path_extracts_only_unix_endpoints" "extracts_all_fields_from_crictl_json" "tolerates_missing_fields"
  "image_digest_extracted_after_at_sign" "image_ref_without_digest_yields_none"
proof -
  show "unix_socket_path_extracts_only_unix_endpoints" by code_simp
  note ev = extract_info_def json_index_def str_field_def opt_filter_def as_str_def as_u64_def u32_try_from_def Let_def
  show "extracts_all_fields_from_crictl_json"
    by (simp add: extracts_all_fields_from_crictl_json_def crictl_inspect_response_def ev)
  show "tolerates_missing_fields" by (simp add: tolerates_missing_fields_def container_info_default_def ev)
  show "image_digest_extracted_after_at_sign" by (simp add: image_digest_extracted_after_at_sign_def ev)
  show "image_ref_without_digest_yields_none" by (simp add: image_ref_without_digest_yields_none_def ev)
qed

end
