(* ===== verification/Snapshot_Tests.thy ===== *)
theory Snapshot_Tests
  imports Snapshot Redact_Tests Build_Id_Tests
begin

text \<open>
  The unit tests of \<open>src/snapshot.rs\<close>, translated, on the file system of their fixture. The
  directory lister and the archive format are parameters, as in \<open>Snapshot\<close>.
\<close>

section \<open>The fixture\<close>

definition fixture_base :: "int \<Rightarrow> path" where "fixture_base pid = proc_base ''/d'' pid"

definition fixture :: "int \<Rightarrow> (string \<times> bytes) list \<Rightarrow> bytes \<Rightarrow> fs" where
  "fixture pid files bid =
     (let base = fixture_base pid
      in (fold (\<lambda>(name, bs) s. s(path_join base name \<mapsto> File bs mode_644)) files Map.empty)
           (''/d/the-binary'' \<mapsto> File (synthetic_elf_with_build_id bid) mode_644,
            path_join base ''exe'' \<mapsto> Symlink ''/d/the-binary'', path_join base ''fd'' \<mapsto> Dir mode_755,
            path_join (path_join base ''fd'') ''3'' \<mapsto> Symlink ''/d/the-binary''))"

definition by_name :: "proc_snapshot \<Rightarrow> string \<Rightarrow> bytes option" where
  "by_name snap = map_of (rev (map (\<lambda>f. (sf_name f, sf_bytes f)) (sn_files snap)))"

definition truncated_manifest :: "(bytes \<Rightarrow> (string \<times> nat \<times> bytes) list option) \<Rightarrow> bytes \<Rightarrow> string option" where
  "truncated_manifest untar tar_bytes =
     Option.bind (untar tar_bytes) (\<lambda>es. map_option (\<lambda>(_, _, bs). bs) (find (\<lambda>(name, _, _). name = ''TRUNCATED'') es))"

definition fixture_ls :: "int \<Rightarrow> string list \<Rightarrow> dir_lister" where
  "fixture_ls pid names = (\<lambda>d. if d = path_join (fixture_base pid) ''fd'' then Some (map Some names) else None)"

abbreviation captured :: "bool \<Rightarrow> dir_lister \<Rightarrow> int \<Rightarrow> fs \<Rightarrow> (proc_snapshot \<Rightarrow> bool) \<Rightarrow> bool" where
  "captured chk ls pid s P \<equiv>
     (case capture chk no_faults ls s ''/d'' pid redactor_default of Some (Got snap) \<Rightarrow> P snap | _ \<Rightarrow> False)"

section \<open>The tests\<close>

definition captures_proc_files_redacts_environ_and_cmdline_and_reads_build_id :: "bool \<Rightarrow> bool" where
  "captures_proc_files_redacts_environ_and_cmdline_and_reads_build_id chk \<longleftrightarrow>
     captured chk (fixture_ls 4242 [''3'']) 4242
       (fixture 4242
          [(''maps'', ''00400000-0040b000 r-xp 00000000 fd:00 12 /bin/app''),
           (''status'', ''Name:'' @ [CHR 0x09] @ ''app'' @ [newline] @ ''State:'' @ [CHR 0x09] @ ''Z (zombie)'' @ [newline]),
           (''cmdline'', environ [''app'', ''--flag'', ''--db-password=hunter2'']),
           (''environ'', environ [''DB_PASSWORD=hunter2'', ''LANG=en_US.UTF-8''])]
          [CHR 0xAB, CHR 0xCD, CHR 0xEF])
       (\<lambda>snap. by_name snap ''maps'' = Some ''00400000-0040b000 r-xp 00000000 fd:00 12 /bin/app'' \<and>
          by_name snap ''environ'' = Some (environ [''DB_PASSWORD=<redacted>'', ''LANG=en_US.UTF-8'']) \<and>
          by_name snap ''cmdline'' = Some (environ [''app'', ''--flag'', ''--db-password=<redacted>'']) \<and>
          (\<exists>fd. by_name snap ''fd'' = Some fd \<and> starts_with ''3 -> '' fd) \<and> by_name snap ''exe'' \<noteq> None \<and>
          sn_build_id snap = Some ''abcdef'')"

definition reads_build_id_through_the_exe_symlink_not_its_target_path :: "bool \<Rightarrow> bool" where
  "reads_build_id_through_the_exe_symlink_not_its_target_path chk \<longleftrightarrow>
     captured chk (\<lambda>_. None) 42
       [''/d/42/maps'' \<mapsto> File ''x'' mode_644,
        ''/d/42/the-binary'' \<mapsto> File (synthetic_elf_with_build_id [CHR 0xFE, CHR 0xED, CHR 0xFA]) mode_644,
        ''/d/42/exe'' \<mapsto> Symlink ''the-binary'']
       (\<lambda>snap. sn_build_id snap = Some ''feedfa'')"

definition skips_absent_files_without_failing :: "bool \<Rightarrow> bool" where
  "skips_absent_files_without_failing chk \<longleftrightarrow>
     captured chk (fixture_ls 7 [''3'']) 7 (fixture 7 [(''maps'', ''x'')] [CHR 0x01])
       (\<lambda>snap. ''maps'' \<in> set (map sf_name (sn_files snap)) \<and> ''smaps'' \<notin> set (map sf_name (sn_files snap)))"

definition a_file_of_exactly_the_cap_is_not_truncated ::
  "'b tar_lib \<Rightarrow> (bytes \<Rightarrow> (string \<times> nat \<times> bytes) list option) \<Rightarrow> bool \<Rightarrow> bool" where
  "a_file_of_exactly_the_cap_is_not_truncated lib untar chk \<longleftrightarrow>
     captured chk (fixture_ls 17 [''3'']) 17 (fixture 17 [(''smaps'', replicate MAX_FILE_BYTES (CHR ''x''))] [CHR 0x05])
       (\<lambda>snap. (case find (\<lambda>f. sf_name f = ''smaps'') (sn_files snap) of
            None \<Rightarrow> False | Some smaps \<Rightarrow> length (sf_bytes smaps) = MAX_FILE_BYTES \<and> \<not> sf_truncated smaps) \<and>
          (\<forall>out. to_tar lib snap = Some out \<longrightarrow> truncated_manifest untar out = None))"

definition caps_large_file_and_flags_truncation ::
  "'b tar_lib \<Rightarrow> (bytes \<Rightarrow> (string \<times> nat \<times> bytes) list option) \<Rightarrow> bool \<Rightarrow> bool" where
  "caps_large_file_and_flags_truncation lib untar chk \<longleftrightarrow>
     captured chk (fixture_ls 11 [''3'']) 11 (fixture 11 [(''smaps'', replicate (MAX_FILE_BYTES + 100) (CHR ''x''))] [CHR 0x03])
       (\<lambda>snap. (case find (\<lambda>f. sf_name f = ''smaps'') (sn_files snap) of
            None \<Rightarrow> False | Some smaps \<Rightarrow> length (sf_bytes smaps) = MAX_FILE_BYTES \<and> sf_truncated smaps) \<and>
          (\<forall>out. to_tar lib snap = Some out \<longrightarrow> truncated_manifest untar out = Some ''smaps''))"

text \<open>In whatever order the directory lists the descriptor 3 and the \<open>MAX_FD_ENTRIES + 1\<close> others.\<close>

definition caps_fd_listing_and_flags_truncation ::
  "'b tar_lib \<Rightarrow> (bytes \<Rightarrow> (string \<times> nat \<times> bytes) list option) \<Rightarrow> string list \<Rightarrow> bool \<Rightarrow> bool" where
  "caps_fd_listing_and_flags_truncation lib untar names chk \<longleftrightarrow>
     captured chk (fixture_ls 13 names) 13
       (fold (\<lambda>n s. s(path_join (path_join (fixture_base 13) ''fd'') n \<mapsto> Symlink ''/dev/null''))
          (map (\<lambda>i. show_nat (i + 100)) [0..<MAX_FD_ENTRIES + 1]) (fixture 13 [(''maps'', ''x'')] [CHR 0x04]))
       (\<lambda>snap. (case find (\<lambda>f. sf_name f = ''fd'') (sn_files snap) of
            None \<Rightarrow> False
          | Some fd \<Rightarrow> sf_truncated fd \<and>
              (\<exists>lines. sf_bytes fd = str_join [newline] lines \<and> length lines = MAX_FD_ENTRIES + 1 \<and>
                 last lines = ''... showing '' @ show_nat MAX_FD_ENTRIES @ '' of '' @ show_nat (MAX_FD_ENTRIES + 2) @ '' fds'')) \<and>
          (\<forall>out. to_tar lib snap = Some out \<longrightarrow> truncated_manifest untar out = Some ''fd''))"

definition renders_a_readable_tar_bundle ::
  "'b tar_lib \<Rightarrow> (bytes \<Rightarrow> (string \<times> nat \<times> bytes) list option) \<Rightarrow> bool \<Rightarrow> bool" where
  "renders_a_readable_tar_bundle lib untar chk \<longleftrightarrow>
     captured chk (fixture_ls 9 [''3'']) 9 (fixture 9 [(''maps'', ''map-bytes''), (''environ'', environ [''A=1''])] [CHR 0x02])
       (\<lambda>snap. \<forall>out. to_tar lib snap = Some out \<longrightarrow>
          (\<exists>es. untar out = Some es \<and> map_of (rev (map (\<lambda>(n, _, b). (n, b)) es)) ''maps'' = Some ''map-bytes'' \<and>
             length es = length (sn_files snap)))"

section \<open>What is read below the fixture's process directory\<close>

lemma starts_slash [simp]: "starts_with ''/'' (show_int pid) = False" "starts_with ''/'' (c # s) = (c = CHR ''/'')"
proof -
  obtain c cs where "show_int pid = c # cs" by (cases "show_int pid") auto
  moreover have "c \<noteq> CHR ''/''" using show_int_no_slash [of pid] calculation by auto
  ultimately show "starts_with ''/'' (show_int pid) = False" by (simp add: starts_with_def)
qed (simp add: starts_with_def)

lemma ends_slash [simp]: "xs \<noteq> [] \<Longrightarrow> ends_with ''/'' xs \<longleftrightarrow> last xs = CHR ''/''"
  by (auto simp: ends_with_iff) (metis append_butlast_last_id)

lemma show_int_last: "last (show_int pid) \<noteq> CHR ''/''"
  by (metis last_in_set show_int_neq_Nil show_int_no_slash)

lemma fixture_base_eq: "fixture_base pid = ''/d/'' @ show_int pid"
  by (simp add: fixture_base_def proc_base_def path_join_def is_absolute_def)

lemma fixture_join: "name \<noteq> [] \<Longrightarrow> hd name \<noteq> CHR ''/'' \<Longrightarrow> path_join (fixture_base pid) name = fixture_base pid @ ''/'' @ name"
  using show_int_last [of pid] by (cases name) (simp_all add: fixture_base_eq path_join_def is_absolute_def)

lemma fixture_join_fd: "n \<noteq> [] \<Longrightarrow> hd n \<noteq> CHR ''/'' \<Longrightarrow> path_join (fixture_base pid @ ''/fd'') n = fixture_base pid @ ''/fd/'' @ n"
  by (cases n) (simp_all add: path_join_def is_absolute_def)

lemma fixture_elsewhere: "fixture_base pid @ ''/'' @ name \<noteq> ''/d/the-binary''"
proof
  assume "fixture_base pid @ ''/'' @ name = ''/d/the-binary''"
  then have "show_int pid @ CHR ''/'' # name = ''the-binary''" by (simp add: fixture_base_eq)
  then have "CHR ''/'' \<in> set ''the-binary''" by (metis in_set_conv_decomp)
  then show False by simp
qed

lemma fold_files:
  "fold (\<lambda>(n, b) s. s(base @ CHR ''/'' # n \<mapsto> File b k)) files s (base @ CHR ''/'' # name) =
     (case map_of (rev files) name of Some b \<Rightarrow> Some (File b k) | None \<Rightarrow> s (base @ CHR ''/'' # name))"
  by (induction files arbitrary: s) (auto simp: map_add_def split: option.splits)

definition plain_names :: "string list" where "plain_names = SIMPLE_FILES @ [''environ'', ''cmdline'']"

lemma fixture_plain:
  assumes "list_all (\<lambda>(n, _). n \<in> set plain_names) files" "name \<in> set plain_names"
  shows "fixture pid files bid (path_join (fixture_base pid) name) = map_option (\<lambda>b. File b mode_644) (map_of (rev files) name)"
proof -
  have n: "n \<noteq> [] \<and> hd n \<noteq> CHR ''/'' \<and> n \<notin> {''exe'', ''fd'', ''fd/3''}" if "n \<in> set plain_names" for n
    using that by (auto simp: plain_names_def SIMPLE_FILES_def)
  have "fold (\<lambda>(name, bs) s. s(path_join (fixture_base pid) name \<mapsto> File bs mode_644)) files Map.empty =
      fold (\<lambda>(name, bs) s. s(fixture_base pid @ ''/'' @ name \<mapsto> File bs mode_644)) files Map.empty"
    by (rule fold_cong) (use assms(1) n fixture_join in \<open>auto simp: list_all_iff\<close>)
  then have "fixture pid files bid (path_join (fixture_base pid) name) =
      fold (\<lambda>(name, bs) s. s(fixture_base pid @ ''/'' @ name \<mapsto> File bs mode_644)) files Map.empty (fixture_base pid @ ''/'' @ name)"
    using n [OF assms(2)] fixture_elsewhere [of pid name]
    by (simp add: fixture_def fixture_join fixture_join_fd Let_def)
  then show ?thesis by (simp add: fold_files split: option.split)
qed

lemma fixture_exe:
  "fixture pid files bid (path_join (fixture_base pid) ''exe'') = Some (Symlink ''/d/the-binary'')"
  "fixture pid files bid ''/d/the-binary'' = Some (File (synthetic_elf_with_build_id bid) mode_644)"
  using fixture_elsewhere [of pid "''exe''"] fixture_elsewhere [of pid "''fd''"] fixture_elsewhere [of pid "''fd/3''"]
  by (auto simp: fixture_def fixture_join fixture_join_fd Let_def)

text \<open>The build-id is read through the link.\<close>

lemma build_id_through_link:
  assumes "follow s p = Some q" "s q = Some (File (synthetic_elf_with_build_id bid) k)" "length bid < 1000"
  shows "build_id_from_path chk no_faults s p = Some (Got (hex bid))"
proof -
  have "length (synthetic_elf Elf64 bid) \<le> MAX_ELF_PREFIX"
    using synthetic_elf64_fields(1) [of bid] build_id_note_parts(3) [of bid] assms(3) pad4_le [of "length bid"]
    by (simp add: MAX_ELF_PREFIX_def)
  with assms show ?thesis
    by (simp add: build_id_from_path_def fs_read_def node_at_def synthetic_elf_with_build_id_def build_id_synthetic64)
qed

lemma capture_fixture:
  assumes "s (path_join (fixture_base pid) ''exe'') = Some (Symlink ''/d/the-binary'')"
    and "s ''/d/the-binary'' = Some (File (synthetic_elf_with_build_id bid) k)" "length bid < 1000"
  shows "capture chk no_faults ls s ''/d'' pid rd =
    Some (Got \<lparr>sn_host_pid = pid, sn_build_id = Some (hex bid), sn_files = capture_files no_faults ls s (fixture_base pid) rd\<rparr>)"
proof -
  have "follow s (path_join (fixture_base pid) ''exe'') = Some ''/d/the-binary''"
    using assms(1,2) unfolding follow_def by (simp add: eval_nat_numeral path_join_def is_absolute_def)
  from build_id_through_link [OF this assms(2,3), of chk] show ?thesis by (simp add: capture_def fixture_base_def)
qed

definition like_fixture :: "fs \<Rightarrow> int \<Rightarrow> (string \<times> bytes) list \<Rightarrow> bytes \<Rightarrow> bool" where
  "like_fixture s pid files bid \<longleftrightarrow>
     list_all (\<lambda>(n, _). n \<in> set plain_names) files \<and>
     (\<forall>name\<in>set (''exe'' # plain_names).
        s (path_join (fixture_base pid) name) = fixture pid files bid (path_join (fixture_base pid) name))"

lemma fixture_read:
  assumes "like_fixture s pid files bid" "name \<in> set plain_names"
  shows "read_capped no_faults s (path_join (fixture_base pid) name) =
    map_option (\<lambda>b. (take MAX_FILE_BYTES b, MAX_FILE_BYTES < length b)) (map_of (rev files) name)"
proof -
  have "s (path_join (fixture_base pid) name) = map_option (\<lambda>b. File b mode_644) (map_of (rev files) name)"
    using fixture_plain [of files name pid bid] assms by (simp add: like_fixture_def)
  then show ?thesis
    by (cases "map_of (rev files) name") (auto simp: read_capped_def fs_read_def node_at_plain Let_def min_def)
qed

text \<open>The files of a snapshot of the fixture, the listing of the descriptors left open.\<close>

lemma fixture_files:
  assumes "like_fixture s pid files bid"
  shows "capture_files no_faults ls s (fixture_base pid) rd =
    concat (map (\<lambda>name. snapshot_entry name id
      (map_option (\<lambda>b. (take MAX_FILE_BYTES b, MAX_FILE_BYTES < length b)) (map_of (rev files) name))) SIMPLE_FILES) @
    snapshot_entry ''environ'' (redact_environ rd)
      (map_option (\<lambda>b. (take MAX_FILE_BYTES b, MAX_FILE_BYTES < length b)) (map_of (rev files) ''environ'')) @
    snapshot_entry ''cmdline'' (redact_cmdline rd)
      (map_option (\<lambda>b. (take MAX_FILE_BYTES b, MAX_FILE_BYTES < length b)) (map_of (rev files) ''cmdline'')) @
    snapshot_entry ''fd'' id (read_fd_listing no_faults ls s (path_join (fixture_base pid) ''fd'')) @
    [\<lparr>sf_name = ''exe'', sf_bytes = ''/d/the-binary'', sf_truncated = False\<rparr>]"
proof -
  have "utf8_lossy ''/d/the-binary'' = ''/d/the-binary''" by code_simp
  moreover have "s (path_join (fixture_base pid) ''exe'') = Some (Symlink ''/d/the-binary'')"
    using assms fixture_exe(1) by (simp add: like_fixture_def)
  ultimately have "snapshot_entry ''exe'' id (map_option (\<lambda>t. (utf8_lossy t, False))
      (read_link no_faults s (path_join (fixture_base pid) ''exe''))) =
    [\<lparr>sf_name = ''exe'', sf_bytes = ''/d/the-binary'', sf_truncated = False\<rparr>]"
    by (simp add: snapshot_entry_def read_link_def)
  moreover have "set SIMPLE_FILES \<subseteq> set plain_names" "''environ'' \<in> set plain_names" "''cmdline'' \<in> set plain_names"
    by (auto simp: plain_names_def)
  ultimately show ?thesis
    using fixture_read [OF assms] by (simp add: capture_files_def subset_iff cong: map_cong)
qed

lemma like_itself: "list_all (\<lambda>(n, _). n \<in> set plain_names) files \<Longrightarrow> like_fixture (fixture pid files bid) pid files bid"
  by (simp add: like_fixture_def)

lemmas fixture_own_files = fixture_files [OF like_itself]

lemma fixture_fd:
  "read_fd_listing no_faults (fixture_ls pid [''3'']) (fixture pid files bid) (path_join (fixture_base pid) ''fd'') =
    Some (''3 -> /d/the-binary'', False)"
proof -
  have "utf8_lossy ''3'' = ''3''" "utf8_lossy ''/d/the-binary'' = ''/d/the-binary''" by code_simp+
  moreover have "fixture pid files bid (path_join (path_join (fixture_base pid) ''fd'') ''3'') = Some (Symlink ''/d/the-binary'')"
    by (simp add: fixture_def Let_def)
  ultimately show ?thesis
    by (simp add: read_fd_listing_def fixture_ls_def MAX_FD_ENTRIES_def fd_line_def read_link_def)
qed

section \<open>The model passes the tests\<close>

lemma snapshot_content_tests:
  "captures_proc_files_redacts_environ_and_cmdline_and_reads_build_id chk" "skips_absent_files_without_failing chk"
proof -
  have h: "hex [CHR 0xAB, CHR 0xCD, CHR 0xEF] = ''abcdef''" by code_simp
  have rd: "redact_environ redactor_default (environ [''DB_PASSWORD=hunter2'', ''LANG=en_US.UTF-8'']) =
      environ [''DB_PASSWORD=<redacted>'', ''LANG=en_US.UTF-8'']"
    "redact_cmdline redactor_default (environ [''app'', ''--flag'', ''--db-password=hunter2'']) =
      environ [''app'', ''--flag'', ''--db-password=<redacted>'']"
    by code_simp+
  have len: "length (environ [''DB_PASSWORD=hunter2'', ''LANG=en_US.UTF-8'']) = 37"
    "length (environ [''app'', ''--flag'', ''--db-password=hunter2'']) = 33" by (simp_all add: environ_def)
  show "captures_proc_files_redacts_environ_and_cmdline_and_reads_build_id chk"
    by (simp add: captures_proc_files_redacts_environ_and_cmdline_and_reads_build_id_def capture_fixture [OF fixture_exe] h
        fixture_own_files plain_names_def SIMPLE_FILES_def fixture_fd snapshot_entry_def MAX_FILE_BYTES_def len by_name_def rd starts_with_def
        del: hex.simps)
  show "skips_absent_files_without_failing chk"
    by (simp add: skips_absent_files_without_failing_def capture_fixture [OF fixture_exe]
        fixture_own_files plain_names_def SIMPLE_FILES_def fixture_fd snapshot_entry_def)
qed

lemma snapshot_link_test: "reads_build_id_through_the_exe_symlink_not_its_target_path chk"
proof -
  let ?s = "[''/d/42/maps'' \<mapsto> File ''x'' mode_644,
      ''/d/42/the-binary'' \<mapsto> File (synthetic_elf_with_build_id [CHR 0xFE, CHR 0xED, CHR 0xFA]) mode_644,
      ''/d/42/exe'' \<mapsto> Symlink ''the-binary''] :: fs"
  have p: "path_join (proc_base ''/d'' 42) ''exe'' = ''/d/42/exe''" "path_join (unwrap_or (path_parent ''/d/42/exe'') []) ''the-binary'' = ''/d/42/the-binary''"
    "hex [CHR 0xFE, CHR 0xED, CHR 0xFA] = ''feedfa''"
    by code_simp+
  have "follow ?s ''/d/42/exe'' = Some ''/d/42/the-binary''"
    using p(2) unfolding follow_def by (simp add: eval_nat_numeral)
  from build_id_through_link [OF this, of "[CHR 0xFE, CHR 0xED, CHR 0xFA]" mode_644 chk] show ?thesis
    by (simp add: reads_build_id_through_the_exe_symlink_not_its_target_path_def capture_def p del: hex.simps)
qed

text \<open>The entry that names the cut files is found in the archive exactly when there are any.\<close>

lemma truncated_manifest_eq:
  assumes "tar_ok lib untar" "to_tar lib snap = Some out" "''TRUNCATED'' \<notin> set (map sf_name (sn_files snap))"
  shows "truncated_manifest untar out =
    (if truncated_names snap = [] then None else Some (str_join [newline] (truncated_names snap)))"
proof -
  have "find (\<lambda>(name, _, _). name = ''TRUNCATED'') (map (\<lambda>(n, b). (n, mode_600, b)) (map (\<lambda>f. (sf_name f, sf_bytes f)) fs) @ xs) =
      find (\<lambda>(name, _, _). name = ''TRUNCATED'') xs" if "''TRUNCATED'' \<notin> set (map sf_name fs)" for fs xs
    using that by (induction fs) auto
  note f = this [OF assms(3)]
  show ?thesis
    using to_tar_reads_back [OF assms(1,2)] unfolding truncated_manifest_def tar_entries_def map_append
    by (simp add: f del: map_map)
qed

lemma snapshot_archive_tests:
  assumes "tar_ok lib untar"
  shows "a_file_of_exactly_the_cap_is_not_truncated lib untar chk" "caps_large_file_and_flags_truncation lib untar chk"
    "renders_a_readable_tar_bundle lib untar chk"
proof -
  note t = truncated_manifest_eq [OF assms]
  show "a_file_of_exactly_the_cap_is_not_truncated lib untar chk"
    by (simp add: a_file_of_exactly_the_cap_is_not_truncated_def capture_fixture [OF fixture_exe] fixture_own_files plain_names_def
        SIMPLE_FILES_def fixture_fd snapshot_entry_def t truncated_names_def)
  show "caps_large_file_and_flags_truncation lib untar chk"
    by (simp add: caps_large_file_and_flags_truncation_def capture_fixture [OF fixture_exe] fixture_own_files plain_names_def
        SIMPLE_FILES_def fixture_fd snapshot_entry_def t truncated_names_def)
  have e: "environ [''A=1''] = [CHR ''A'', CHR ''='', CHR ''1'', nul]" by (simp add: environ_def)
  show "renders_a_readable_tar_bundle lib untar chk"
    using to_tar_reads_back [OF assms]
    by (auto simp: renders_a_readable_tar_bundle_def capture_fixture [OF fixture_exe] fixture_own_files plain_names_def e
        SIMPLE_FILES_def fixture_fd snapshot_entry_def MAX_FILE_BYTES_def tar_entries_def truncated_names_def)
qed

lemma snapshot_fd_test:
  assumes "tar_ok lib untar" "length names = MAX_FD_ENTRIES + 2"
  shows "caps_fd_listing_and_flags_truncation lib untar names chk"
proof -
  let ?b = "fixture_base 13" and ?f = "fixture 13 [(''maps'', ''x'')] [CHR 0x04]"
  let ?ln = "\<lambda>n s. s(path_join (path_join ?b ''fd'') n \<mapsto> Symlink ''/dev/null'')"
  define s where "s = fold ?ln (map (\<lambda>i. show_nat (i + 100)) [0..<MAX_FD_ENTRIES + 1]) ?f"
  have join: "path_join (path_join ?b ''fd'') (show_nat i) = ?b @ ''/fd/'' @ show_nat i" for i
  proof -
    have "hd (show_nat i) \<noteq> CHR ''/''"
      using show_nat_digits [of "hd (show_nat i)" i] by (auto simp: is_ascii_digit_def)
    then show ?thesis by (simp add: fixture_join fixture_join_fd)
  qed
  have keep: "fold ?ln (map (\<lambda>i. show_nat (i + 100)) xs) t p = t p" if "\<And>n. p \<noteq> ?b @ ''/fd/'' @ n" for p xs t
    using that by (induction xs arbitrary: t) (simp_all add: join)
  have other: "s p = ?f p" if "\<And>n. p \<noteq> ?b @ ''/fd/'' @ n" for p unfolding s_def by (rule keep) (rule that)
  have "like_fixture s 13 [(''maps'', ''x'')] [CHR 0x04]"
    by (auto simp: like_fixture_def plain_names_def SIMPLE_FILES_def fixture_join intro!: other)
  note files = fixture_files [OF this]
  have exe: "s (path_join ?b ''exe'') = Some (Symlink ''/d/the-binary'')"
    using other [of "?b @ ''/exe''"] fixture_exe(1) [of 13 "[(''maps'', ''x'')]" "[CHR 0x04]"] by (simp add: fixture_join)
  have bin: "s ''/d/the-binary'' = Some (File (synthetic_elf_with_build_id [CHR 0x04]) mode_644)"
    using other [of "''/d/the-binary''"] fixture_elsewhere [of 13] fixture_exe(2) [of 13 "[(''maps'', ''x'')]" "[CHR 0x04]"]
    by (metis append_Cons append_Nil)
  have rdn: "readable (map Some ns) = ns" for ns by (induction ns) simp_all
  have n: "MAX_FD_ENTRIES + 2 = length (readable (map Some names))" using assms(2) by (simp add: rdn)
  have ls: "fixture_ls 13 names (path_join ?b ''fd'') = Some (map Some names)" by (simp add: fixture_ls_def)
  from fd_listing_complete [of "fixture_ls 13 names" "path_join ?b ''fd''" "map Some names" "MAX_FD_ENTRIES + 2" no_faults s, OF ls n] obtain lines :: "(nat \<times> string) list" where
    l: "read_fd_listing no_faults (fixture_ls 13 names) s (path_join ?b ''fd'') =
      Some (str_join [newline] (map snd lines @ [''... showing '' @ show_nat MAX_FD_ENTRIES @ '' of '' @ show_nat (MAX_FD_ENTRIES + 2) @ '' fds'']), True)"
    and m: "mset lines = mset (map (\<lambda>f. (fd_number (utf8_lossy f), fd_line no_faults s (path_join ?b ''fd'') f)) (take MAX_FD_ENTRIES names))"
    by (auto simp: rdn)
  have len: "length lines = MAX_FD_ENTRIES" using arg_cong [OF m, of size] assms(2) by simp
  define listing where "listing = str_join [newline] (map snd lines @ [''... showing '' @ show_nat MAX_FD_ENTRIES @ '' of '' @ show_nat (MAX_FD_ENTRIES + 2) @ '' fds''])"
  have cf: "capture_files no_faults (fixture_ls 13 names) s ?b redactor_default =
      [\<lparr>sf_name = ''maps'', sf_bytes = ''x'', sf_truncated = False\<rparr>, \<lparr>sf_name = ''fd'', sf_bytes = listing, sf_truncated = True\<rparr>,
       \<lparr>sf_name = ''exe'', sf_bytes = ''/d/the-binary'', sf_truncated = False\<rparr>]"
    using l by (simp add: files SIMPLE_FILES_def snapshot_entry_def MAX_FILE_BYTES_def listing_def)
  have "\<exists>xs. listing = str_join [newline] xs \<and> length xs = MAX_FD_ENTRIES + 1 \<and>
      last xs = ''... showing '' @ show_nat MAX_FD_ENTRIES @ '' of '' @ show_nat (MAX_FD_ENTRIES + 2) @ '' fds''"
    unfolding listing_def by (rule exI, rule conjI, rule refl) (simp add: len)
  moreover have "capture chk no_faults (fixture_ls 13 names) s ''/d'' 13 redactor_default =
      Some (Got \<lparr>sn_host_pid = 13, sn_build_id = Some (hex [CHR 0x04]), sn_files = capture_files no_faults (fixture_ls 13 names) s ?b redactor_default\<rparr>)"
    by (rule capture_fixture [OF exe bin]) simp
  ultimately show ?thesis
    unfolding caps_fd_listing_and_flags_truncation_def s_def [symmetric]
    by (simp add: cf truncated_manifest_eq [OF assms(1)] truncated_names_def del: hex.simps)
qed

end
