(* ===== verification/Handler_Tests.thy ===== *)
theory Handler_Tests
  imports Handler
begin

text \<open>
  The unit tests of \<open>src/handler.rs\<close>, translated; all but the last, which is a test of \<open>chrono\<close>,
  are evaluated.
\<close>

definition accepts_a_non_utf8_exe :: bool where
  "accepts_a_non_utf8_exe \<longleftrightarrow>
     (case capture_args_parse [''4242'', ''11'', ''1749600000'', ''!usr!bin!app'' @ [CHR 0xFF, CHR 0xFE]] of
        Inl _ \<Rightarrow> False
      | Inr parsed \<Rightarrow>
          ca_exe parsed = ''!usr!bin!app'' @ [CHR 0xEF, CHR 0xBF, CHR 0xBD, CHR 0xEF, CHR 0xBF, CHR 0xBD] \<and>
          ca_host_pid parsed = 4242)"

definition rejects_a_non_utf8_number :: bool where
  "rejects_a_non_utf8_number \<longleftrightarrow> isl (capture_args_parse [''42'' @ [CHR 0xFF], ''11'', ''0'', ''exe''])"

definition parses_the_kernel_arg_template :: bool where
  "parses_the_kernel_arg_template \<longleftrightarrow>
     capture_args_parse [''4242'', ''11'', ''1749600000'', ''!usr!bin!app''] =
       Inr \<lparr>ca_host_pid = 4242, ca_signal = 11, ca_timestamp = 1749600000, ca_exe = ''!usr!bin!app''\<rparr>"

definition rejects_wrong_arity :: bool where
  "rejects_wrong_arity \<longleftrightarrow>
     isl (capture_args_parse [''1'', ''2'', ''3'']) \<and> isl (capture_args_parse [''1'', ''2'', ''3'', ''x'', ''extra''])"

definition rejects_non_numeric_fields :: bool where
  "rejects_non_numeric_fields \<longleftrightarrow>
     isl (capture_args_parse [''notapid'', ''11'', ''0'', ''exe'']) \<and> isl (capture_args_parse [''1'', ''sig'', ''0'', ''exe''])"

definition signal_names_cover_common_faults :: bool where
  "signal_names_cover_common_faults \<longleftrightarrow>
     signal_name 11 = Some ''SIGSEGV'' \<and> signal_name 6 = Some ''SIGABRT'' \<and> signal_name 8 = Some ''SIGFPE'' \<and>
     signal_name 4 = Some ''SIGILL'' \<and> signal_name 7 = Some ''SIGBUS'' \<and> signal_name 99 = None"

definition format_timestamp_produces_rfc3339 :: "(int \<Rightarrow> string option) \<Rightarrow> bool" where
  "format_timestamp_produces_rfc3339 rfc3339 \<longleftrightarrow>
     format_timestamp rfc3339 0 = ''1970-01-01T00:00:00+00:00'' \<and> format_timestamp rfc3339 1749600000 = ''2025-06-11T00:00:00+00:00''"

lemma parse_seconds: "parse_number i64_min i64_max ''1749600000'' = Some 1749600000"
proof -
  have "utf8_valid ''1749600000''" by code_simp
  moreover have "parse_signed i64_min i64_max ''1749600000'' = Some 1749600000"
    by (simp add: parse_signed_def parse_nat_def is_ascii_digit_def digit_val_def i64_min_def i64_max_def)
  ultimately show ?thesis by (simp add: parse_number_def)
qed

lemma parse_pid: "parse_number i32_min i32_max ''4242'' = Some 4242"
proof -
  have "utf8_valid ''4242''" by code_simp
  moreover have "parse_signed i32_min i32_max ''4242'' = Some 4242"
    by (simp add: parse_signed_def parse_nat_def is_ascii_digit_def digit_val_def i32_min_def i32_max_def)
  ultimately show ?thesis by (simp add: parse_number_def)
qed

lemma handler_tests:
  "accepts_a_non_utf8_exe" "rejects_a_non_utf8_number" "parses_the_kernel_arg_template" "rejects_wrong_arity"
  "rejects_non_numeric_fields" "signal_names_cover_common_faults"
proof -
  have sig: "parse_number i32_min i32_max ''11'' = Some 11" by code_simp
  have exe: "utf8_lossy (''!usr!bin!app'' @ [CHR 0xFF, CHR 0xFE]) = ''!usr!bin!app'' @ [CHR 0xEF, CHR 0xBF, CHR 0xBD, CHR 0xEF, CHR 0xBF, CHR 0xBD]"
    "utf8_lossy ''!usr!bin!app'' = ''!usr!bin!app''" by code_simp+
  show "accepts_a_non_utf8_exe" "parses_the_kernel_arg_template"
    using exe by (simp_all add: accepts_a_non_utf8_exe_def parses_the_kernel_arg_template_def capture_args_parse_def parse_seconds parse_pid sig)
  show "rejects_a_non_utf8_number" "rejects_wrong_arity" "rejects_non_numeric_fields" "signal_names_cover_common_faults"
    by code_simp+
qed

lemma timestamp_test:
  assumes "rfc3339 0 = Some ''1970-01-01T00:00:00+00:00''" "rfc3339 1749600000 = Some ''2025-06-11T00:00:00+00:00''"
  shows "format_timestamp_produces_rfc3339 rfc3339"
  using assms by (simp add: format_timestamp_produces_rfc3339_def format_timestamp_def)

end
