(* ===== verification/K8s_Events_Tests.thy ===== *)
theory K8s_Events_Tests
  imports K8s_Events
begin

text \<open>
  The unit tests of \<open>src/k8s_events.rs\<close>, translated, with the model's \<open>url\<close>, \<open>reqwest\<close> and \<open>chrono\<close> as
  parameters; where a test turns on one of these, the lemma that the model passes it names
  what it takes from them. Times are nanoseconds from the first one of the test.
\<close>

section \<open>Fixtures\<close>

definition test_event :: "string \<Rightarrow> string \<Rightarrow> capture_event" where
  "test_event namespace pod_uid =
     \<lparr>ce_namespace = Some namespace, ce_pod_name = Some ''my-pod'', ce_pod_uid = Some pod_uid, ce_container_id = Some ''def456'',
      ce_container_name = Some ''app'', ce_host_pid = 4242, ce_exe = ''server'', ce_signal = 11, ce_signal_name = Some ''SIGSEGV'',
      ce_outcome = Uploaded, ce_manifest_key = Some ''local/abc-123/def456/1234567890-manifest.json'', ce_core_bytes = 4096,
      ce_stored_bytes = Some 1024, ce_truncated = False, ce_error = None, ce_timestamp = 1749600000\<rparr>"

definition test_key :: "string \<Rightarrow> reason \<Rightarrow> agg_key" where
  "test_key pod_uid r = \<lparr>ak_namespace = ''default'', ak_pod_uid = pod_uid, ak_reason = r\<rparr>"

text \<open>The temporary directory is \<open>/t\<close>; \<open>pre\<close> prepares it.\<close>

definition bind_in_temp_dir :: "(fs \<Rightarrow> fs) \<Rightarrow> (io_error + unit) \<times> fs" where
  "bind_in_temp_dir pre = bind_socket no_faults ''/t/events.sock'' (pre [''/'' \<mapsto> Dir mode_755, ''/t'' \<mapsto> Dir mode_700])"

definition new_for_test :: "('u, 'c, 'h) http_lib \<Rightarrow> 'h \<Rightarrow> string \<Rightarrow> string \<Rightarrow> ('u, 'h) event_client option" where
  "new_for_test lib http api_server token =
     map_option (\<lambda>base. \<lparr>ec_http = http, ec_events_base = base, ec_token = token\<rparr>) (events_base lib api_server)"

definition TEST_CA_1 :: bytes where
  "TEST_CA_1 = concat (map (\<lambda>l. l @ [newline])
     [''-----BEGIN CERTIFICATE-----'',
      ''MIIBfzCCASWgAwIBAgIUJbJWkLJJqhX+NszCpokTPUg+DE0wCgYIKoZIzj0EAwIw'',
      ''FDESMBAGA1UEAwwJdGVzdC1jYS0xMCAXDTI2MTAyNTE2MTc1NloYDzIxMjYxMDAx'',
      ''MTYxNzU2WjAUMRIwEAYDVQQDDAl0ZXN0LWNhLTEwWTATBgcqhkjOPQIBBggqhkjO'',
      ''PQMBBwNCAAT3smZYjInK1qwoqXGKMQX5RywlkqeTC5fRpgDVwRFxhpKJd3WNE8vQ'',
      ''mgrVZUTi7xyZItEi0U2QXPp9IuLiQInJo1MwUTAdBgNVHQ4EFgQUwASJEzdMF4QZ'',
      ''bjQVQ8bwWlVBtSkwHwYDVR0jBBgwFoAUwASJEzdMF4QZbjQVQ8bwWlVBtSkwDwYD'',
      ''VR0TAQH/BAUwAwEB/zAKBggqhkjOPQQDAgNIADBFAiAaAPKpfQx65kd2zpdXYDQM'',
      ''WCb01nHlU5vOrJ0xdzMbTwIhAIoUy34vYSThgzJ2z6dLPdY6IT8+MjkzoEJH1lS9'',
      ''S4WP'',
      ''-----END CERTIFICATE-----''])"

definition TEST_CA_2 :: bytes where
  "TEST_CA_2 = concat (map (\<lambda>l. l @ [newline])
     [''-----BEGIN CERTIFICATE-----'',
      ''MIIBfzCCASWgAwIBAgIUMx1Z0GqBi7U/bcDVQX0KYFApxtUwCgYIKoZIzj0EAwIw'',
      ''FDESMBAGA1UEAwwJdGVzdC1jYS0yMCAXDTI2MTAyNTE2MTc1NloYDzIxMjYxMDAx'',
      ''MTYxNzU2WjAUMRIwEAYDVQQDDAl0ZXN0LWNhLTIwWTATBgcqhkjOPQIBBggqhkjO'',
      ''PQMBBwNCAAT3mLiKb/NOxIbvlJH9J5wygOjhoxh2Ha34vqcCVUsdozyzzsNEC7sJ'',
      ''lmeJR4hyKlZ4RO35MQhwrl3+Ay6x+Jy9o1MwUTAdBgNVHQ4EFgQUu5B3Fe20Rm8X'',
      ''qoPmEMZWfA8pxUswHwYDVR0jBBgwFoAUu5B3Fe20Rm8XqoPmEMZWfA8pxUswDwYD'',
      ''VR0TAQH/BAUwAwEB/zAKBggqhkjOPQQDAgNIADBFAiEAxvgpt/B7x2CHfvJgQxsz'',
      ''Qk3ftY8cokYo8zDjg7phpOkCICYrIQ0gyWa4NboPK2ncWw/n6IqzPVKisAzgbK5v'',
      ''Kf3s'',
      ''-----END CERTIFICATE-----''])"

definition test_client :: "('u, 'c, 'h) http_lib \<Rightarrow> string \<Rightarrow> ('u, 'h) event_client option" where
  "test_client lib origin = Option.bind (build_http lib TEST_CA_1) (\<lambda>http. new_for_test lib http origin ''test'')"

section \<open>Tests of the aggregator\<close>

definition reason_maps_only_reportable_outcomes :: bool where
  "reason_maps_only_reportable_outcomes \<longleftrightarrow>
     list_all (\<lambda>(oc, r). case reason_from_outcome oc of
         None \<Rightarrow> False | Some got \<Rightarrow> reason_as_str got = r \<and> slug got = to_ascii_lowercase r)
       [(Uploaded, ''CoreDumped''), (SuppressedRateLimit, ''CoreDumpSuppressed''), (NoStoreDiscard, ''CoreDiscardedNoStore'')] \<and>
     reason_from_outcome SkippedNonK8s = None \<and> reason_from_outcome Failed = None"

definition aggregator_bumps_count_for_repeats_within_ttl :: bool where
  "aggregator_bumps_count_for_repeats_within_ttl \<longleftrightarrow>
     (let key = test_key ''abc-123'' CoreDumped; (first, ag1) = agg_record key 0 ''ev-1'' agg_default;
          (second, ag2) = agg_record key (secs 10) ''ev-2'' ag1; (third, _) = agg_record key (secs 20) ''ev-3'' ag2
      in case (first, second, third) of
           (Some r1, Some r2, Some r3) \<Rightarrow>
             rc_is_new r1 \<and> rc_count r1 = 1 \<and> \<not> rc_is_new r2 \<and> rc_count r2 = 2 \<and> rc_event_name r2 = rc_event_name r1 \<and>
             \<not> rc_is_new r3 \<and> rc_count r3 = 3
         | _ \<Rightarrow> False)"

definition aggregator_separates_distinct_keys :: bool where
  "aggregator_separates_distinct_keys \<longleftrightarrow>
     (let (a, ag1) = agg_record (test_key ''pod-a'' CoreDumped) 0 ''a'' agg_default;
          (b, ag2) = agg_record (test_key ''pod-b'' CoreDumped) 0 ''b'' ag1;
          (c, _) = agg_record (test_key ''pod-a'' CoreDumpSuppressed) 0 ''c'' ag2
      in list_all (\<lambda>r. case r of Some rc \<Rightarrow> rc_is_new rc | None \<Rightarrow> False) [a, b, c])"

definition aggregator_re_creates_after_ttl_expiry :: bool where
  "aggregator_re_creates_after_ttl_expiry \<longleftrightarrow>
     (let key = test_key ''abc-123'' CoreDumped; (first, ag1) = agg_record key 0 ''ev-1'' agg_default;
          (renewed, _) = agg_record key (AGGREGATION_TTL + secs 1) ''ev-2'' ag1
      in case (first, renewed) of
           (Some r1, Some r2) \<Rightarrow> rc_is_new r1 \<and> rc_is_new r2 \<and> rc_count r2 = 1 \<and> rc_event_name r2 = ''ev-2''
         | _ \<Rightarrow> False)"

text \<open>The loop of the test: every pod is new.\<close>

fun record_pods :: "nat list \<Rightarrow> aggregator \<Rightarrow> aggregator option" where
  "record_pods [] ag = Some ag"
| "record_pods (i # is) ag =
     (case agg_record (test_key (''pod-'' @ show_nat i) CoreDumped) 0 (''ev-'' @ show_nat i) ag of
        (Some r, ag') \<Rightarrow> if rc_is_new r then record_pods is ag' else None
      | (None, _) \<Rightarrow> None)"

definition aggregator_stops_inserting_new_keys_at_cap :: bool where
  "aggregator_stops_inserting_new_keys_at_cap \<longleftrightarrow>
     (case record_pods [0..<MAX_AGGREGATION_KEYS] agg_default of
        None \<Rightarrow> False
      | Some ag \<Rightarrow>
          length ag = MAX_AGGREGATION_KEYS \<and>
          (let (overflow, ag1) = agg_record (test_key ''overflow'' CoreDumped) 0 ''overflow'' ag;
               (recorded, _) = agg_record (test_key ''pod-0'' CoreDumped) 0 ''should-not-run'' ag1
           in overflow = None \<and> length ag1 = MAX_AGGREGATION_KEYS \<and>
              (case recorded of Some r \<Rightarrow> \<not> rc_is_new r \<and> rc_count r = 2 | None \<Rightarrow> False)))"

definition aggregator_sweep_removes_expired_entries :: bool where
  "aggregator_sweep_removes_expired_entries \<longleftrightarrow>
     (let key = test_key ''abc-123'' CoreDumped; (first, ag1) = agg_record key 0 ''ev-1'' agg_default;
          after_ttl = AGGREGATION_TTL + secs 1; ag2 = agg_sweep after_ttl ag1; (recorded, _) = agg_record key after_ttl ''ev-2'' ag2
      in first \<noteq> None \<and> length ag1 = 1 \<and> ag2 = [] \<and>
         (case recorded of Some r \<Rightarrow> rc_is_new r \<and> rc_event_name r = ''ev-2'' | None \<Rightarrow> False))"

lemmas aggregator_eval = agg_record_def agg_default_def agg_prune_def agg_sweep_def agg_put_def test_key_def
  MAX_AGGREGATION_KEYS_def AGGREGATION_TTL_def secs_def Let_def

lemma aggregator_tests:
  "reason_maps_only_reportable_outcomes" "aggregator_bumps_count_for_repeats_within_ttl" "aggregator_separates_distinct_keys"
  "aggregator_re_creates_after_ttl_expiry" "aggregator_sweep_removes_expired_entries"
proof -
  show "reason_maps_only_reportable_outcomes" by code_simp
  show "aggregator_bumps_count_for_repeats_within_ttl" "aggregator_separates_distinct_keys"
    "aggregator_re_creates_after_ttl_expiry" "aggregator_sweep_removes_expired_entries"
    by (simp_all add: aggregator_bumps_count_for_repeats_within_ttl_def aggregator_separates_distinct_keys_def
        aggregator_re_creates_after_ttl_expiry_def aggregator_sweep_removes_expired_entries_def aggregator_eval)
qed

text \<open>What the loop leaves: the pods in order, each counted once.\<close>

definition pod_entry :: "nat \<Rightarrow> agg_key \<times> agg_entry" where
  "pod_entry i = (test_key (''pod-'' @ show_nat i) CoreDumped, \<lparr>ae_event_name = ''ev-'' @ show_nat i, ae_count = 1, ae_created_at = 0\<rparr>)"

lemma pod_entries:
  "agg_prune 0 (map pod_entry is) = map pod_entry is" "map_of (map pod_entry is) (test_key (''pod-'' @ show_nat i) r) =
    (if r = CoreDumped \<and> i \<in> set is then Some (snd (pod_entry i)) else None)"
  "(\<And>i. pod \<noteq> ''pod-'' @ show_nat i) \<Longrightarrow> map_of (map pod_entry is) (test_key pod r) = None"
proof -
  show "agg_prune 0 (map pod_entry is) = map pod_entry is"
    by (auto simp: agg_prune_def pod_entry_def AGGREGATION_TTL_def secs_def intro!: filter_True)
  show "map_of (map pod_entry is) (test_key (''pod-'' @ show_nat i) r) = (if r = CoreDumped \<and> i \<in> set is then Some (snd (pod_entry i)) else None)"
    by (induction "is") (auto simp: pod_entry_def test_key_def parse_show_nat dest!: arg_cong [where f = parse_nat])
  show "map_of (map pod_entry is) (test_key pod r) = None" if "\<And>i. pod \<noteq> ''pod-'' @ show_nat i"
    using that by (induction "is") (auto simp: pod_entry_def test_key_def)
qed

lemma record_pods_from:
  "n \<le> m \<Longrightarrow> m \<le> MAX_AGGREGATION_KEYS \<Longrightarrow> record_pods [n..<m] (map pod_entry [0..<n]) = Some (map pod_entry [0..<m])"
proof (induction "m - n" arbitrary: n)
  case (Suc k)
  then have "n < m" by simp
  then have "[n..<m] = n # [Suc n..<m]" by (simp add: upt_conv_Cons)
  moreover have "agg_record (test_key (''pod-'' @ show_nat n) CoreDumped) 0 (''ev-'' @ show_nat n) (map pod_entry [0..<n]) =
      (Some \<lparr>rc_event_name = ''ev-'' @ show_nat n, rc_is_new = True, rc_count = 1\<rparr>, map pod_entry [0..<Suc n])"
    using \<open>n < m\<close> Suc.prems(2) pod_entries(2) [of "[0..<n]" n CoreDumped]
    by (simp add: agg_record_def pod_entries(1) Let_def) (simp add: pod_entry_def)
  ultimately show ?case using Suc.hyps(1) [of "Suc n"] Suc.hyps(2) Suc.prems by simp
qed simp

lemma aggregator_cap_test: "aggregator_stops_inserting_new_keys_at_cap"
proof -
  let ?ag = "map pod_entry [0..<MAX_AGGREGATION_KEYS]"
  have r: "record_pods [0..<MAX_AGGREGATION_KEYS] agg_default = Some ?ag"
    using record_pods_from [of 0 MAX_AGGREGATION_KEYS] by (simp add: agg_default_def)
  have "map_of ?ag (test_key ''overflow'' CoreDumped) = None" by (rule pod_entries(3)) simp
  then have o: "agg_record (test_key ''overflow'' CoreDumped) 0 ''overflow'' ?ag = (None, ?ag)"
    by (simp add: agg_record_def pod_entries(1) Let_def)
  have z: "''pod-0'' = ''pod-'' @ show_nat 0" by code_simp
  have "map_of ?ag (test_key ''pod-0'' CoreDumped) = Some (snd (pod_entry 0))"
    unfolding z pod_entries(2) by (simp add: MAX_AGGREGATION_KEYS_def)
  then obtain ag2 where "agg_record (test_key ''pod-0'' CoreDumped) 0 ''should-not-run'' ?ag =
      (Some \<lparr>rc_event_name = ae_event_name (snd (pod_entry 0)), rc_is_new = False, rc_count = 2\<rparr>, ag2)"
    by (simp add: agg_record_def pod_entries(1) Let_def pod_entry_def)
  with r o show ?thesis by (simp add: aggregator_stops_inserting_new_keys_at_cap_def)
qed

section \<open>Tests of names and bodies\<close>

definition rfc3339_micro_always_has_six_fractional_digits :: "(int \<Rightarrow> string option) \<Rightarrow> bool" where
  "rfc3339_micro_always_has_six_fractional_digits micros \<longleftrightarrow> rfc3339_micro micros 1749600000 = ''2025-06-11T00:00:00.000000Z''"

definition event_name_is_dns_subdomain_safe :: bool where
  "event_name_is_dns_subdomain_safe \<longleftrightarrow>
     (let name = event_name ''abc-123-def'' CoreDumped 1749600000
      in name = ''coredrop-abc-123-def-coredumped-1749600000'' \<and>
         list_all (\<lambda>c. is_ascii_lowercase c \<or> is_ascii_digit c \<or> c = CHR ''-'') name)"

definition event_body_targets_the_pod_and_carries_a_decodable_event_time :: "(int \<Rightarrow> string option) \<Rightarrow> bool" where
  "event_body_targets_the_pod_and_carries_a_decodable_event_time micros \<longleftrightarrow>
     (let p = test_event ''default'' ''abc-123'';
          target = \<lparr>et_namespace = ''default'', et_pod_name = ''my-pod'', et_pod_uid = ''abc-123''\<rparr>;
          name = event_name (et_pod_uid target) CoreDumped (ce_timestamp p);
          body = event_body micros ''node-a'' name CoreDumped target p
      in json_index body ''apiVersion'' = JStr ''events.k8s.io/v1'' \<and> json_index body ''kind'' = JStr ''Event'' \<and>
         json_index (json_index body ''metadata'') ''name'' = JStr name \<and>
         json_index (json_index body ''metadata'') ''namespace'' = JStr ''default'' \<and>
         json_index body ''reportingController'' = JStr ''coredrop'' \<and> json_index body ''reportingInstance'' = JStr ''node-a'' \<and>
         json_index body ''reason'' = JStr ''CoreDumped'' \<and> json_index body ''type'' = JStr ''Warning'' \<and>
         json_index body ''eventTime'' = JStr ''2025-06-11T00:00:00.000000Z'' \<and>
         json_index (json_index body ''regarding'') ''kind'' = JStr ''Pod'' \<and>
         json_index (json_index body ''regarding'') ''apiVersion'' = JStr ''v1'' \<and>
         json_index (json_index body ''regarding'') ''namespace'' = JStr ''default'' \<and>
         json_index (json_index body ''regarding'') ''name'' = JStr ''my-pod'' \<and>
         json_index (json_index body ''regarding'') ''uid'' = JStr ''abc-123'')"

definition note_points_at_the_artifacts_when_a_manifest_was_written :: bool where
  "note_points_at_the_artifacts_when_a_manifest_was_written \<longleftrightarrow>
     (let p = test_event ''default'' ''abc-123''; p1 = p\<lparr>ce_manifest_key := None\<rparr>; p2 = p1\<lparr>ce_signal := 31, ce_signal_name := None\<rparr>
      in event_note p = ''core dumped (signal SIGSEGV); artifacts at local/abc-123/def456/1234567890-manifest.json'' \<and>
         event_note p1 = ''core dumped (signal SIGSEGV)'' \<and> event_note p2 = ''core dumped (signal 31)'')"

definition series_patch_carries_the_running_count :: bool where
  "series_patch_carries_the_running_count \<longleftrightarrow>
     (let body = series_patch 7 ''2025-06-11T00:00:00.000000Z''
      in json_index (json_index body ''series'') ''count'' = JNum 7 \<and>
         json_index (json_index body ''series'') ''lastObservedTime'' = JStr ''2025-06-11T00:00:00.000000Z'')"

lemma body_tests:
  "event_name_is_dns_subdomain_safe" "note_points_at_the_artifacts_when_a_manifest_was_written" "series_patch_carries_the_running_count"
proof -
  show "event_name_is_dns_subdomain_safe"
    by (simp add: event_name_is_dns_subdomain_safe_def event_name_def show_int_def show_nat.simps digit_char_def Let_def) code_simp
  show "note_points_at_the_artifacts_when_a_manifest_was_written"
    by (simp add: note_points_at_the_artifacts_when_a_manifest_was_written_def event_note_def payload_signal_def test_event_def
        show_int_def show_nat.simps digit_char_def Let_def) code_simp
  show "series_patch_carries_the_running_count"
    by (simp add: series_patch_carries_the_running_count_def series_patch_def json_index_def enc_word_def Let_def)
qed

lemma time_tests:
  assumes "micros 1749600000 = Some ''2025-06-11T00:00:00.000000Z''"
  shows "rfc3339_micro_always_has_six_fractional_digits micros"
    "event_body_targets_the_pod_and_carries_a_decodable_event_time micros"
  using assms
  by (simp_all add: rfc3339_micro_always_has_six_fractional_digits_def event_body_targets_the_pod_and_carries_a_decodable_event_time_def
      rfc3339_micro_def event_body_def json_index_def test_event_def Let_def)

section \<open>Tests of the socket\<close>

definition bind_socket_replaces_a_stale_socket_file :: bool where
  "bind_socket_replaces_a_stale_socket_file \<longleftrightarrow>
     fst (bind_in_temp_dir (\<lambda>s. s(''/t/events.sock'' \<mapsto> File ''stale'' mode_644))) = Inr ()"

definition bind_socket_creates_a_0700_dir_holding_a_0600_socket :: bool where
  "bind_socket_creates_a_0700_dir_holding_a_0600_socket \<longleftrightarrow>
     (let (r, s) = bind_in_temp_dir id in r = Inr () \<and> s ''/t'' = Some (Dir mode_700) \<and> s ''/t/events.sock'' = Some (Socket mode_600))"

lemma socket_tests: "bind_socket_replaces_a_stale_socket_file" "bind_socket_creates_a_0700_dir_holding_a_0600_socket"
proof -
  have "path_parent ''/t/events.sock'' = Some ''/t''" "path_ancestors ''/t'' = [''/'', ''/t'']" by code_simp+
  then show "bind_socket_replaces_a_stale_socket_file" "bind_socket_creates_a_0700_dir_holding_a_0600_socket"
    by (simp_all add: bind_socket_replaces_a_stale_socket_file_def bind_socket_creates_a_0700_dir_holding_a_0600_socket_def
        bind_in_temp_dir_def bind_socket_def socket_bind_def ensure_private_dir_def create_dir_all_def fs_call_defs is_dir_def
        node_at_plain follow_plain parent_is_dir_def EVENT_SOCKET_MODE_def mode_600_def)
qed

section \<open>Tests of \<open>handle_payload\<close>\<close>

definition test_uid :: string where "test_uid = ''0f1e2d3c-4b5a-6978-8796-a5b4c3d2e1f0''"

definition spoofed :: "(string \<times> string) list" where
  "spoofed =
     [([], test_uid), (replicate (MAX_NAMESPACE_LEN + 1) (CHR ''x''), test_uid), (''kube/system'', test_uid), (''default?x=1'', test_uid),
      (''default%2F'', test_uid), (''..'', test_uid), (''Default'', test_uid), (''-default'', test_uid), (''default-'', test_uid),
      (''default'', []), (''default'', replicate (MAX_POD_UID_LEN + 1) (CHR ''a'')), (''default'', ''0f1e/../2d3c''),
      (''default'', ''0f1e?x=1''), (''default'', ''0f1e%2F''), (''default'', ''..''), (''default'', ''0F1E2D3C'')]"

text \<open>The API server of the tests does not answer.\<close>

definition handle_payload_rejects_invalid_namespace_or_pod_uid ::
  "('u, 'c, 'h) http_lib \<Rightarrow> (int \<Rightarrow> string option) \<Rightarrow> ('u, 'h) event_client \<Rightarrow> nat \<Rightarrow> bool" where
  "handle_payload_rejects_invalid_namespace_or_pod_uid lib micros client now \<longleftrightarrow>
     (let handle = (\<lambda>p ag. handle_payload lib (\<lambda>_. None) micros (Some client) ''test-node'' now p ag)
      in list_all (\<lambda>(namespace, pod_uid). snd (handle (test_event namespace pod_uid) agg_default) = []) spoofed \<and>
         length (snd (handle (test_event ''default'' test_uid) agg_default)) = 1)"

definition handle_payload_skips_a_capture_without_pod_identity ::
  "('u, 'c, 'h) http_lib \<Rightarrow> (int \<Rightarrow> string option) \<Rightarrow> ('u, 'h) event_client \<Rightarrow> nat \<Rightarrow> bool" where
  "handle_payload_skips_a_capture_without_pod_identity lib micros client now \<longleftrightarrow>
     (let p = test_event ''default'' test_uid
      in snd (fold (\<lambda>p (_, ag). handle_payload lib (\<lambda>_. None) micros (Some client) ''test-node'' now p ag)
           [p\<lparr>ce_namespace := None\<rparr>, p\<lparr>ce_pod_name := None\<rparr>, p\<lparr>ce_pod_uid := None\<rparr>] ([], agg_default)) = [])"

lemma event_payload_tests:
  "handle_payload_rejects_invalid_namespace_or_pod_uid lib micros client now"
  "handle_payload_skips_a_capture_without_pod_identity lib micros client now"
proof -
  have bad: "list_all (\<lambda>(namespace, pod_uid). \<not> is_dns1123_label namespace \<or> \<not> is_pod_uid pod_uid) spoofed"
    and good: "is_dns1123_label ''default''" "is_pod_uid test_uid"
    by code_simp+
  have "snd (handle_payload lib net micros (Some client) node now (test_event namespace pod_uid) agg_default) = []"
    if "\<not> is_dns1123_label namespace \<or> \<not> is_pod_uid pod_uid" for net node namespace pod_uid
    using that by (simp add: handle_payload_def test_event_def agg_default_def)
  then have "list_all (\<lambda>(namespace, pod_uid). snd (handle_payload lib net micros (Some client) node now (test_event namespace pod_uid) agg_default) = [])
      spoofed" for net node
    using bad unfolding list_all_iff by fast
  moreover have "length (snd (handle_payload lib net micros (Some client) node now (test_event ''default'' test_uid) agg_default)) = 1" for net node
    using good by (simp add: handle_payload_def test_event_def agg_record_def agg_default_def agg_prune_def MAX_AGGREGATION_KEYS_def)
  ultimately show "handle_payload_rejects_invalid_namespace_or_pod_uid lib micros client now"
    by (simp add: handle_payload_rejects_invalid_namespace_or_pod_uid_def)
  show "handle_payload_skips_a_capture_without_pod_identity lib micros client now"
    by (simp add: handle_payload_skips_a_capture_without_pod_identity_def handle_payload_def test_event_def agg_default_def Let_def)
qed

section \<open>Tests of the client\<close>

definition build_http_trusts_every_cert_in_the_bundle :: "('u, 'c, 'h) http_lib \<Rightarrow> bool" where
  "build_http_trusts_every_cert_in_the_bundle lib \<longleftrightarrow>
     map_option length (hl_pem_bundle lib (TEST_CA_1 @ TEST_CA_2)) = Some 2 \<and> build_http lib (TEST_CA_1 @ TEST_CA_2) \<noteq> None"

definition build_http_rejects_a_bundle_without_certs :: "('u, 'c, 'h) http_lib \<Rightarrow> bool" where
  "build_http_rejects_a_bundle_without_certs lib \<longleftrightarrow> build_http lib [] = None \<and> build_http lib ''not a pem'' = None"

text \<open>\<open>as_str\<close>, \<open>path\<close> and \<open>query\<close> are those of the \<open>url\<close> crate.\<close>

definition events_url_builds_create_and_patch_paths :: "('u, 'c, 'h) http_lib \<Rightarrow> ('u \<Rightarrow> string) \<Rightarrow> bool" where
  "events_url_builds_create_and_patch_paths lib as_string \<longleftrightarrow>
     (case test_client lib ''https://10.0.0.1:443'' of
        None \<Rightarrow> False
      | Some client \<Rightarrow>
          map_option as_string (events_url lib client ''default'' None) =
            Some ''https://10.0.0.1/apis/events.k8s.io/v1/namespaces/default/events'' \<and>
          map_option as_string (events_url lib client ''default'' (Some ''my-event.abc'')) =
            Some ''https://10.0.0.1/apis/events.k8s.io/v1/namespaces/default/events/my-event.abc'')"

definition events_url_encodes_each_segment :: "('u, 'c, 'h) http_lib \<Rightarrow> ('u \<Rightarrow> string) \<Rightarrow> ('u \<Rightarrow> string option) \<Rightarrow> bool" where
  "events_url_encodes_each_segment lib path_str query \<longleftrightarrow>
     (case Option.bind (test_client lib ''https://10.0.0.1:6443'') (\<lambda>client. events_url lib client ''a/b?c%'' (Some ''x/y'')) of
        None \<Rightarrow> False
      | Some url \<Rightarrow> path_str url = ''/apis/events.k8s.io/v1/namespaces/a%2Fb%3Fc%25/events/x%2Fy'' \<and> query url = None)"

definition events_base_keeps_ipv6_brackets :: "('u, 'c, 'h) http_lib \<Rightarrow> ('u \<Rightarrow> string) \<Rightarrow> bool" where
  "events_base_keeps_ipv6_brackets lib as_string \<longleftrightarrow>
     Option.bind (test_client lib ''https://[fd00::1]:6443'') (\<lambda>client. map_option as_string (events_url lib client ''default'' None)) =
       Some ''https://[fd00::1]:6443/apis/events.k8s.io/v1/namespaces/default/events''"

lemma http_tests:
  assumes "hl_pem_bundle lib (TEST_CA_1 @ TEST_CA_2) = Some [c1, c2]" "\<And>cs. cs \<noteq> [] \<Longrightarrow> hl_build lib 30 cs \<noteq> None"
    and "hl_pem_bundle lib [] \<in> {None, Some []}" "hl_pem_bundle lib ''not a pem'' \<in> {None, Some []}"
  shows "build_http_trusts_every_cert_in_the_bundle lib" "build_http_rejects_a_bundle_without_certs lib"
  using assms by (auto simp: build_http_trusts_every_cert_in_the_bundle_def build_http_rejects_a_bundle_without_certs_def build_http_def)

text \<open>
  The URL tests, for a crate whose \<open>path_segments_mut\<close> appends each segment after a slash, percent
  encoded (\<open>enc\<close>), and which leaves out the default port.
\<close>

lemma url_tests:
  assumes http: "hl_pem_bundle lib TEST_CA_1 = Some [c1]" "hl_build lib 30 [c1] = Some h"
    and ext: "\<And>u segs. \<exists>v. hl_url_extend lib u segs = Some v \<and> as_string v = as_string u @ concat (map (\<lambda>s. ''/'' @ enc s) segs) \<and>
      path_str v = path_str u @ concat (map (\<lambda>s. ''/'' @ enc s) segs) \<and> query v = query u"
    and enc: "enc ''default'' = ''default''" "enc ''events'' = ''events''" "enc ''my-event.abc'' = ''my-event.abc''"
      "enc ''a/b?c%'' = ''a%2Fb%3Fc%25''" "enc ''x/y'' = ''x%2Fy''"
    and base: "hl_url_parse lib ''https://10.0.0.1:443/apis/events.k8s.io/v1/namespaces'' = Some u1"
      "as_string u1 = ''https://10.0.0.1/apis/events.k8s.io/v1/namespaces''"
      "hl_url_parse lib ''https://10.0.0.1:6443/apis/events.k8s.io/v1/namespaces'' = Some u2"
      "path_str u2 = ''/apis/events.k8s.io/v1/namespaces''" "query u2 = None"
      "hl_url_parse lib ''https://[fd00::1]:6443/apis/events.k8s.io/v1/namespaces'' = Some u3"
      "as_string u3 = ''https://[fd00::1]:6443/apis/events.k8s.io/v1/namespaces''"
  shows "events_url_builds_create_and_patch_paths lib as_string" "events_url_encodes_each_segment lib path_str query"
    "events_base_keeps_ipv6_brackets lib as_string"
proof -
  have client: "test_client lib origin = map_option (\<lambda>b. \<lparr>ec_http = h, ec_events_base = b, ec_token = ''test''\<rparr>) (events_base lib origin)" for origin
    using http by (simp add: test_client_def new_for_test_def build_http_def)
  have str: "map_option as_string (hl_url_extend lib u segs) = Some (as_string u @ concat (map (\<lambda>s. ''/'' @ enc s) segs))" for u segs
    using ext [of u segs] by auto
  show "events_url_builds_create_and_patch_paths lib as_string" "events_base_keeps_ipv6_brackets lib as_string"
    using base enc
    by (simp_all add: events_url_builds_create_and_patch_paths_def events_base_keeps_ipv6_brackets_def client events_base_def events_url_def str)
  obtain v where "hl_url_extend lib u2 [''a/b?c%'', ''events'', ''x/y''] = Some v"
    "path_str v = ''/apis/events.k8s.io/v1/namespaces/a%2Fb%3Fc%25/events/x%2Fy''" "query v = None"
    using ext [of u2 "[''a/b?c%'', ''events'', ''x/y'']"] base(4,5) enc by auto
  with base(3) show "events_url_encodes_each_segment lib path_str query"
    by (simp add: events_url_encodes_each_segment_def client events_base_def events_url_def)
qed

end
