(* ===== verification/Daemon_Tests.thy ===== *)
theory Daemon_Tests
  imports Daemon Config_Tests
begin

text \<open>
  The unit tests of \<open>src/main.rs\<close>, translated: the daemon's start when one of its steps fails. The
  text of the error is the constructor that names the step. The tests run in a temporary
  directory \<open>/t\<close>.
\<close>

definition daemon_test_args :: "path \<Rightarrow> path \<Rightarrow> path \<Rightarrow> daemon_args" where
  "daemon_test_args config_path pattern pipe =
     \<lparr>da_handler_path = ''/opt/coredrop/bin/coredrop'', da_config_path = config_path, da_cluster = ''test'', da_no_redact = False,
      da_proc_root = ''/proc'', da_store_url = None, da_crictl_path = ''/usr/local/bin/crictl'', da_cri_runtime_endpoint = None,
      da_max_core_bytes = 0, da_max_cores_per_hour = 0, da_upload_deadline_secs = 0, da_crictl_timeout_secs = 0,
      da_no_events = True, da_pipe_limit = 16, da_node_name = None, da_core_pattern_path = pattern, da_core_pipe_limit_path = pipe\<rparr>"

definition daemon_sysctls :: fs where
  "daemon_sysctls = tmp_dir(''/t/core_pattern'' \<mapsto> File (''core'' @ [newline]) mode_644, ''/t/core_pipe_limit'' \<mapsto> File (''0'' @ [newline]) mode_644)"

definition errors_when_config_write_fails :: "('u, 'c, 'h) daemon_env \<Rightarrow> bool" where
  "errors_when_config_write_fails env \<longleftrightarrow>
     (case run_daemon (env\<lparr>de_io := no_faults\<rparr>) (daemon_test_args ''/t/run/handler.json'' ''/t/core_pattern'' ''/t/core_pipe_limit'') [] id
        (daemon_sysctls(''/t/run'' \<mapsto> Dir mode_755, ''/t/run/handler.json'' \<mapsto> Dir mode_755)) of
        (Inl (ConfigWriteFailed _), s) \<Rightarrow> read_to_string no_faults s ''/t/core_pattern'' = Inr (''core'' @ [newline])
      | _ \<Rightarrow> False)"

definition errors_when_core_pattern_install_fails :: "('u, 'c, 'h) daemon_env \<Rightarrow> bool" where
  "errors_when_core_pattern_install_fails env \<longleftrightarrow>
     (case run_daemon (env\<lparr>de_io := no_faults\<rparr>) (daemon_test_args ''/t/run/handler.json'' ''/t/no-such-dir/core_pattern'' ''/t/core_pipe_limit'') [] id
        daemon_sysctls of
        (Inl (InstallFailed _), s) \<Rightarrow> path_exists s ''/t/run/handler.json'' \<and> path_exists s ''/t/run/events.sock''
      | _ \<Rightarrow> False)"

text \<open>A socket's path has at most 107 bytes.\<close>

definition sun_path_io :: io_env where
  "sun_path_io = \<lparr>io_fails = (\<lambda>op p. op = OpBind \<and> 107 < length p), io_partial = (\<lambda>_. 0)\<rparr>"

definition long_dir :: path where "long_dir = path_join ''/t'' (replicate 120 (CHR ''d''))"

definition errors_when_event_socket_bind_fails :: "('u, 'c, 'h) daemon_env \<Rightarrow> bool" where
  "errors_when_event_socket_bind_fails env \<longleftrightarrow>
     (case run_daemon (env\<lparr>de_io := sun_path_io\<rparr>) (daemon_test_args (path_join long_dir ''handler.json'') ''/t/core_pattern'' ''/t/core_pipe_limit'')
        [] id daemon_sysctls of
        (Inl (BindFailed _), s) \<Rightarrow>
          \<not> path_exists s (path_join long_dir ''handler.json'') \<and> read_to_string no_faults s ''/t/core_pattern'' = Inr (''core'' @ [newline])
      | _ \<Rightarrow> False)"

lemma daemon_test_paths:
  "path_parent ''/t/run/handler.json'' = Some ''/t/run''" "path_parent ''/t/run/events.sock'' = Some ''/t/run''"
  "path_parent ''/t/run/handler.json.tmp'' = Some ''/t/run''" "path_ancestors ''/t/run'' = [''/'', ''/t'', ''/t/run'']"
  "event_socket_path_for ''/t/run/handler.json'' = ''/t/run/events.sock''" "tmp_path ''/t/run/handler.json'' = ''/t/run/handler.json.tmp''"
  by code_simp+

lemma daemon_sysctl_read: "s ''/t/core_pattern'' = Some (File (''core'' @ [newline]) m) \<Longrightarrow>
    read_to_string no_faults s ''/t/core_pattern'' = Inr (''core'' @ [newline])"
proof -
  assume a: "s ''/t/core_pattern'' = Some (File (''core'' @ [newline]) m)"
  have "utf8_valid (''core'' @ [newline])" by code_simp
  with a show ?thesis by (simp add: read_to_string_def fs_read_def node_at_plain)
qed

lemmas daemon_test_simps = daemon_test_paths fs_call_defs ensure_private_dir_def create_dir_all_def is_dir_def node_at_plain follow_plain
  parent_is_dir_def tmp_dir_def daemon_sysctls_def bind_socket_def socket_bind_def

text \<open>The socket is bound in a private directory.\<close>

lemma daemon_test_bind:
  assumes "s ''/'' = Some (Dir mode_755)" "s ''/t'' = Some (Dir mode_700)" "s ''/t/run'' = None \<or> s ''/t/run'' = Some (Dir mode_755)"
    and "s ''/t/run/events.sock'' = None"
  shows "bind_socket no_faults ''/t/run/events.sock'' s = (Inr (), s(''/t/run'' \<mapsto> Dir mode_700, ''/t/run/events.sock'' \<mapsto> Socket EVENT_SOCKET_MODE))"
  using assms by (auto simp: daemon_test_simps)

lemma config_write_test:
  assumes "cc_print (de_codec env) (to_handler_config (daemon_test_args ''/t/run/handler.json'' ''/t/core_pattern'' ''/t/core_pipe_limit'')
    (de_store_vars env)) = Some json"
  shows "errors_when_config_write_fails env"
proof -
  let ?s = "daemon_sysctls(''/t/run'' \<mapsto> Dir mode_755, ''/t/run/handler.json'' \<mapsto> Dir mode_755)"
  let ?s1 = "?s(''/t/run'' \<mapsto> Dir mode_700, ''/t/run/events.sock'' \<mapsto> Socket EVENT_SOCKET_MODE)"
  let ?cfg = "to_handler_config (daemon_test_args ''/t/run/handler.json'' ''/t/core_pattern'' ''/t/core_pipe_limit'') (de_store_vars env)"
  have b: "bind_socket no_faults ''/t/run/events.sock'' ?s = (Inr (), ?s1)"
    by (rule daemon_test_bind) (simp_all add: daemon_sysctls_def tmp_dir_def)
  obtain s2 where w: "config_write (de_codec env) no_faults ?cfg ''/t/run/handler.json'' ?s1 = (Inl IsADirectory, s2)"
    "s2 ''/t/core_pattern'' = Some (File (''core'' @ [newline]) mode_644)"
    using assms by (simp add: config_write_def config_write_tmp_def daemon_test_simps Let_def file_content_def set_content_def)
  have "daemon_start (de_codec env) no_faults (daemon_test_args ''/t/run/handler.json'' ''/t/core_pattern'' ''/t/core_pipe_limit'') (de_store_vars env) ?s =
      (Inl (ConfigWriteFailed IsADirectory), s2)"
    using b w(1) by (simp add: daemon_start_def daemon_test_paths Let_def) (simp add: daemon_test_args_def daemon_test_paths)
  with daemon_sysctl_read [of s2] w(2) show ?thesis by (simp add: errors_when_config_write_fails_def run_daemon_def)
qed

lemma install_test:
  assumes "cc_print (de_codec env) (to_handler_config (daemon_test_args ''/t/run/handler.json'' ''/t/no-such-dir/core_pattern'' ''/t/core_pipe_limit'')
    (de_store_vars env)) = Some json"
  shows "errors_when_core_pattern_install_fails env"
proof -
  let ?args = "daemon_test_args ''/t/run/handler.json'' ''/t/no-such-dir/core_pattern'' ''/t/core_pipe_limit''"
  let ?s1 = "daemon_sysctls(''/t/run'' \<mapsto> Dir mode_700, ''/t/run/events.sock'' \<mapsto> Socket EVENT_SOCKET_MODE)"
  have b: "bind_socket no_faults ''/t/run/events.sock'' daemon_sysctls = (Inr (), ?s1)"
    by (rule daemon_test_bind) (simp_all add: daemon_sysctls_def tmp_dir_def)
  obtain s2 where w: "config_write (de_codec env) no_faults (to_handler_config ?args (de_store_vars env)) ''/t/run/handler.json'' ?s1 = (Inr (), s2)"
    and s2: "s2 ''/t/run/handler.json'' = Some (File json mode_600)" "s2 ''/t/run/events.sock'' = Some (Socket EVENT_SOCKET_MODE)"
      "s2 ''/t/no-such-dir/core_pattern'' = None"
  proof -
    have "config_write (de_codec env) no_faults (to_handler_config ?args (de_store_vars env)) ''/t/run/handler.json'' ?s1 =
        (Inr (), ?s1(''/t/run'' \<mapsto> Dir mode_700, tmp_path ''/t/run/handler.json'' := None, ''/t/run/handler.json'' \<mapsto> File json mode_600))"
      by (rule config_write_completes) (use assms in \<open>auto simp: daemon_test_simps\<close>)
    with that show thesis by (simp add: daemon_test_simps)
  qed
  have "install_at no_faults (da_handler_path ?args) (da_pipe_limit ?args) ''/t/no-such-dir/core_pattern'' ''/t/core_pipe_limit'' s2 = (Inl NotFound, s2)"
    using s2(3) by (simp add: install_at_def read_to_string_def fs_read_def node_at_plain)
  then have "daemon_start (de_codec env) no_faults ?args (de_store_vars env) daemon_sysctls = (Inl (InstallFailed NotFound), s2)"
    using b w by (simp add: daemon_start_def daemon_test_paths Let_def) (simp add: daemon_test_args_def daemon_test_paths)
  with s2 show ?thesis by (simp add: errors_when_core_pattern_install_fails_def run_daemon_def path_exists_def node_at_plain)
qed

lemma long_dir_paths:
  "event_socket_path_for (path_join long_dir ''handler.json'') = path_join long_dir ''events.sock''"
  "path_parent (path_join long_dir ''events.sock'') = Some long_dir" "path_ancestors long_dir = [''/'', ''/t'', long_dir]"
  "107 < length (path_join long_dir ''events.sock'')"
  by code_simp+

lemma long_dir_distinct:
  "long_dir \<notin> set [[], ''/'', ''/t'', ''/t/core_pattern'', ''/t/core_pipe_limit'', path_join long_dir ''handler.json'', path_join long_dir ''events.sock'']"
  "path_join long_dir ''events.sock'' \<notin> set [''/'', ''/t'', ''/t/core_pattern'', ''/t/core_pipe_limit'']"
  "path_join long_dir ''handler.json'' \<notin> set [''/'', ''/t'', ''/t/core_pattern'', ''/t/core_pipe_limit'']"
  by code_simp+

lemma bind_test: "errors_when_event_socket_bind_fails env"
proof -
  let ?args = "daemon_test_args (path_join long_dir ''handler.json'') ''/t/core_pattern'' ''/t/core_pipe_limit''"
  let ?s = "daemon_sysctls(long_dir \<mapsto> Dir mode_700)"
  have "bind_socket sun_path_io (path_join long_dir ''events.sock'') daemon_sysctls = (Inl (Fault OpBind), ?s)"
    using long_dir_distinct
    by (auto simp: bind_socket_def long_dir_paths ensure_private_dir_def create_dir_all_def is_dir_def node_at_plain follow_plain
        set_permissions_def remove_file_def socket_bind_def sun_path_io_def daemon_sysctls_def tmp_dir_def)
  then have st: "daemon_start (de_codec env) sun_path_io ?args (de_store_vars env) daemon_sysctls = (Inl (BindFailed (Fault OpBind)), ?s)"
    by (simp add: daemon_start_def Let_def) (simp add: daemon_test_args_def long_dir_paths)
  have "?s ''/t/core_pattern'' = Some (File (''core'' @ [newline]) mode_644)" "?s (path_join long_dir ''handler.json'') = None"
    using long_dir_distinct by (auto simp: daemon_sysctls_def tmp_dir_def)
  with st daemon_sysctl_read [of ?s mode_644] show ?thesis
    by (simp add: errors_when_event_socket_bind_fails_def run_daemon_def path_exists_def node_at_plain del: fun_upd_apply)
qed

end
