(* ===== verification/Spec2Isabelle.thy ===== *)
theory Spec2Isabelle
  imports Cgroup Rate_Limit Rate_Limit_Conc Rate_Limit_File Redact Build_Id Backend Upload Config Manifest
    Events Crictl Snapshot Handler Capture_Flow Capture_Spec K8s_Events Core_Pattern Health Daemon
    Cgroup_Tests Rate_Limit_Tests Redact_Tests Build_Id_Tests Backend_Tests Upload_Tests Config_Tests
    Wire_Tests Snapshot_Tests Handler_Tests K8s_Events_Tests Daemon_Tests
begin

text \<open>
  A model of \<open>coredrop\<close>, a core dump collector for Kubernetes nodes written in Rust, and the
  theorems that make it correct.

  \<^bold>\<open>The program.\<close> One binary runs in three modes (\<open>src/src/main.rs\<close>). The \<^emph>\<open>daemon\<close> binds a datagram
  socket, writes a configuration file, routes the kernel's \<open>core_pattern\<close> to the binary, logs the
  captures that handlers report, posts them as Kubernetes Events, and puts the kernel's
  settings back when it ends. The \<^emph>\<open>handler\<close> is run by the kernel for each crash with the core on
  its standard input: it snapshots \<open>/proc/<pid>\<close>, finds the container from the cgroup file, asks
  the rate limiter, streams the core through zstd into an object store under a size cap and a
  deadline, uploads the snapshot, asks \<open>crictl\<close> for names, writes a JSON manifest and reports to the
  daemon. The \<^emph>\<open>check\<close> is the probe that says whether the capture path is in place.

  \<^bold>\<open>The theories\<close>, each after a source file under \<open>src/src/\<close>:

  \<^item> \<open>Prelude\<close>, \<open>Rust_Str\<close>, \<open>Rust_Utf8\<close>, \<open>Rust_Num\<close>: the parts of Rust's language and standard
    library that the source uses: machine integers as words, \<open>trim\<close>, \<open>split\<close> and UTF-8 on lists of
    bytes, parsing and printing of numbers. A string and an \<open>OsStr\<close> are both lists of bytes.
  \<^item> \<open>Filesystem\<close>: files, directories, links and sockets as a map from paths to nodes, and the
    system calls on it; every call may fail (\<open>io_env\<close>), so a theorem for all \<open>io\<close> covers every
    pattern of I/O errors. \<open>ensure_private_dir\<close> of \<open>config.rs\<close> is there.
  \<^item> \<open>Cgroup\<close> (\<open>cgroup.rs\<close>), \<open>Redact\<close> (\<open>redact.rs\<close>), \<open>Build_Id\<close> (\<open>buildid.rs\<close>): the three readers of
    data that the crashed process controls.
  \<^item> \<open>Rate_Limit\<close>, \<open>Rate_Limit_Conc\<close>, \<open>Rate_Limit_File\<close> (\<open>ratelimit.rs\<close>): the sliding window, its state
    file under a lock, handlers that interleave on the lock as a step relation, and the file as
    an implementation of the pure limiter.
  \<^item> \<open>Backend\<close> (\<open>backend.rs\<close>), \<open>Upload\<close> (\<open>upload.rs\<close>): the two ways to drain a core. A pipe is the list
    of what its reads give: data, an error, the end, or a stall. The encoder, the multipart writer
    and the hashing writer are polled as the source polls them.
  \<^item> \<open>Config\<close> (\<open>config.rs\<close>): the configuration, its validation, reading and the atomic replacement.
  \<^item> \<open>Json\<close>: JSON values and the conventions of \<open>serde\<close>'s derived code; \<open>Manifest\<close> (\<open>manifest.rs\<close>) and
    \<open>Events\<close> (\<open>events.rs\<close>) are the two formats that are written with it.
  \<^item> \<open>Crictl\<close> (\<open>crictl.rs\<close>) and \<open>Snapshot\<close> (\<open>snapshot.rs\<close>).
  \<^item> \<open>Handler\<close> (\<open>handler.rs\<close>): the arguments, and \<open>run\<close> with one definition per stage, in the order
    of the source, over a \<open>world\<close> of files, objects and sent datagrams; \<open>Capture_Flow\<close> has the
    properties of whole runs, and \<open>Capture_Spec\<close> the abstract ledger of crashes with the simulation
    that relates series of runs to it.
  \<^item> \<open>K8s_Events\<close> (\<open>k8s_events.rs\<close>): the socket, the aggregator, the API client and the listener; the
    endless loop is run on any finite list of events.
  \<^item> \<open>Core_Pattern\<close> (\<open>core_pattern.rs\<close>), \<open>Health\<close> (\<open>health.rs\<close>), \<open>Daemon\<close> (\<open>main.rs\<close>): the daemon from its
    start to its end, the probe, and the dispatch of the modes.
  \<^item> \<open>Cgroup_Tests\<close>, \<open>Rate_Limit_Tests\<close>, \<open>Redact_Tests\<close>, \<open>Build_Id_Tests\<close>, \<open>Backend_Tests\<close>, \<open>Upload_Tests\<close>,
    \<open>Config_Tests\<close> (\<open>config.rs\<close>, \<open>core_pattern.rs\<close>, \<open>health.rs\<close>), \<open>Wire_Tests\<close> (\<open>events.rs\<close>, \<open>manifest.rs\<close>,
    \<open>crictl.rs\<close>), \<open>Snapshot_Tests\<close>, \<open>Handler_Tests\<close>, \<open>K8s_Events_Tests\<close>, \<open>Daemon_Tests\<close>: the unit tests of the
    modules, each as a definition that says what the test asserts and a lemma that the model
    satisfies it. They validate the model: a definition that departs from the code on a case the
    authors thought of would fail there.

  \<^bold>\<open>Interfaces.\<close> A client that relies on a contract has it as a locale, interpreted on the model's
  own definitions: \<open>core_sink\<close> (the trait \<open>CaptureBackend\<close>) and \<open>bounded_sink\<close> (one that returns under
  a deadline) for both backends, \<open>put_stage\<close> for the uploads of snapshot and manifest, \<open>json_codec\<close>
  for each serialised type, \<open>event_series\<close> for the aggregator, \<open>sliding_window\<close> for the limiter, and
  \<open>simulation\<close>, which lifts a refined step to series of steps, for the limiter's file and for
  captures.

  \<^bold>\<open>What is shown.\<close> For a capture: a manifest never points at a missing core
  or snapshot, the outcome that is reported is the one that happened, a failed capture costs no
  budget and a suppressed one keeps its record, every run ends as long as the store answers the
  requests that are outside the deadline, touches only its own objects, and reaches the daemon's
  log. For a series of captures on a healthy node: what the store and the limiter's file hold is
  the ledger of the crashes, and a core that the budget admits is kept. For the limiter:
  concurrent handlers, failing calls included, behave as if one after another in the order of the
  lock, every crash storm ends, without I/O errors it admits exactly what the budget has left, the
  file decides as the pure limiter does, no error makes a core be lost that the budget allows, and
  an hour's uploads stay within the budget as far as the checks come in the order of the crash
  times. For the store: the object is the core, and a failed upload is aborted, or leaves the
  complete core. For redaction: the output does not depend on secrets that are valid UTF-8; others
  stay in the clear. For the configuration: it is replaced atomically, and a write changes nothing
  else but its parent directory. For the daemon: its start order loses no crash, a started daemon
  is healthy, an ended one leaves the node as it was, and no datagram can direct a request
  elsewhere. For the readers: totality on every input, soundness and round trips. Six theorems
  state flaws: a forged cgroup path, a password that contains an at sign, an event whose creation
  failed, a configuration path that the handler cannot know, a \<open>core_pipe_limit\<close> that
  a killed daemon costs the node, and a late check that exceeds the budget.

  \<^bold>\<open>Foreign code\<close> is a parameter, with what is documented of it as a hypothesis where a theorem
  needs it: zstd (\<open>zstd_ok\<close>), SHA-256, the object store's replies, \<open>ObjectPath\<close>, \<open>url\<close>, \<open>tar\<close>
  (\<open>tar_ok\<close>), \<open>serde_json\<close>'s text form (printing and parsing are inverse), \<open>chrono\<close>, \<open>reqwest\<close>, the
  child process, the order of a directory's entries and the API server. Each such theorem is
  followed by an instance on a concrete function.

  \<^bold>\<open>Bounds.\<close> No fuel is needed where the source's loops end; a drain or a child that never ends
  without its deadline, or a request outside the deadline (PUT and abort) that is never
  answered, is the result \<open>None\<close> of its function, and \<open>RunHangs\<close> of a run, and the theorems on
  termination show that the first does not occur when the deadline and the timeout are set; that
  the store answers is a hypothesis of theirs, which the retry limit of \<open>retry_config\<close> backs. A wait
  for the lock is a state of the crash storm, not of a single capture. Links are
  followed at most 40 times, as Linux does. Integers have the width of the source; \<open>chk\<close> says
  whether a build has overflow checks, as release builds here have not.

  \<^bold>\<open>Not modelled.\<close> Log output other than the listener's summary line, the \<open>tokio\<close> runtime and the
  wait for signals, \<open>clap\<close>'s parsing of the daemon's command line (its result and its defaults are
  \<open>daemon_args\<close>), the integration tests, the chart and the scripts. A panic in the daemon's listener at
  \<open>2 ^ 32\<close> repeats of one event within an hour in a build with overflow checks is not modelled:
  the counter wraps, as in a release build.
\<close>

section \<open>From the crash to the log\<close>

text \<open>
  C4. A crash that the handler reports is logged by the daemon as it was reported. Started on
  arguments that parse, a run that returns sends one datagram, whose payload names the crash's
  pid, signal, executable and time and has outcome \<open>failed\<close> exactly when the run failed; when it
  is delivered and is not longer than the receive buffer, the listener, whatever else it
  receives before and after, logs exactly that payload in its place.
\<close>

theorem capture_reaches_log:
  assumes "capture_args_parse argv = Inr args"
    and "run lib env args config p so w = (fin, w')" "fin = RunOk \<or> fin = RunErr e"
    and "hc_event_socket_path config = Some sock" "dg_unbound_ok (en_net env)" "dg_nonblocking_ok (en_net env)"
    and "\<And>v b. en_json_print env v = Some b \<Longrightarrow> parse b = Some v"
  shows "\<exists>pl ds. payload_of_args args pl \<and> (ce_outcome pl = Failed \<longleftrightarrow> fin = RunErr e) \<and> wo_sent w' = wo_sent w @ ds \<and>
    (\<forall>b. en_json_print env (payload_to_json pl) = Some b \<and> dg_delivers (en_net env) sock b \<longrightarrow> ds = [(sock, b)]) \<and>
    (\<forall>q b. (q, b) \<in> set ds \<and> length b \<le> 65536 \<longrightarrow> q = sock \<and>
      li_logs (run_listener hlib net micros parse io s vars node post_events (before @ Datagram t b # after)) =
        li_logs (run_listener hlib net micros parse io s vars node post_events before) @ [log_capture pl] @
        li_logs (run_listener hlib net micros parse io s vars node post_events after))"
proof -
  let ?send = "send_capture_event (\<lambda>p. en_json_print env (payload_to_json p)) (en_net env) (hc_event_socket_path config)"
  from run_reports [OF assms(2,3)] obtain pl where pl: "wo_sent w' = wo_sent w @ ?send pl"
    "payload_of_args args pl" "ce_outcome pl = Failed \<longleftrightarrow> fin = RunErr e" by blast
  have "payload_ok pl" using capture_args_range [OF assms(1)] pl(2) by (simp add: payload_of_args_def payload_ok_def)
  then have dec: "payload_of_json (payload_to_json pl) = Some pl" by (rule payload.decodes)
  have sent: "?send pl = [(sock, b)]" if "en_json_print env (payload_to_json pl) = Some b" "dg_delivers (en_net env) sock b" for b
    using that assms(4-6) by (simp add: send_capture_event_def)
  have got: "q = sock \<and> datagram_payload parse (Datagram t b) = Some pl" if "(q, b) \<in> set (?send pl)" "length b \<le> 65536" for q b
    using that assms(4) assms(7) [of "payload_to_json pl"] dec
    by (auto simp: send_capture_event_def RECV_BUF_def split: option.splits if_splits)
  have "List.map_filter (datagram_payload parse) (before @ Datagram t b # after) =
      List.map_filter (datagram_payload parse) before @ pl # List.map_filter (datagram_payload parse) after"
    if "datagram_payload parse (Datagram t b) = Some pl" for b
    using that by (simp add: map_filter_def del: datagram_payload.simps)
  with got have logged: "q = sock \<and> li_logs (run_listener hlib net micros parse io s vars node post_events (before @ Datagram t b # after)) =
      li_logs (run_listener hlib net micros parse io s vars node post_events before) @ [log_capture pl] @
      li_logs (run_listener hlib net micros parse io s vars node post_events after)"
    if "(q, b) \<in> set (?send pl)" "length b \<le> 65536" for q b
    using that by (simp add: run_listener_logs del: datagram_payload.simps)
  show ?thesis
    by (rule exI [of _ pl], rule exI [of _ "?send pl"]) (use pl sent logged in blast)
qed

theorem capture_reaches_log_witness:
  "\<exists>w' pl. example_run example_codec0 0 [Stall] = (RunErr DeadlineExceeded, w') \<and> wo_sent w' = [(''/run/e'', ''E'')] \<and>
     payload_of_args example_args pl \<and> ce_outcome pl = Failed \<and>
     li_logs (run_listener example_http (\<lambda>_. None) (\<lambda>_. None) example_unprint no_faults Map.empty Map.empty ''n'' False
       [SweepTick 1, Datagram 2 ''E'']) = [log_capture pl]"
proof -
  from example_run_stalled [OF example_unlimited] obtain w' where
    w': "example_run example_codec0 0 [Stall] = (RunErr DeadlineExceeded, w')" "wo_sent w' = [(''/run/e'', ''E'')]" by blast
  have args: "capture_args_parse [''7'', ''11'', ''1000'', ''!bin!app''] = Inr example_args" by code_simp
  have inv: "example_unprint b = Some v" if "example_print v = Some b" for v b
    using that by (auto simp: example_print_def example_unprint_def split: if_splits)
  have net: "dg_unbound_ok (en_net (example_capture_env c))" "dg_nonblocking_ok (en_net (example_capture_env c))" for c
    by (simp_all add: example_capture_env_def)
  from capture_reaches_log [OF args w'(1), where sock = "''/run/e''" and parse = example_unprint and e = DeadlineExceeded and hlib = example_http
      and net = "\<lambda>_. None" and micros = "\<lambda>_. None" and io = no_faults and s = Map.empty and vars = Map.empty and node = "''n''"
      and post_events = False and before = "[SweepTick 1]" and after = "[]" and t = 2] inv net
  obtain pl ds where pl: "payload_of_args example_args pl" "ce_outcome pl = Failed" "wo_sent w' = ds"
    and log: "\<forall>q b. (q, b) \<in> set ds \<and> length b \<le> 65536 \<longrightarrow> q = ''/run/e'' \<and>
      li_logs (run_listener example_http (\<lambda>_. None) (\<lambda>_. None) example_unprint no_faults Map.empty Map.empty ''n'' False
        ([SweepTick 1] @ Datagram 2 b # [])) =
      li_logs (run_listener example_http (\<lambda>_. None) (\<lambda>_. None) example_unprint no_faults Map.empty Map.empty ''n'' False [SweepTick 1]) @
      [log_capture pl] @ li_logs (run_listener example_http (\<lambda>_. None) (\<lambda>_. None) example_unprint no_faults Map.empty Map.empty ''n'' False [])"
    by auto
  have "li_logs (run_listener example_http (\<lambda>_. None) (\<lambda>_. None) example_unprint no_faults Map.empty Map.empty ''n'' False
      ([SweepTick 1] @ Datagram 2 ''E'' # [])) = [] @ [log_capture pl] @ []"
    using log [rule_format, of "''/run/e''" "''E''"] w'(2) pl(3) by (simp add: run_listener_logs map_filter_def del: append.simps)
  with w' pl(1,2) show ?thesis by auto
qed

end
